(* ===== verification/Prelude.thy ===== *)
theory Prelude
  imports Main
begin

text \<open>
  Shared vocabulary of the development.  Python code that reads and writes state and may
  raise is a state-passing program with exceptions: it takes the state and returns either
  the raised exception or the value, together with the state reached.  As in Python, a raise
  does not undo the effects made before it.
\<close>

named_theorems prog_defs "unfolding rules of the program combinators"
named_theorems keeps_intros "introduction rules for state predicates every outcome keeps"
named_theorems triple_intros "introduction rules for pre/postconditions"

type_synonym ('s, 'x, 'a) prog = "'s \<Rightarrow> ('x + 'a) \<times> 's"

section \<open>Programs\<close>

definition ret :: "'a \<Rightarrow> ('s, 'x, 'a) prog" where
  "ret a = (\<lambda>s. (Inr a, s))"

definition raise :: "'x \<Rightarrow> ('s, 'x, 'a) prog" where
  "raise x = (\<lambda>s. (Inl x, s))"

definition bindM :: "('s, 'x, 'a) prog \<Rightarrow> ('a \<Rightarrow> ('s, 'x, 'b) prog) \<Rightarrow> ('s, 'x, 'b) prog" where
  "bindM m f = (\<lambda>s. case m s of (Inl x, t) \<Rightarrow> (Inl x, t) | (Inr a, t) \<Rightarrow> f a t)"

text \<open>\<open>catch m h\<close> is \<open>try: m except: h\<close>; a handler re-raises what it does not handle.\<close>

definition catch :: "('s, 'x, 'a) prog \<Rightarrow> ('x \<Rightarrow> ('s, 'x, 'a) prog) \<Rightarrow> ('s, 'x, 'a) prog" where
  "catch m h = (\<lambda>s. case m s of (Inl x, t) \<Rightarrow> h x t | (Inr a, t) \<Rightarrow> (Inr a, t))"

text \<open>\<open>try: m except E: x else: y\<close> with the two continuations outside the protected part.\<close>

definition try_else ::
  "('s, 'x, 'a) prog \<Rightarrow> ('x \<Rightarrow> ('s, 'x, 'b) prog) \<Rightarrow> ('a \<Rightarrow> ('s, 'x, 'b) prog) \<Rightarrow> ('s, 'x, 'b) prog"
where
  "try_else m h k = (\<lambda>s. case m s of (Inl x, t) \<Rightarrow> h x t | (Inr a, t) \<Rightarrow> k a t)"

definition gets :: "('s \<Rightarrow> 'a) \<Rightarrow> ('s, 'x, 'a) prog" where
  "gets f = (\<lambda>s. (Inr (f s), s))"

definition modify :: "('s \<Rightarrow> 's) \<Rightarrow> ('s, 'x, unit) prog" where
  "modify f = (\<lambda>s. (Inr (), f s))"

abbreviation seqM :: "('s, 'x, 'a) prog \<Rightarrow> ('s, 'x, 'b) prog \<Rightarrow> ('s, 'x, 'b) prog" where
  "seqM m n \<equiv> bindM m (\<lambda>_. n)"

text \<open>\<open>for x in xs: f x\<close>, stopping at the first raise.\<close>

primrec forM :: "'a list \<Rightarrow> ('a \<Rightarrow> ('s, 'x, unit) prog) \<Rightarrow> ('s, 'x, unit) prog" where
  "forM [] f = ret ()"
| "forM (x # xs) f = bindM (f x) (\<lambda>_. forM xs f)"

lemma ret_apply [simp]: "ret a s = (Inr a, s)"
  by (simp add: ret_def)

lemma raise_apply [simp]: "raise x s = (Inl x, s)"
  by (simp add: raise_def)

lemma gets_apply [simp]: "gets f s = (Inr (f s), s)"
  by (simp add: gets_def)

lemma modify_apply [simp]: "modify f s = (Inr (), f s)"
  by (simp add: modify_def)

lemma bindM_apply [prog_defs]:
  "bindM m f s = (case m s of (Inl x, t) \<Rightarrow> (Inl x, t) | (Inr a, t) \<Rightarrow> f a t)"
  by (simp add: bindM_def)

lemma catch_apply [prog_defs]:
  "catch m h s = (case m s of (Inl x, t) \<Rightarrow> h x t | (Inr a, t) \<Rightarrow> (Inr a, t))"
  by (simp add: catch_def)

lemma try_else_apply [prog_defs]:
  "try_else m h k s = (case m s of (Inl x, t) \<Rightarrow> h x t | (Inr a, t) \<Rightarrow> k a t)"
  by (simp add: try_else_def)

text \<open>Rewriting one step of a run whose first part is known.\<close>

lemma bindM_Inr: "m s = (Inr a, t) \<Longrightarrow> bindM m f s = f a t"
  by (simp add: bindM_def)

lemma bindM_Inl: "m s = (Inl x, t) \<Longrightarrow> bindM m f s = (Inl x, t)"
  by (simp add: bindM_def)

lemma bindM_ret [simp]: "bindM (ret a) f = f a"
  by (simp add: bindM_def ret_def)

lemma bindM_raise [simp]: "bindM (raise x) f = raise x"
  by (simp add: bindM_def raise_def)

lemma bindM_elim:
  assumes "bindM m f s = (Inr b, u)"
  obtains a t where "m s = (Inr a, t)" and "f a t = (Inr b, u)"
  using assms by (auto simp: bindM_def split: prod.splits sum.splits)

section \<open>What every outcome keeps\<close>

definition keeps :: "('s \<Rightarrow> bool) \<Rightarrow> ('s, 'x, 'a) prog \<Rightarrow> bool" where
  "keeps P m \<longleftrightarrow> (\<forall>s. P s \<longrightarrow> P (snd (m s)))"

lemma keepsI: "(\<And>s. P s \<Longrightarrow> P (snd (m s))) \<Longrightarrow> keeps P m"
  by (simp add: keeps_def)

lemma keepsD: "keeps P m \<Longrightarrow> P s \<Longrightarrow> m s = (r, t) \<Longrightarrow> P t"
  by (metis keeps_def snd_conv)

lemma keeps_ret [keeps_intros]: "keeps P (ret a)"
  by (simp add: keeps_def)

lemma keeps_raise [keeps_intros]: "keeps P (raise x)"
  by (simp add: keeps_def)

lemma keeps_gets [keeps_intros]: "keeps P (gets f)"
  by (simp add: keeps_def)

lemma keeps_bindM [keeps_intros]: "keeps P m \<Longrightarrow> (\<And>a. keeps P (f a)) \<Longrightarrow> keeps P (bindM m f)"
  by (fastforce simp: keeps_def bindM_def split: prod.splits sum.splits)

lemma keeps_catch [keeps_intros]: "keeps P m \<Longrightarrow> (\<And>x. keeps P (h x)) \<Longrightarrow> keeps P (catch m h)"
  by (fastforce simp: keeps_def catch_def split: prod.splits sum.splits)

lemma keeps_try_else [keeps_intros]:
  "keeps P m \<Longrightarrow> (\<And>x. keeps P (h x)) \<Longrightarrow> (\<And>a. keeps P (k a)) \<Longrightarrow> keeps P (try_else m h k)"
  by (fastforce simp: keeps_def try_else_def split: prod.splits sum.splits)

lemma keeps_if [keeps_intros]: "keeps P m \<Longrightarrow> keeps P n \<Longrightarrow> keeps P (if b then m else n)"
  by simp

lemma keeps_option [keeps_intros]:
  "keeps P m \<Longrightarrow> (\<And>a. keeps P (f a)) \<Longrightarrow> keeps P (case x of None \<Rightarrow> m | Some a \<Rightarrow> f a)"
  by (simp split: option.splits)

lemma keeps_sum [keeps_intros]:
  "(\<And>a. keeps P (f a)) \<Longrightarrow> (\<And>b. keeps P (g b)) \<Longrightarrow> keeps P (case x of Inl a \<Rightarrow> f a | Inr b \<Rightarrow> g b)"
  by (simp split: sum.splits)

lemma keeps_prod [keeps_intros]:
  "(\<And>a b. keeps P (f a b)) \<Longrightarrow> keeps P (case x of (a, b) \<Rightarrow> f a b)"
  by (simp split: prod.splits)

lemma keeps_Let [keeps_intros]: "(\<And>a. keeps P (f a)) \<Longrightarrow> keeps P (let a = x in f a)"
  by simp

lemma keeps_forM [keeps_intros]: "(\<And>a. keeps P (f a)) \<Longrightarrow> keeps P (forM xs f)"
  by (induction xs) (auto intro!: keeps_intros)

section \<open>Pre- and postconditions\<close>

text \<open>
  \<open>triple P m Q X\<close>: from a state with \<open>P\<close>, a normal return of \<open>m\<close> satisfies \<open>Q\<close> and a
  raise satisfies \<open>X\<close>.  Programs are total functions, so nothing is said "if it returns".
\<close>

definition triple ::
  "('s \<Rightarrow> bool) \<Rightarrow> ('s, 'x, 'a) prog \<Rightarrow> ('a \<Rightarrow> 's \<Rightarrow> bool) \<Rightarrow> ('x \<Rightarrow> 's \<Rightarrow> bool) \<Rightarrow> bool" where
  "triple P m Q X \<longleftrightarrow> (\<forall>s. P s \<longrightarrow> (case m s of (Inr a, t) \<Rightarrow> Q a t | (Inl x, t) \<Rightarrow> X x t))"

lemma tripleI:
  "(\<And>s a t. P s \<Longrightarrow> m s = (Inr a, t) \<Longrightarrow> Q a t) \<Longrightarrow>
   (\<And>s x t. P s \<Longrightarrow> m s = (Inl x, t) \<Longrightarrow> X x t) \<Longrightarrow> triple P m Q X"
  by (auto simp: triple_def split: prod.splits sum.splits)

lemma tripleD_Inr: "triple P m Q X \<Longrightarrow> P s \<Longrightarrow> m s = (Inr a, t) \<Longrightarrow> Q a t"
  by (fastforce simp: triple_def)

lemma tripleD_Inl: "triple P m Q X \<Longrightarrow> P s \<Longrightarrow> m s = (Inl x, t) \<Longrightarrow> X x t"
  by (fastforce simp: triple_def)

lemma triple_weaken:
  assumes "triple P' m Q' X'" and "\<And>s. P s \<Longrightarrow> P' s"
    and "\<And>a t. Q' a t \<Longrightarrow> Q a t" and "\<And>x t. X' x t \<Longrightarrow> X x t"
  shows "triple P m Q X"
  using assms unfolding triple_def by (fastforce split: prod.splits sum.splits)

lemma triple_ret [triple_intros]: "(\<And>s. P s \<Longrightarrow> Q a s) \<Longrightarrow> triple P (ret a) Q X"
  by (simp add: triple_def)

lemma triple_raise [triple_intros]: "(\<And>s. P s \<Longrightarrow> X x s) \<Longrightarrow> triple P (raise x) Q X"
  by (simp add: triple_def)

lemma triple_gets [triple_intros]: "(\<And>s. P s \<Longrightarrow> Q (f s) s) \<Longrightarrow> triple P (gets f) Q X"
  by (simp add: triple_def)

lemma triple_modify [triple_intros]: "(\<And>s. P s \<Longrightarrow> Q () (f s)) \<Longrightarrow> triple P (modify f) Q X"
  by (simp add: triple_def)

lemma triple_bindM:
  "triple P m R X \<Longrightarrow> (\<And>a. triple (R a) (f a) Q X) \<Longrightarrow> triple P (bindM m f) Q X"
  by (fastforce simp: triple_def bindM_def split: prod.splits sum.splits)

lemma triple_catch:
  "triple P m Q Y \<Longrightarrow> (\<And>x. triple (Y x) (h x) Q X) \<Longrightarrow> triple P (catch m h) Q X"
  by (fastforce simp: triple_def catch_def split: prod.splits sum.splits)

lemma triple_try_else:
  "triple P m R Y \<Longrightarrow> (\<And>x. triple (Y x) (h x) Q X) \<Longrightarrow> (\<And>a. triple (R a) (k a) Q X) \<Longrightarrow>
   triple P (try_else m h k) Q X"
  by (fastforce simp: triple_def try_else_def split: prod.splits sum.splits)

lemma triple_if [triple_intros]:
  "(b \<Longrightarrow> triple P m Q X) \<Longrightarrow> (\<not> b \<Longrightarrow> triple P n Q X) \<Longrightarrow> triple P (if b then m else n) Q X"
  by simp

lemma triple_option [triple_intros]:
  "(x = None \<Longrightarrow> triple P m Q X) \<Longrightarrow> (\<And>a. x = Some a \<Longrightarrow> triple P (f a) Q X) \<Longrightarrow>
   triple P (case x of None \<Rightarrow> m | Some a \<Rightarrow> f a) Q X"
  by (simp split: option.splits)

lemma triple_keeps: "keeps P m \<Longrightarrow> triple P m (\<lambda>_. P) (\<lambda>_. P)"
  by (fastforce simp: keeps_def triple_def split: prod.splits sum.splits)

section \<open>Guarantees: a reflexive and transitive relation between start and end\<close>

text \<open>
  A component guarantees \<open>G\<close> when each of its runs, however it ends, takes the state along
  \<open>G\<close>.  The rules need only that \<open>G\<close> is reflexive and transitive, which is the contract
  below; each use interprets it on its own relation.
\<close>

definition guar :: "('s \<Rightarrow> 's \<Rightarrow> bool) \<Rightarrow> ('s, 'x, 'a) prog \<Rightarrow> bool" where
  "guar G m \<longleftrightarrow> (\<forall>s. G s (snd (m s)))"

lemma guarD: "guar G m \<Longrightarrow> m s = (r, t) \<Longrightarrow> G s t"
  by (metis guar_def snd_conv)

locale preorder_guarantee =
  fixes G :: "'s \<Rightarrow> 's \<Rightarrow> bool"
  assumes G_refl: "G s s"
    and G_trans: "G s t \<Longrightarrow> G t u \<Longrightarrow> G s u"
begin

lemma guar_ret: "guar G (ret a)"
  by (simp add: guar_def G_refl)

lemma guar_raise: "guar G (raise x)"
  by (simp add: guar_def G_refl)

lemma guar_gets: "guar G (gets f)"
  by (simp add: guar_def G_refl)

lemma guar_bindM:
  assumes m: "guar G m" and f: "\<And>a. guar G (f a)"
  shows "guar G (bindM m f)"
  unfolding guar_def
proof
  fix s
  obtain r t where r: "m s = (r, t)" by (cases "m s")
  have st: "G s t" using guarD [OF m r] .
  show "G s (snd (bindM m f s))"
  proof (cases r)
    case (Inl x)
    then show ?thesis using r st by (simp add: bindM_def)
  next
    case (Inr a)
    have "G t (snd (f a t))" using f [of a] by (simp add: guar_def)
    then show ?thesis using r st Inr by (simp add: bindM_def G_trans [of s t])
  qed
qed

lemma guar_try_else:
  assumes m: "guar G m" and h: "\<And>x. guar G (h x)" and k: "\<And>a. guar G (k a)"
  shows "guar G (try_else m h k)"
  unfolding guar_def
proof
  fix s
  obtain r t where r: "m s = (r, t)" by (cases "m s")
  have st: "G s t" using guarD [OF m r] .
  have "G t (snd (h x t))" "G t (snd (k a t))" for x a
    using h [of x] k [of a] by (simp_all add: guar_def)
  then show "G s (snd (try_else m h k s))"
    using r st by (cases r) (simp_all add: try_else_def G_trans [of s t])
qed

lemma catch_try_else: "catch m h = try_else m h ret"
  by (rule ext) (auto simp: catch_def try_else_def split: prod.splits sum.splits)

lemma guar_catch: "guar G m \<Longrightarrow> (\<And>x. guar G (h x)) \<Longrightarrow> guar G (catch m h)"
  unfolding catch_try_else by (intro guar_try_else guar_ret)

lemma guar_if: "guar G m \<Longrightarrow> guar G n \<Longrightarrow> guar G (if b then m else n)"
  by simp

lemma guar_option: "guar G m \<Longrightarrow> (\<And>a. guar G (f a)) \<Longrightarrow> guar G (case x of None \<Rightarrow> m | Some a \<Rightarrow> f a)"
  by (simp split: option.splits)

lemma guar_Let: "(\<And>a. guar G (f a)) \<Longrightarrow> guar G (let a = x in f a)"
  by simp

lemma guar_prod: "(\<And>a b. guar G (f a b)) \<Longrightarrow> guar G (case x of (a, b) \<Rightarrow> f a b)"
  by (simp split: prod.splits)

lemma guar_forM: "(\<And>a. guar G (f a)) \<Longrightarrow> guar G (forM xs f)"
  by (induction xs) (auto intro!: guar_ret guar_bindM)

lemmas guar_intros =
  guar_ret guar_raise guar_gets guar_bindM guar_catch guar_try_else guar_if guar_option
  guar_Let guar_prod guar_forM

end

section \<open>Lists\<close>

lemma map_update_where:
  assumes "\<And>x. f (g x) = f x"
  shows "map f (map (\<lambda>x. if P x then g x else x) xs) = map f xs"
  using assms by (induction xs) auto

end
