(* ===== verification/PyText.thy ===== *)
theory PyText
  imports Prelude
begin

text \<open>
  The parts of Python's text handling the source uses, on Latin-1 text (a \<open>char\<close> is one code
  point below 256): \<open>str.strip\<close>, \<open>str.upper\<close>, \<open>str.lower\<close>, \<open>str.replace\<close>,
  \<open>str.split\<close> with a limit, \<open>str(int)\<close> and \<open>int(str)\<close>.  Case mapping is the ASCII one.
  The section on \<open>int\<close> ends in the round trip the Redis counters rely on.
\<close>

section \<open>Characters\<close>

definition code_of :: "char \<Rightarrow> nat" where
  "code_of c = of_char c"

definition is_space :: "char \<Rightarrow> bool" where
  "is_space c = (let n = code_of c in
     (9 \<le> n \<and> n \<le> 13) \<or> (28 \<le> n \<and> n \<le> 32) \<or> n = 133 \<or> n = 160)"

definition is_digit :: "char \<Rightarrow> bool" where
  "is_digit c = (48 \<le> code_of c \<and> code_of c \<le> 57)"

definition digit_val :: "char \<Rightarrow> nat" where
  "digit_val c = code_of c - 48"

definition digit_char :: "nat \<Rightarrow> char" where
  "digit_char d = char_of (48 + d)"

definition upper_char :: "char \<Rightarrow> char" where
  "upper_char c = (if 97 \<le> code_of c \<and> code_of c \<le> 122 then char_of (code_of c - 32) else c)"

definition lower_char :: "char \<Rightarrow> char" where
  "lower_char c = (if 65 \<le> code_of c \<and> code_of c \<le> 90 then char_of (code_of c + 32) else c)"

lemma code_of_char_of [simp]: "n < 256 \<Longrightarrow> code_of (char_of n) = n"
  by (simp add: code_of_def)

lemma digit_char_simps [simp]:
  assumes "d < 10"
  shows "is_digit (digit_char d)" and "digit_val (digit_char d) = d"
    and "\<not> is_space (digit_char d)"
  using assms by (auto simp: is_digit_def digit_val_def digit_char_def is_space_def Let_def)

lemma is_digit_not_space: "is_digit c \<Longrightarrow> \<not> is_space c"
  by (auto simp: is_digit_def is_space_def Let_def)

section \<open>Strings\<close>

definition py_strip :: "string \<Rightarrow> string" where
  "py_strip s = rev (dropWhile is_space (rev (dropWhile is_space s)))"

definition py_upper :: "string \<Rightarrow> string" where
  "py_upper s = map upper_char s"

definition py_lower :: "string \<Rightarrow> string" where
  "py_lower s = map lower_char s"

definition py_replace_char :: "char \<Rightarrow> string \<Rightarrow> string \<Rightarrow> string" where
  "py_replace_char c r s = concat (map (\<lambda>x. if x = c then r else [x]) s)"

text \<open>\<open>s.split(c, k)\<close>: at most \<open>k\<close> cuts, from the left.\<close>

fun py_split_at :: "char \<Rightarrow> string \<Rightarrow> string \<times> string option" where
  "py_split_at c [] = ([], None)"
| "py_split_at c (x # xs) =
     (if x = c then ([], Some xs)
      else (case py_split_at c xs of (a, rest) \<Rightarrow> (x # a, rest)))"

primrec py_split_max :: "char \<Rightarrow> nat \<Rightarrow> string \<Rightarrow> string list" where
  "py_split_max c 0 s = [s]"
| "py_split_max c (Suc k) s =
     (case py_split_at c s of
        (a, None) \<Rightarrow> [a]
      | (a, Some rest) \<Rightarrow> a # py_split_max c k rest)"

text \<open>\<open>s.split(c)\<close>.\<close>

definition py_split :: "char \<Rightarrow> string \<Rightarrow> string list" where
  "py_split c s = py_split_max c (length s) s"

definition py_starts_with :: "string \<Rightarrow> string \<Rightarrow> bool" where
  "py_starts_with p s = (take (length p) s = p)"

lemma py_split_at_hit: "c \<notin> set a \<Longrightarrow> py_split_at c (a @ c # rest) = (a, Some rest)"
  by (induction a) auto

lemma py_split_at_miss: "c \<notin> set a \<Longrightarrow> py_split_at c a = (a, None)"
  by (induction a) auto

lemma py_strip_id: "(\<forall>c\<in>set s. \<not> is_space c) \<Longrightarrow> py_strip s = s"
proof -
  assume h: "\<forall>c\<in>set s. \<not> is_space c"
  have "dropWhile is_space s = s" using h by (cases s) auto
  moreover have "dropWhile is_space (rev s) = rev s"
    using h by (cases "rev s") (auto simp: dropWhile_eq_self_iff)
  ultimately show ?thesis by (simp add: py_strip_def)
qed

lemma py_strip_ends:
  "py_strip s \<noteq> [] \<Longrightarrow> \<not> is_space (hd (py_strip s)) \<and> \<not> is_space (last (py_strip s))"
proof -
  assume ne: "py_strip s \<noteq> []"
  let ?a = "dropWhile is_space s"
  let ?b = "dropWhile is_space (rev ?a)"
  have b: "?b \<noteq> []" using ne by (simp add: py_strip_def)
  have last: "\<not> is_space (last (rev ?b))"
    using b hd_dropWhile [of is_space "rev ?a"] by (simp add: last_rev)
  obtain p where p: "rev ?a = p @ ?b" using takeWhile_dropWhile_id [of is_space "rev ?a"] by metis
  then have "?a = rev ?b @ rev p" by (metis rev_append rev_rev_ident)
  then have "hd (rev ?b) = hd ?a" using b by (metis hd_append2 rev_is_Nil_conv)
  moreover have "\<not> is_space (hd ?a)"
    using b hd_dropWhile [of is_space s] by (metis dropWhile.simps(1) rev.simps(1))
  ultimately show ?thesis using last by (simp add: py_strip_def)
qed

lemma py_strip_idem [simp]: "py_strip (py_strip s) = py_strip s"
proof (cases "py_strip s")
  case (Cons c cs)
  then have e: "\<not> is_space c" "\<not> is_space (last (c # cs))"
    using py_strip_ends [of s] by auto
  have l: "dropWhile is_space (c # cs) = c # cs"
    using e by (simp add: dropWhile_eq_self_iff)
  have r: "dropWhile is_space (rev (c # cs)) = rev (c # cs)"
    using e by (simp add: dropWhile_eq_self_iff hd_rev del: rev.simps)
  have "py_strip (c # cs) = c # cs" by (simp only: py_strip_def l r rev_rev_ident)
  then show ?thesis using Cons by simp
next
  case Nil
  then show ?thesis by (simp only: Nil) (simp add: py_strip_def)
qed

lemma length_py_strip: "length (py_strip s) \<le> length s"
proof -
  have "length (dropWhile is_space (rev (dropWhile is_space s))) \<le> length (dropWhile is_space s)"
    using length_dropWhile_le [of is_space "rev (dropWhile is_space s)"] by simp
  also have "\<dots> \<le> length s" by (rule length_dropWhile_le)
  finally show ?thesis by (simp add: py_strip_def)
qed

section \<open>Integers as text\<close>

fun show_nat :: "nat \<Rightarrow> string" where
  "show_nat n = (if n < 10 then [digit_char n] else show_nat (n div 10) @ [digit_char (n mod 10)])"

declare show_nat.simps [simp del]

definition show_int :: "int \<Rightarrow> string" where
  "show_int i = (if i < 0 then CHR ''-'' # show_nat (nat (- i)) else show_nat (nat i))"

text \<open>
  \<open>int(text)\<close>: surrounding white space, an optional sign, digits with single underscores
  between them; anything else is a \<open>ValueError\<close>, here \<open>None\<close>.
\<close>

fun read_digits :: "bool \<Rightarrow> nat \<Rightarrow> string \<Rightarrow> nat option" where
  "read_digits ok acc [] = (if ok then Some acc else None)"
| "read_digits ok acc (c # cs) =
     (if is_digit c then read_digits True (10 * acc + digit_val c) cs
      else if c = CHR ''_'' \<and> ok then read_digits False acc cs
      else None)"

definition read_nat :: "string \<Rightarrow> nat option" where
  "read_nat s = read_digits False 0 s"

definition py_int :: "string \<Rightarrow> int option" where
  "py_int text = (let s = py_strip text in
     case s of
       [] \<Rightarrow> None
     | c # cs \<Rightarrow>
         if c = CHR ''-'' then map_option (\<lambda>n. - int n) (read_nat cs)
         else if c = CHR ''+'' then map_option int (read_nat cs)
         else map_option int (read_nat s))"

lemma show_nat_nonempty [simp]: "show_nat n \<noteq> []"
  by (subst show_nat.simps) simp

lemma show_nat_digits: "c \<in> set (show_nat n) \<Longrightarrow> is_digit c"
proof (induction n arbitrary: c rule: show_nat.induct)
  case (1 n)
  show ?case
  proof (cases "n < 10")
    case True
    then show ?thesis using "1.prems" by (simp add: show_nat.simps [of n])
  next
    case False
    then show ?thesis using "1.prems" "1.IH" by (auto simp: show_nat.simps [of n])
  qed
qed

lemma read_digits_foldl:
  "(\<And>c. c \<in> set s \<Longrightarrow> is_digit c) \<Longrightarrow> s \<noteq> [] \<or> ok \<Longrightarrow>
   read_digits ok acc s = Some (foldl (\<lambda>a c. 10 * a + digit_val c) acc s)"
  by (induction s arbitrary: ok acc) auto

lemma foldl_show_nat: "foldl (\<lambda>a c. 10 * a + digit_val c) 0 (show_nat n) = n"
proof (induction n rule: show_nat.induct)
  case (1 n)
  show ?case
  proof (cases "n < 10")
    case True
    then show ?thesis by (simp add: show_nat.simps [of n])
  next
    case False
    then show ?thesis using "1.IH" by (simp add: show_nat.simps [of n])
  qed
qed

lemma read_nat_show_nat [simp]: "read_nat (show_nat n) = Some n"
  using read_digits_foldl [of "show_nat n" False 0] foldl_show_nat [of n] show_nat_digits
  by (simp add: read_nat_def)

lemma show_nat_hd_digit: "show_nat n = c # cs \<Longrightarrow> is_digit c"
  using show_nat_digits [of c n] by simp

lemma sign_not_digit [simp]: "\<not> is_digit CHR ''-''" "\<not> is_digit CHR ''+''" "\<not> is_digit CHR ''_''"
  "\<not> is_digit CHR ''.''" "\<not> is_digit CHR ''E''" "\<not> is_digit CHR ''|''" "\<not> is_digit CHR ''e''"
  by (auto simp: is_digit_def code_of_def)

lemma sign_not_space [simp]: "\<not> is_space CHR ''-''" "\<not> is_space CHR ''+''"
  "\<not> is_space CHR ''.''" "\<not> is_space CHR ''E''"
  by (auto simp: is_space_def code_of_def Let_def)

lemma show_int_no_space: "\<forall>c\<in>set (show_int i). \<not> is_space c"
  by (auto simp: show_int_def dest!: show_nat_digits is_digit_not_space)

lemma py_int_show_int [simp]: "py_int (show_int i) = Some i"
proof -
  have s: "py_strip (show_int i) = show_int i" by (rule py_strip_id [OF show_int_no_space])
  show ?thesis
  proof (cases "i < 0")
    case True
    then show ?thesis using s by (simp add: py_int_def show_int_def)
  next
    case False
    then have si: "show_int i = show_nat (nat i)" by (simp add: show_int_def)
    obtain c cs where c: "show_nat (nat i) = c # cs" by (cases "show_nat (nat i)") auto
    then have "c \<noteq> CHR ''-''" "c \<noteq> CHR ''+''" using show_nat_hd_digit [OF c] by auto
    then show ?thesis using s si c read_nat_show_nat [of "nat i"] False
      by (simp add: py_int_def)
  qed
qed

lemma show_nat_inj: "show_nat m = show_nat n \<Longrightarrow> m = n"
  using read_nat_show_nat by (metis option.inject)

lemma show_int_inj: "show_int i = show_int j \<Longrightarrow> i = j"
  using py_int_show_int by (metis option.inject)

lemma show_nat_digits_code: "c \<in> set (show_nat n) \<Longrightarrow> code_of c \<in> {48..57}"
  using show_nat_digits [of c n] by (simp add: is_digit_def)

lemma bar_not_in_show_int: "CHR ''|'' \<notin> set (show_int i)"
proof
  assume "CHR ''|'' \<in> set (show_int i)"
  then have "CHR ''|'' \<in> set (show_nat (nat \<bar>i\<bar>))" by (auto simp: show_int_def split: if_splits)
  then show False using show_nat_digits by fastforce
qed

end
