(* ===== verification/PyDecimal.thy ===== *)
theory PyDecimal
  imports PyText Complex_Main
begin

text \<open>
  Python's \<open>decimal.Decimal\<close>, as far as the source uses it: finite numbers
  \<open>coefficient * 10 ^ exponent\<close>, exact comparison, addition and multiplication rounded half
  even to the 28 digits of the default context, \<open>to_integral_value\<close>, \<open>int\<close>, \<open>str\<close> and the
  constructor from text.  NaN and the infinities do not occur: the request model refuses
  them and nothing in the program writes them.  \<open>dval\<close> is the rational a decimal denotes.
\<close>

datatype decimal = Dec (coefficient: int) (exponent: int)

definition dval :: "decimal \<Rightarrow> rat" where
  "dval d = of_int (coefficient d) * 10 powi (exponent d)"

section \<open>Comparison\<close>

text \<open>Two decimals are compared after writing them with the smaller exponent.\<close>

definition dec_align :: "decimal \<Rightarrow> decimal \<Rightarrow> int \<times> int \<times> int" where
  "dec_align a b = (let m = min (exponent a) (exponent b) in
     (coefficient a * 10 ^ nat (exponent a - m), coefficient b * 10 ^ nat (exponent b - m), m))"

definition dec_lt :: "decimal \<Rightarrow> decimal \<Rightarrow> bool" where
  "dec_lt a b = (case dec_align a b of (x, y, m) \<Rightarrow> x < y)"

definition dec_le :: "decimal \<Rightarrow> decimal \<Rightarrow> bool" where
  "dec_le a b = (case dec_align a b of (x, y, m) \<Rightarrow> x \<le> y)"

lemma dval_scale:
  assumes "m \<le> e"
  shows "dval (Dec c e) = of_int (c * 10 ^ nat (e - m)) * 10 powi m"
proof -
  have "(10::rat) powi e = 10 powi (e - m) * 10 powi m"
    by (simp add: power_int_add [symmetric])
  also have "(10::rat) powi (e - m) = 10 ^ nat (e - m)"
    using assms by (simp add: power_int_def)
  finally show ?thesis by (simp add: dval_def)
qed

lemma dec_align_val:
  assumes "dec_align a b = (x, y, m)"
  shows "dval a = of_int x * 10 powi m" and "dval b = of_int y * 10 powi m"
  using assms dval_scale [of m "exponent a" "coefficient a"] dval_scale [of m "exponent b" "coefficient b"]
  by (auto simp: dec_align_def Let_def)

lemma dec_lt_val: "dec_lt a b \<longleftrightarrow> dval a < dval b"
proof -
  obtain x y m where al: "dec_align a b = (x, y, m)" by (cases "dec_align a b")
  have "(0::rat) < 10 powi m" by simp
  then show ?thesis using dec_align_val [OF al] al by (simp add: dec_lt_def)
qed

lemma dec_le_val: "dec_le a b \<longleftrightarrow> dval a \<le> dval b"
proof -
  obtain x y m where al: "dec_align a b = (x, y, m)" by (cases "dec_align a b")
  have "(0::rat) < 10 powi m" by simp
  then show ?thesis using dec_align_val [OF al] al by (simp add: dec_le_def)
qed

section \<open>Rounding\<close>

text \<open>\<open>c / d\<close> to the nearest integer, ties to the even one (\<open>d > 0\<close>).\<close>

definition div_half_even :: "int \<Rightarrow> int \<Rightarrow> int" where
  "div_half_even c d = (let q = c div d; r = c mod d in
     if 2 * r < d then q else if d < 2 * r then q + 1 else if even q then q else q + 1)"

definition digit_count :: "int \<Rightarrow> nat" where
  "digit_count c = length (show_nat (nat \<bar>c\<bar>))"

definition decimal_precision :: nat where
  "decimal_precision = 28"

definition dec_fix :: "decimal \<Rightarrow> decimal" where
  "dec_fix d = (let n = digit_count (coefficient d) in
     if n \<le> decimal_precision then d
     else let k = n - decimal_precision;
              c = div_half_even (coefficient d) (10 ^ k);
              e = exponent d + int k
          in if decimal_precision < digit_count c then Dec (c div 10) (e + 1) else Dec c e)"

definition dec_add :: "decimal \<Rightarrow> decimal \<Rightarrow> decimal" where
  "dec_add a b = (case dec_align a b of (x, y, m) \<Rightarrow> dec_fix (Dec (x + y) m))"

definition dec_mul :: "decimal \<Rightarrow> decimal \<Rightarrow> decimal" where
  "dec_mul a b = dec_fix (Dec (coefficient a * coefficient b) (exponent a + exponent b))"

definition dec_to_integral :: "decimal \<Rightarrow> decimal" where
  "dec_to_integral d =
     (if 0 \<le> exponent d then d
      else Dec (div_half_even (coefficient d) (10 ^ nat (- exponent d))) 0)"

text \<open>\<open>int(d)\<close> truncates towards zero.\<close>

definition dec_to_int :: "decimal \<Rightarrow> int" where
  "dec_to_int d =
     (if 0 \<le> exponent d then coefficient d * 10 ^ nat (exponent d)
      else sgn (coefficient d) * (\<bar>coefficient d\<bar> div 10 ^ nat (- exponent d)))"

text \<open>\<open>sum\<close> of a list, as the database computes it (exact).\<close>

definition dec_add_exact :: "decimal \<Rightarrow> decimal \<Rightarrow> decimal" where
  "dec_add_exact a b = (case dec_align a b of (x, y, m) \<Rightarrow> Dec (x + y) m)"

primrec dec_sum :: "decimal list \<Rightarrow> decimal" where
  "dec_sum [] = Dec 0 0"
| "dec_sum (d # ds) = dec_add_exact d (dec_sum ds)"

lemma dval_add_exact [simp]: "dval (dec_add_exact a b) = dval a + dval b"
proof -
  obtain x y m where al: "dec_align a b = (x, y, m)" by (cases "dec_align a b")
  then show ?thesis
    using dec_align_val [OF al] by (simp add: dec_add_exact_def dval_def distrib_right)
qed

lemma dval_dec_sum: "dval (dec_sum ds) = (\<Sum>d\<leftarrow>ds. dval d)"
proof (induction ds)
  case Nil
  then show ?case by (simp add: dval_def)
next
  case (Cons d ds)
  then show ?case by simp
qed

lemma dec_fix_id: "digit_count (coefficient d) \<le> decimal_precision \<Longrightarrow> dec_fix d = d"
  by (simp add: dec_fix_def)

lemma dval_mul_fits:
  assumes "digit_count (coefficient a * coefficient b) \<le> decimal_precision"
  shows "dval (dec_mul a b) = dval a * dval b"
proof -
  have "(10::rat) powi (exponent a + exponent b) = 10 powi exponent a * 10 powi exponent b"
    by (simp add: power_int_add)
  then show ?thesis
    using assms by (simp add: dec_mul_def dec_fix_id dval_def)
qed

lemma dval_add_fits:
  assumes "digit_count (coefficient (dec_add_exact a b)) \<le> decimal_precision"
  shows "dval (dec_add a b) = dval a + dval b"
proof -
  obtain x y m where al: "dec_align a b = (x, y, m)" by (cases "dec_align a b")
  then have "dec_add a b = dec_add_exact a b"
    using assms by (simp add: dec_add_def dec_add_exact_def dec_fix_id)
  then show ?thesis by simp
qed

lemma div_half_even_bounds:
  assumes "0 < d"
  shows "2 * \<bar>c - div_half_even c d * d\<bar> \<le> d"
proof -
  have m: "c = d * (c div d) + c mod d" by simp
  have r: "0 \<le> c mod d" "c mod d < d" using assms by simp_all
  have "c - (c div d) * d = c mod d" using m by (simp add: algebra_simps)
  moreover have "c - (c div d + 1) * d = c mod d - d" using m by (simp add: algebra_simps)
  ultimately show ?thesis using r by (auto simp: div_half_even_def Let_def)
qed

lemma div_half_even_mono:
  assumes d: "0 < d" and le: "c \<le> c'"
  shows "div_half_even c d \<le> div_half_even c' d"
proof -
  let ?q = "c div d" and ?q' = "c' div d"
  have q: "?q \<le> ?q'" using zdiv_mono1 [OF le d] .
  have m: "c = d * ?q + c mod d" "c' = d * ?q' + c' mod d" by simp_all
  have lo: "div_half_even x d \<le> x div d + 1" "x div d \<le> div_half_even x d" for x
    by (auto simp: div_half_even_def Let_def)
  show ?thesis
  proof (cases "?q = ?q'")
    case True
    have "c mod d = c - ?q * d" by (rule minus_div_mult_eq_mod [symmetric])
    moreover have "c' mod d = c' - ?q * d"
      unfolding True by (rule minus_div_mult_eq_mod [symmetric])
    ultimately have "c mod d \<le> c' mod d" using le by linarith
    then show ?thesis using True by (auto simp: div_half_even_def Let_def)
  next
    case False
    then have "?q + 1 \<le> ?q'" using q by simp
    then show ?thesis using lo(1) [of c] lo(2) [of c'] by linarith
  qed
qed

lemma dec_to_int_integral: "0 \<le> exponent (dec_to_integral d)"
  by (simp add: dec_to_integral_def)

end
