(* ===== verification/Contracts.thy ===== *)
theory Contracts
  imports PyDecimal
begin

text \<open>
  The shared contracts: \<open>shared/contracts/enums.py\<close> (each enumeration with the value of each
  member), \<open>dto.py\<close> (the request and response models), \<open>events.py\<close> (the event payloads) and
  \<open>persistence.py\<close> (one record per table).  A UUID is its canonical text.  A moment is a
  number of microseconds since the epoch.  Where two enumerations share a member name the
  constructor carries a prefix.
\<close>

type_synonym uuid = string
type_synonym moment = int

section \<open>Dynamic values\<close>

text \<open>What \<open>dict[str, Any]\<close> and a JSON column can hold.\<close>

datatype pykey = KStr string | KInt int

datatype pyval =
    PNone
  | PBool bool
  | PInt int
  | PFloat rat
  | PDecimal decimal
  | PStr string
  | PDatetime string
  | POther string
  | PList "pyval list"
  | PTuple "pyval list"
  | PDict "(pykey \<times> pyval) list"

text \<open>\<open>d.get(k)\<close> on a dict with text keys.\<close>

definition dict_get :: "pyval \<Rightarrow> string \<Rightarrow> pyval option" where
  "dict_get v k = (case v of PDict kvs \<Rightarrow> map_of kvs (KStr k) | _ \<Rightarrow> None)"

definition opt_str :: "string option \<Rightarrow> pyval" where
  "opt_str x = (case x of None \<Rightarrow> PNone | Some s \<Rightarrow> PStr s)"

section \<open>Enumerations\<close>

datatype payment_method = PIX | BOLETO | TED | CARD

datatype payment_status =
  RECEIVED | VALIDATED | IN_REVIEW | PROCESSING | CONFIRMED | FAILED | BLOCKED

datatype outbox_status = OB_PENDING | OB_SENT | OB_FAILED

datatype event_type =
  PAYMENT_REQUESTED | PAYMENT_CONFIRMED | PAYMENT_FAILED | PAYMENT_REVIEW_REQUIRED

datatype rate_limit_dimension = MERCHANT | CUSTOMER | ACCOUNT | UNKNOWN_DIMENSION

datatype kyc_level = KYC_NONE | KYC_BASIC | KYC_FULL

datatype customer_status = ACTIVE | SUSPENDED

datatype risk_decision = RISK_ALLOW | RISK_REVIEW | RISK_BLOCK

datatype aml_decision = AML_ALLOW | AML_REVIEW | AML_BLOCK

datatype review_reason = RISK_OR_AML_REVIEW

datatype payment_failure_reason =
  MANUAL_REVIEW_REJECTED | PROVIDER_PARTIAL_FAILURE | UNEXPECTED

datatype provider_name = PROVIDER_UNKNOWN

datatype error_category =
    VALIDATION_ERROR | PROVIDER_TIMEOUT | PROVIDER_5XX | CONCURRENCY_CONFLICT
  | IDEMPOTENCY_CONFLICT | KYC_DENIED | LIMIT_EXCEEDED | RATE_LIMITED | AML_BLOCKED | RISK_BLOCKED

primrec method_value :: "payment_method \<Rightarrow> string" where
  "method_value PIX = ''PIX''"
| "method_value BOLETO = ''BOLETO''"
| "method_value TED = ''TED''"
| "method_value CARD = ''CARD''"

primrec payment_status_value :: "payment_status \<Rightarrow> string" where
  "payment_status_value RECEIVED = ''RECEIVED''"
| "payment_status_value VALIDATED = ''VALIDATED''"
| "payment_status_value IN_REVIEW = ''IN_REVIEW''"
| "payment_status_value PROCESSING = ''PROCESSING''"
| "payment_status_value CONFIRMED = ''CONFIRMED''"
| "payment_status_value FAILED = ''FAILED''"
| "payment_status_value BLOCKED = ''BLOCKED''"

primrec outbox_status_value :: "outbox_status \<Rightarrow> string" where
  "outbox_status_value OB_PENDING = ''PENDING''"
| "outbox_status_value OB_SENT = ''SENT''"
| "outbox_status_value OB_FAILED = ''FAILED''"

primrec event_type_value :: "event_type \<Rightarrow> string" where
  "event_type_value PAYMENT_REQUESTED = ''PaymentRequested''"
| "event_type_value PAYMENT_CONFIRMED = ''PaymentConfirmed''"
| "event_type_value PAYMENT_FAILED = ''PaymentFailed''"
| "event_type_value PAYMENT_REVIEW_REQUIRED = ''PaymentReviewRequired''"

primrec dimension_value :: "rate_limit_dimension \<Rightarrow> string" where
  "dimension_value MERCHANT = ''merchant''"
| "dimension_value CUSTOMER = ''customer''"
| "dimension_value ACCOUNT = ''account''"
| "dimension_value UNKNOWN_DIMENSION = ''unknown''"

primrec kyc_level_value :: "kyc_level \<Rightarrow> string" where
  "kyc_level_value KYC_NONE = ''NONE''"
| "kyc_level_value KYC_BASIC = ''BASIC''"
| "kyc_level_value KYC_FULL = ''FULL''"

primrec risk_value :: "risk_decision \<Rightarrow> string" where
  "risk_value RISK_ALLOW = ''ALLOW''"
| "risk_value RISK_REVIEW = ''REVIEW''"
| "risk_value RISK_BLOCK = ''BLOCK''"

primrec aml_value :: "aml_decision \<Rightarrow> string" where
  "aml_value AML_ALLOW = ''ALLOW''"
| "aml_value AML_REVIEW = ''REVIEW''"
| "aml_value AML_BLOCK = ''BLOCK''"

primrec review_reason_value :: "review_reason \<Rightarrow> string" where
  "review_reason_value RISK_OR_AML_REVIEW = ''risk_or_aml_review''"

primrec failure_reason_value :: "payment_failure_reason \<Rightarrow> string" where
  "failure_reason_value MANUAL_REVIEW_REJECTED = ''manual_review_rejected''"
| "failure_reason_value PROVIDER_PARTIAL_FAILURE = ''provider_partial_failure''"
| "failure_reason_value UNEXPECTED = ''unexpected''"

primrec provider_name_value :: "provider_name \<Rightarrow> string" where
  "provider_name_value PROVIDER_UNKNOWN = ''unknown''"

primrec error_category_value :: "error_category \<Rightarrow> string" where
  "error_category_value VALIDATION_ERROR = ''validation_error''"
| "error_category_value PROVIDER_TIMEOUT = ''provider_timeout''"
| "error_category_value PROVIDER_5XX = ''provider_5xx''"
| "error_category_value CONCURRENCY_CONFLICT = ''concurrency_conflict''"
| "error_category_value IDEMPOTENCY_CONFLICT = ''idempotency_conflict''"
| "error_category_value KYC_DENIED = ''kyc_denied''"
| "error_category_value LIMIT_EXCEEDED = ''limit_exceeded''"
| "error_category_value RATE_LIMITED = ''rate_limited''"
| "error_category_value AML_BLOCKED = ''aml_blocked''"
| "error_category_value RISK_BLOCKED = ''risk_blocked''"

text \<open>\<open>Enum(value)\<close>: the member with that value, or a \<open>ValueError\<close> (\<open>None\<close>).\<close>

definition member_of :: "('a \<Rightarrow> string) \<Rightarrow> 'a list \<Rightarrow> string \<Rightarrow> 'a option" where
  "member_of val members s = find (\<lambda>m. val m = s) members"

definition status_of_value :: "string \<Rightarrow> payment_status option" where
  "status_of_value = member_of payment_status_value
     [RECEIVED, VALIDATED, IN_REVIEW, PROCESSING, CONFIRMED, FAILED, BLOCKED]"

definition risk_of_value :: "string \<Rightarrow> risk_decision option" where
  "risk_of_value = member_of risk_value [RISK_ALLOW, RISK_REVIEW, RISK_BLOCK]"

definition aml_of_value :: "string \<Rightarrow> aml_decision option" where
  "aml_of_value = member_of aml_value [AML_ALLOW, AML_REVIEW, AML_BLOCK]"

definition method_of_value :: "string \<Rightarrow> payment_method option" where
  "method_of_value = member_of method_value [PIX, BOLETO, TED, CARD]"

lemma status_of_value [simp]: "status_of_value (payment_status_value s) = Some s"
  by (cases s) (simp_all add: status_of_value_def member_of_def)

lemma risk_of_value [simp]: "risk_of_value (risk_value r) = Some r"
  by (cases r) (simp_all add: risk_of_value_def member_of_def)

lemma aml_of_value [simp]: "aml_of_value (aml_value a) = Some a"
  by (cases a) (simp_all add: aml_of_value_def member_of_def)

lemma method_of_value [simp]: "method_of_value (method_value m) = Some m"
  by (cases m) (simp_all add: method_of_value_def member_of_def)

lemma method_value_inj: "method_value m = method_value n \<Longrightarrow> m = n"
  by (metis method_of_value option.inject)

lemma dimension_value_inj: "dimension_value d = dimension_value e \<Longrightarrow> d = e"
  by (cases d; cases e) simp_all

section \<open>Request and response models\<close>

record create_payment_request =
  rq_amount :: decimal
  rq_currency :: string
  rq_method :: payment_method
  rq_destination :: "string option"
  rq_metadata :: "pyval option"

record payment_accepted_response =
  ac_payment_id :: uuid
  ac_status :: payment_status
  ac_trace_id :: string
  ac_risk_decision :: "risk_decision option"
  ac_aml_decision :: "aml_decision option"

record payment_status_response =
  sr_payment_id :: uuid
  sr_merchant_id :: string
  sr_customer_id :: string
  sr_account_id :: string
  sr_amount :: decimal
  sr_currency :: string
  sr_method :: payment_method
  sr_status :: payment_status
  sr_idempotency_key :: string
  sr_risk_score :: "int option"
  sr_risk_decision :: "risk_decision option"
  sr_aml_decision :: "aml_decision option"
  sr_created_at :: moment
  sr_updated_at :: moment
  sr_last_error :: "string option"

record limits_policy_dto =
  lp_rail :: payment_method
  lp_min_amount :: decimal
  lp_max_amount :: decimal
  lp_daily_limit_amount :: decimal
  lp_velocity_limit_count :: int
  lp_velocity_window_seconds :: int

record provider_request =
  pr_payment_id :: uuid
  pr_merchant_id :: string
  pr_amount :: decimal
  pr_currency :: string
  pr_method :: payment_method

record provider_response =
  rs_provider_reference :: string
  rs_confirmed :: bool
  rs_provider :: string
  rs_duplicate :: bool
  rs_partial_failure :: bool

text \<open>\<open>PaymentAcceptedResponse.model_dump(mode="json")\<close> and \<open>model_validate\<close>, field by field.\<close>

definition dump_accepted :: "payment_accepted_response \<Rightarrow> pyval" where
  "dump_accepted r = PDict
     [(KStr ''payment_id'', PStr (ac_payment_id r)),
      (KStr ''status'', PStr (payment_status_value (ac_status r))),
      (KStr ''trace_id'', PStr (ac_trace_id r)),
      (KStr ''risk_decision'', opt_str (map_option risk_value (ac_risk_decision r))),
      (KStr ''aml_decision'', opt_str (map_option aml_value (ac_aml_decision r)))]"

definition read_str :: "pyval \<Rightarrow> string \<Rightarrow> string option" where
  "read_str v k = (case dict_get v k of Some (PStr s) \<Rightarrow> Some s | _ \<Rightarrow> None)"

text \<open>An optional field: absent or null is \<open>Some None\<close>, a value that does not parse is \<open>None\<close>.\<close>

definition read_opt :: "(string \<Rightarrow> 'a option) \<Rightarrow> pyval \<Rightarrow> string \<Rightarrow> 'a option option" where
  "read_opt parse v k = (case dict_get v k of
       None \<Rightarrow> Some None
     | Some PNone \<Rightarrow> Some None
     | Some (PStr s) \<Rightarrow> map_option Some (parse s)
     | Some _ \<Rightarrow> None)"

definition validate_accepted :: "pyval \<Rightarrow> payment_accepted_response option" where
  "validate_accepted v =
     (case (read_str v ''payment_id'', Option.bind (read_str v ''status'') status_of_value,
            read_str v ''trace_id'', read_opt risk_of_value v ''risk_decision'',
            read_opt aml_of_value v ''aml_decision'') of
        (Some i, Some st, Some tr, Some rd, Some ad) \<Rightarrow>
          Some \<lparr>ac_payment_id = i, ac_status = st, ac_trace_id = tr,
                ac_risk_decision = rd, ac_aml_decision = ad\<rparr>
      | _ \<Rightarrow> None)"

lemma validate_dump_accepted [simp]: "validate_accepted (dump_accepted r) = Some r"
  by (cases r)
     (auto simp: validate_accepted_def dump_accepted_def read_str_def read_opt_def dict_get_def
        opt_str_def split: option.splits)

section \<open>Event payloads\<close>

definition payment_requested_payload :: "uuid \<Rightarrow> string \<Rightarrow> string \<Rightarrow> string option \<Rightarrow> pyval" where
  "payment_requested_payload pid merchant trace traceparent = PDict
     [(KStr ''payment_id'', PStr pid), (KStr ''merchant_id'', PStr merchant),
      (KStr ''trace_id'', PStr trace), (KStr ''traceparent'', opt_str traceparent)]"

definition payment_review_required_payload :: "uuid \<Rightarrow> string \<Rightarrow> string \<Rightarrow> pyval" where
  "payment_review_required_payload pid merchant reason = PDict
     [(KStr ''payment_id'', PStr pid), (KStr ''merchant_id'', PStr merchant),
      (KStr ''reason'', PStr reason)]"

definition payment_confirmed_payload :: "uuid \<Rightarrow> string \<Rightarrow> string \<Rightarrow> string \<Rightarrow> pyval" where
  "payment_confirmed_payload pid merchant provider reference = PDict
     [(KStr ''payment_id'', PStr pid), (KStr ''merchant_id'', PStr merchant),
      (KStr ''provider'', PStr provider), (KStr ''provider_reference'', PStr reference)]"

definition payment_failed_payload :: "uuid \<Rightarrow> string \<Rightarrow> string \<Rightarrow> string \<Rightarrow> string \<Rightarrow> pyval" where
  "payment_failed_payload pid merchant provider category reason = PDict
     [(KStr ''payment_id'', PStr pid), (KStr ''merchant_id'', PStr merchant),
      (KStr ''provider'', PStr provider), (KStr ''error_category'', PStr category),
      (KStr ''reason'', PStr reason)]"

section \<open>Tables\<close>

record customer_row =
  cu_customer_id :: string
  cu_kyc_level :: kyc_level
  cu_status :: customer_status
  cu_created_at :: "moment option"

record limits_policy_row =
  lr_rail :: payment_method
  lr_min_amount :: decimal
  lr_max_amount :: decimal
  lr_daily_limit_amount :: decimal
  lr_velocity_limit_count :: int
  lr_velocity_window_seconds :: int

record payment_row =
  p_payment_id :: uuid
  p_merchant_id :: string
  p_customer_id :: string
  p_account_id :: string
  p_amount :: decimal
  p_currency :: string
  p_method :: payment_method
  p_destination :: "string option"
  p_status :: payment_status
  p_idempotency_key :: string
  p_risk_score :: "int option"
  p_risk_decision :: "risk_decision option"
  p_aml_decision :: "aml_decision option"
  p_metadata :: "pyval option"
  p_last_error :: "string option"
  p_created_at :: moment
  p_updated_at :: moment
  p_version :: int

record outbox_row =
  ob_event_id :: uuid
  ob_aggregate_id :: uuid
  ob_event_type :: event_type
  ob_payload :: pyval
  ob_status :: outbox_status
  ob_created_at :: moment
  ob_attempts :: int
  ob_next_attempt_at :: moment

record idempotency_row =
  ir_merchant_id :: string
  ir_idempotency_key :: string
  ir_payment_id :: uuid
  ir_status_code :: int
  ir_response_payload :: pyval
  ir_created_at :: moment

end
