(* ===== verification/Errors.thy ===== *)
theory Errors
  imports Contracts
begin

text \<open>
  The exceptions of the three services as one datatype: the \<open>AppError\<close> classes of
  \<open>payments_api/core/errors.py\<close>, the \<open>ProcessorError\<close> classes of
  \<open>payments_processor/core/errors.py\<close>, \<open>CircuitBreakerOpenError\<close>, and the built-in and
  library exceptions the source raises or handles.  Inheritance is a predicate: an
  \<open>except C\<close> clause asks whether the exception is an instance of \<open>C\<close>.
\<close>

datatype exn =
    ValidationAppError string
  | IdempotencyConflictError string
  | ConcurrencyConflictError string
  | KycDeniedError string
  | LimitExceededError string
  | RateLimitedError string rate_limit_dimension
  | ProviderTimeoutError string
  | Provider5xxError string
  | CircuitBreakerOpenError string
  | ValueError string
  | PydanticValidationError string
  | TypeError string
  | KeyError string
  | TimeoutError string
  | RuntimeError string
  | RedisError string
  | IntegrityError
  | DatabaseError string
  | MultipleResultsFound
  | HttpxTimeoutException string
  | HttpxError string
  | PublishError string
  | WouldBlock
  | HTTPException int string "(string \<times> string) list"

text \<open>An \<open>AppError\<close> carries a category, a message and the HTTP status of its response.\<close>

primrec as_app_error :: "exn \<Rightarrow> (error_category \<times> string \<times> int) option" where
  "as_app_error (ValidationAppError m) = Some (VALIDATION_ERROR, m, 422)"
| "as_app_error (IdempotencyConflictError m) = Some (IDEMPOTENCY_CONFLICT, m, 409)"
| "as_app_error (ConcurrencyConflictError m) = Some (CONCURRENCY_CONFLICT, m, 409)"
| "as_app_error (KycDeniedError m) = Some (KYC_DENIED, m, 403)"
| "as_app_error (LimitExceededError m) = Some (LIMIT_EXCEEDED, m, 422)"
| "as_app_error (RateLimitedError m d) = Some (RATE_LIMITED, m, 429)"
| "as_app_error (ProviderTimeoutError m) = None"
| "as_app_error (Provider5xxError m) = None"
| "as_app_error (CircuitBreakerOpenError m) = None"
| "as_app_error (ValueError m) = None"
| "as_app_error (PydanticValidationError m) = None"
| "as_app_error (TypeError m) = None"
| "as_app_error (KeyError m) = None"
| "as_app_error (TimeoutError m) = None"
| "as_app_error (RuntimeError m) = None"
| "as_app_error (RedisError m) = None"
| "as_app_error IntegrityError = None"
| "as_app_error (DatabaseError m) = None"
| "as_app_error MultipleResultsFound = None"
| "as_app_error (HttpxTimeoutException m) = None"
| "as_app_error (HttpxError m) = None"
| "as_app_error (PublishError m) = None"
| "as_app_error WouldBlock = None"

text \<open>A \<open>ProcessorError\<close> carries a category and a message.\<close>

definition as_processor_error :: "exn \<Rightarrow> (error_category \<times> string) option" where
  "as_processor_error x = (case x of
       ProviderTimeoutError m \<Rightarrow> Some (PROVIDER_TIMEOUT, m)
     | Provider5xxError m \<Rightarrow> Some (PROVIDER_5XX, m)
     | _ \<Rightarrow> None)"

definition default_idempotency_conflict :: exn where
  "default_idempotency_conflict = IdempotencyConflictError ''Idempotency key conflict''"

definition default_provider_timeout :: exn where
  "default_provider_timeout = ProviderTimeoutError ''Provider timeout''"

definition is_redis_error :: "exn \<Rightarrow> bool" where
  "is_redis_error x = (case x of RedisError _ \<Rightarrow> True | _ \<Rightarrow> False)"

definition is_limit_exceeded :: "exn \<Rightarrow> bool" where
  "is_limit_exceeded x = (case x of LimitExceededError _ \<Rightarrow> True | _ \<Rightarrow> False)"

text \<open>Pydantic's \<open>ValidationError\<close> is a \<open>ValueError\<close>.\<close>

definition is_validation_error :: "exn \<Rightarrow> bool" where
  "is_validation_error x = (case x of PydanticValidationError _ \<Rightarrow> True | _ \<Rightarrow> False)"

definition is_value_error :: "exn \<Rightarrow> bool" where
  "is_value_error x = (case x of ValueError _ \<Rightarrow> True | PydanticValidationError _ \<Rightarrow> True | _ \<Rightarrow> False)"

text \<open>\<open>CircuitBreakerOpenError\<close> is a \<open>RuntimeError\<close>.\<close>

definition is_runtime_error :: "exn \<Rightarrow> bool" where
  "is_runtime_error x = (case x of RuntimeError _ \<Rightarrow> True | CircuitBreakerOpenError _ \<Rightarrow> True | _ \<Rightarrow> False)"

lemmas exn_class_defs =
  is_redis_error_def is_limit_exceeded_def is_validation_error_def is_value_error_def
  is_runtime_error_def as_processor_error_def

lemma exn_class_simps [simp]:
  "is_redis_error (RedisError m)" "\<not> is_redis_error (LimitExceededError m)"
  "\<not> is_redis_error (ValueError m)" "is_limit_exceeded (LimitExceededError m)"
  "\<not> is_limit_exceeded (RedisError m)" "\<not> is_limit_exceeded (ValueError m)"
  "is_value_error (ValueError m)" "is_value_error (PydanticValidationError m)"
  "\<not> is_value_error (RedisError m)" "is_validation_error (PydanticValidationError m)"
  "\<not> is_validation_error (RedisError m)"
  by (simp_all add: exn_class_defs)

end
