(* ===== verification/PaymentRails.thy ===== *)
theory PaymentRails
  imports Contracts
begin

text \<open>
  \<open>shared/constants\<close>: the profile of each rail with its lookups (\<open>payment_rails.py\<close>), the
  names of the Redis keys (\<open>redis_keys.py\<close>) and \<open>idempotency_scoped_key\<close> of
  \<open>shared/utils/ids.py\<close>.  The lemmas say when two keys are the same: the daily, velocity, rate
  and AML keys determine what they were made from; the idempotency key does not.
\<close>

section \<open>Rail profiles\<close>

record rail_profile =
  rp_method :: payment_method
  rp_provider_slug :: string
  rp_provider_name :: string
  rp_minimum_kyc_level :: kyc_level

primrec kyc_level_rank :: "kyc_level \<Rightarrow> nat" where
  "kyc_level_rank KYC_NONE = 0"
| "kyc_level_rank KYC_BASIC = 1"
| "kyc_level_rank KYC_FULL = 2"

definition rail_profiles :: "(payment_method \<times> rail_profile) list" where
  "rail_profiles =
     [(PIX, \<lparr>rp_method = PIX, rp_provider_slug = ''pix'', rp_provider_name = ''pix-provider'',
             rp_minimum_kyc_level = KYC_BASIC\<rparr>),
      (BOLETO, \<lparr>rp_method = BOLETO, rp_provider_slug = ''boleto'',
             rp_provider_name = ''boleto-provider'', rp_minimum_kyc_level = KYC_BASIC\<rparr>),
      (TED, \<lparr>rp_method = TED, rp_provider_slug = ''ted'', rp_provider_name = ''ted-provider'',
             rp_minimum_kyc_level = KYC_FULL\<rparr>),
      (CARD, \<lparr>rp_method = CARD, rp_provider_slug = ''card'', rp_provider_name = ''card-provider'',
             rp_minimum_kyc_level = KYC_BASIC\<rparr>)]"

text \<open>\<open>None\<close> is the \<open>KeyError\<close> of a missing key.\<close>

definition get_rail_profile :: "payment_method \<Rightarrow> rail_profile option" where
  "get_rail_profile m = map_of rail_profiles m"

definition provider_slug_for_method :: "payment_method \<Rightarrow> string option" where
  "provider_slug_for_method m = map_option rp_provider_slug (get_rail_profile m)"

definition provider_name_for_method :: "payment_method \<Rightarrow> string option" where
  "provider_name_for_method m = map_option rp_provider_name (get_rail_profile m)"

definition provider_confirm_path_for_method :: "payment_method \<Rightarrow> string option" where
  "provider_confirm_path_for_method m =
     map_option (\<lambda>slug. ''/providers/'' @ slug @ ''/confirm'') (provider_slug_for_method m)"

definition minimum_kyc_level_for_method :: "payment_method \<Rightarrow> kyc_level option" where
  "minimum_kyc_level_for_method m = map_option rp_minimum_kyc_level (get_rail_profile m)"

definition supported_provider_names :: "string list" where
  "supported_provider_names = map (rp_provider_name \<circ> snd) rail_profiles"

text \<open>The ranks order the KYC levels; the library's order automation applies to them.\<close>

instantiation kyc_level :: linorder
begin

definition less_eq_kyc_level :: "kyc_level \<Rightarrow> kyc_level \<Rightarrow> bool" where
  "less_eq_kyc_level a b \<longleftrightarrow> kyc_level_rank a \<le> kyc_level_rank b"

definition less_kyc_level :: "kyc_level \<Rightarrow> kyc_level \<Rightarrow> bool" where
  "less_kyc_level a b \<longleftrightarrow> kyc_level_rank a < kyc_level_rank b"

instance
proof
  fix a b c :: kyc_level
  show "(a < b) = (a \<le> b \<and> \<not> b \<le> a)"
    by (auto simp: less_eq_kyc_level_def less_kyc_level_def)
  show "a \<le> a" by (simp add: less_eq_kyc_level_def)
  show "a \<le> b \<Longrightarrow> b \<le> c \<Longrightarrow> a \<le> c" by (simp add: less_eq_kyc_level_def)
  show "a \<le> b \<Longrightarrow> b \<le> a \<Longrightarrow> a = b"
    by (cases a; cases b) (simp_all add: less_eq_kyc_level_def)
  show "a \<le> b \<or> b \<le> a" by (auto simp: less_eq_kyc_level_def)
qed

end

lemma get_rail_profile_total: "\<exists>p. get_rail_profile m = Some p"
  by (cases m) (simp_all add: get_rail_profile_def rail_profiles_def)

lemma rail_facts [simp]:
  "provider_name_for_method PIX = Some ''pix-provider''"
  "provider_name_for_method BOLETO = Some ''boleto-provider''"
  "provider_name_for_method TED = Some ''ted-provider''"
  "provider_name_for_method CARD = Some ''card-provider''"
  "provider_slug_for_method PIX = Some ''pix''"
  "provider_slug_for_method BOLETO = Some ''boleto''"
  "provider_slug_for_method TED = Some ''ted''"
  "provider_slug_for_method CARD = Some ''card''"
  "minimum_kyc_level_for_method PIX = Some KYC_BASIC"
  "minimum_kyc_level_for_method BOLETO = Some KYC_BASIC"
  "minimum_kyc_level_for_method TED = Some KYC_FULL"
  "minimum_kyc_level_for_method CARD = Some KYC_BASIC"
  by (simp_all add: provider_name_for_method_def provider_slug_for_method_def
      minimum_kyc_level_for_method_def get_rail_profile_def rail_profiles_def)

lemma provider_name_slug:
  "provider_slug_for_method m = Some slug \<Longrightarrow> provider_name_for_method m = Some (slug @ ''-provider'')"
  by (cases m) auto

lemma provider_name_supported:
  "provider_name_for_method m = Some n \<Longrightarrow> n \<in> set supported_provider_names"
  by (cases m) (auto simp: supported_provider_names_def rail_profiles_def)

section \<open>Redis keys\<close>

definition AML_HISTORY_MAX_ITEMS :: int where
  "AML_HISTORY_MAX_ITEMS = 500"

definition limits_policy_key :: "payment_method \<Rightarrow> string" where
  "limits_policy_key rail = ''limits:policy:'' @ method_value rail"

definition limits_daily_key :: "string \<Rightarrow> string \<Rightarrow> payment_method \<Rightarrow> string" where
  "limits_daily_key date_key customer_id rail =
     ''limits:daily:'' @ date_key @ '':'' @ customer_id @ '':'' @ method_value rail"

definition limits_velocity_key :: "string \<Rightarrow> payment_method \<Rightarrow> string" where
  "limits_velocity_key customer_id rail = ''limits:velocity:'' @ customer_id @ '':'' @ method_value rail"

definition rate_limit_key :: "rate_limit_dimension \<Rightarrow> string \<Rightarrow> int \<Rightarrow> string" where
  "rate_limit_key dimension value bucket =
     ''rate:'' @ dimension_value dimension @ '':'' @ value @ '':'' @ show_int bucket"

definition aml_history_key :: "string \<Rightarrow> string" where
  "aml_history_key customer_id = ''aml:history:'' @ customer_id"

definition idempotency_scoped_key :: "string \<Rightarrow> string \<Rightarrow> string" where
  "idempotency_scoped_key merchant_id idempotency_key = merchant_id @ '':'' @ idempotency_key"

text \<open>A separator that does not occur in the first (or the last) component fixes the cut.\<close>

lemma cut_first:
  fixes c :: char
  assumes "c \<notin> set a" and "c \<notin> set a'" and "a @ c # r = a' @ c # r'"
  shows "a = a' \<and> r = r'"
proof -
  have "py_split_at c (a @ c # r) = (a, Some r)" using assms(1) by (rule py_split_at_hit)
  moreover have "py_split_at c (a @ c # r) = (a', Some r')"
    using py_split_at_hit [OF assms(2)] assms(3) by simp
  ultimately show ?thesis by simp
qed

lemma cut_last:
  fixes c :: char
  assumes "c \<notin> set r" and "c \<notin> set r'" and "a @ c # r = a' @ c # r'"
  shows "a = a' \<and> r = r'"
proof -
  have "rev r @ c # rev a = rev r' @ c # rev a'"
    using arg_cong [OF assms(3), of rev] by simp
  from cut_first [OF _ _ this] assms(1,2) have "rev r = rev r' \<and> rev a = rev a'" by simp
  then show ?thesis by simp
qed

lemma method_value_no_colon [simp]: "CHR '':'' \<notin> set (method_value m)"
  by (cases m) simp_all

lemma dimension_value_no_colon [simp]: "CHR '':'' \<notin> set (dimension_value d)"
  by (cases d) simp_all

lemma show_int_no_colon [simp]: "CHR '':'' \<notin> set (show_int i)"
proof
  assume "CHR '':'' \<in> set (show_int i)"
  then have "CHR '':'' \<in> set (show_nat (nat \<bar>i\<bar>))" by (auto simp: show_int_def split: if_splits)
  then show False using show_nat_digits_code by (fastforce simp: code_of_def)
qed

lemma limits_daily_key_inj:
  assumes "CHR '':'' \<notin> set d" and "CHR '':'' \<notin> set d'"
    and "limits_daily_key d c r = limits_daily_key d' c' r'"
  shows "d = d' \<and> c = c' \<and> r = r'"
proof -
  have "d @ CHR '':'' # (c @ CHR '':'' # method_value r)
      = d' @ CHR '':'' # (c' @ CHR '':'' # method_value r')"
    using assms(3) by (simp add: limits_daily_key_def)
  from cut_first [OF assms(1,2) this] have d: "d = d'"
    and r: "c @ CHR '':'' # method_value r = c' @ CHR '':'' # method_value r'" by auto
  from cut_last [OF method_value_no_colon method_value_no_colon r] d
  show ?thesis by (auto dest: method_value_inj)
qed

lemma limits_velocity_key_inj:
  assumes "limits_velocity_key c r = limits_velocity_key c' r'"
  shows "c = c' \<and> r = r'"
proof -
  have "c @ CHR '':'' # method_value r = c' @ CHR '':'' # method_value r'"
    using assms by (simp add: limits_velocity_key_def)
  from cut_last [OF method_value_no_colon method_value_no_colon this]
  show ?thesis by (auto dest: method_value_inj)
qed

lemma rate_limit_key_inj:
  assumes "rate_limit_key d v b = rate_limit_key d' v' b'"
  shows "d = d' \<and> v = v' \<and> b = b'"
proof -
  have "dimension_value d @ CHR '':'' # (v @ CHR '':'' # show_int b)
      = dimension_value d' @ CHR '':'' # (v' @ CHR '':'' # show_int b')"
    using assms by (simp add: rate_limit_key_def)
  from cut_first [OF dimension_value_no_colon dimension_value_no_colon this]
  have d: "dimension_value d = dimension_value d'"
    and r: "v @ CHR '':'' # show_int b = v' @ CHR '':'' # show_int b'" by auto
  from cut_last [OF show_int_no_colon show_int_no_colon r] d
  show ?thesis by (auto dest: dimension_value_inj show_int_inj)
qed

lemma aml_history_key_inj: "aml_history_key c = aml_history_key c' \<Longrightarrow> c = c'"
  by (simp add: aml_history_key_def)

lemma idempotency_scoped_key_inj:
  assumes "CHR '':'' \<notin> set m" and "CHR '':'' \<notin> set m'"
    and "idempotency_scoped_key m k = idempotency_scoped_key m' k'"
  shows "m = m' \<and> k = k'"
  using cut_first [OF assms(1,2)] assms(3) by (simp add: idempotency_scoped_key_def)

lemma idempotency_scoped_key_collision:
  "idempotency_scoped_key (m @ '':'' @ x) k = idempotency_scoped_key m (x @ '':'' @ k)"
  by (simp add: idempotency_scoped_key_def)

end
