(* ===== verification/Database.thy ===== *)
theory Database
  imports Errors PaymentRails
begin

text \<open>
  The tables of \<open>shared/contracts/persistence.py\<close> with their keys, and the statements of the
  repositories of both services as functions of the tables.  A statement here is the
  \<open>select\<close> or \<open>update\<close> the repository builds; \<open>World\<close> runs it in a session.
\<close>

record database =
  db_customers :: "customer_row list"
  db_limits :: "limits_policy_row list"
  db_payments :: "payment_row list"
  db_outbox :: "outbox_row list"
  db_idempotency :: "idempotency_row list"

section \<open>Keys\<close>

definition payment_scope :: "payment_row \<Rightarrow> string \<times> string" where
  "payment_scope p = (p_merchant_id p, p_idempotency_key p)"

definition idempotency_scope :: "idempotency_row \<Rightarrow> string \<times> string" where
  "idempotency_scope r = (ir_merchant_id r, ir_idempotency_key r)"

text \<open>
  Primary keys, the two unique constraints \<open>uq_payment_merchant_idempotency\<close> and
  \<open>uq_idempotency_scope\<close>, and the foreign key of \<open>payments\<close>.
\<close>

definition constraints_ok :: "database \<Rightarrow> bool" where
  "constraints_ok d \<longleftrightarrow>
     distinct (map cu_customer_id (db_customers d)) \<and>
     distinct (map lr_rail (db_limits d)) \<and>
     distinct (map p_payment_id (db_payments d)) \<and>
     distinct (map payment_scope (db_payments d)) \<and>
     distinct (map ob_event_id (db_outbox d)) \<and>
     distinct (map idempotency_scope (db_idempotency d)) \<and>
     (\<forall>p\<in>set (db_payments d). p_customer_id p \<in> set (map cu_customer_id (db_customers d)))"

section \<open>Statements of the API's repositories\<close>

definition customers_by_id :: "string \<Rightarrow> database \<Rightarrow> customer_row list" where
  "customers_by_id cid d = filter (\<lambda>c. cu_customer_id c = cid) (db_customers d)"

definition limits_by_rail :: "payment_method \<Rightarrow> database \<Rightarrow> limits_policy_row list" where
  "limits_by_rail rail d = filter (\<lambda>l. lr_rail l = rail) (db_limits d)"

definition snapshots_for :: "string \<Rightarrow> string \<Rightarrow> database \<Rightarrow> idempotency_row list" where
  "snapshots_for m k d =
     filter (\<lambda>r. ir_merchant_id r = m \<and> ir_idempotency_key r = k) (db_idempotency d)"

definition payments_by_id :: "uuid \<Rightarrow> database \<Rightarrow> payment_row list" where
  "payments_by_id pid d = filter (\<lambda>p. p_payment_id p = pid) (db_payments d)"

definition payments_by_scope :: "string \<Rightarrow> string \<Rightarrow> database \<Rightarrow> payment_row list" where
  "payments_by_scope m k d =
     filter (\<lambda>p. p_merchant_id p = m \<and> p_idempotency_key p = k) (db_payments d)"

definition outgoing_since ::
  "string \<Rightarrow> payment_method \<Rightarrow> moment \<Rightarrow> database \<Rightarrow> payment_row list" where
  "outgoing_since cid rail since d =
     filter (\<lambda>p. p_customer_id p = cid \<and> p_method p = rail \<and> since \<le> p_created_at p \<and>
                 p_status p \<noteq> BLOCKED) (db_payments d)"

definition sum_outgoing_stmt :: "string \<Rightarrow> payment_method \<Rightarrow> moment \<Rightarrow> database \<Rightarrow> decimal" where
  "sum_outgoing_stmt cid rail since d = dec_sum (map p_amount (outgoing_since cid rail since d))"

definition count_outgoing_stmt :: "string \<Rightarrow> payment_method \<Rightarrow> moment \<Rightarrow> database \<Rightarrow> int" where
  "count_outgoing_stmt cid rail since d = int (length (outgoing_since cid rail since d))"

definition count_failures_stmt :: "string \<Rightarrow> moment \<Rightarrow> database \<Rightarrow> int" where
  "count_failures_stmt cid since d =
     int (length (filter (\<lambda>p. p_customer_id p = cid \<and> p_status p = FAILED \<and>
                              since \<le> p_created_at p) (db_payments d)))"

definition destination_rows :: "string \<Rightarrow> string \<Rightarrow> database \<Rightarrow> payment_row list" where
  "destination_rows cid dest d =
     take 1 (filter (\<lambda>p. p_customer_id p = cid \<and> p_destination p = Some dest) (db_payments d))"

definition count_near_stmt ::
  "string \<Rightarrow> payment_method \<Rightarrow> moment \<Rightarrow> decimal \<Rightarrow> decimal \<Rightarrow> database \<Rightarrow> int" where
  "count_near_stmt cid rail since low high d =
     int (length (filter (\<lambda>p. dec_le low (p_amount p) \<and> dec_le (p_amount p) high)
        (outgoing_since cid rail since d)))"

definition count_in_review_stmt :: "database \<Rightarrow> int" where
  "count_in_review_stmt d = int (length (filter (\<lambda>p. p_status p = IN_REVIEW) (db_payments d)))"

section \<open>Statements of the processor's repositories\<close>

definition pending_of :: "(event_type \<Rightarrow> bool) \<Rightarrow> moment \<Rightarrow> database \<Rightarrow> outbox_row list" where
  "pending_of types now d =
     filter (\<lambda>e. types (ob_event_type e) \<and> ob_status e = OB_PENDING \<and> ob_next_attempt_at e \<le> now)
       (db_outbox d)"

definition is_fanout_type :: "event_type \<Rightarrow> bool" where
  "is_fanout_type t = (t \<in> {PAYMENT_CONFIRMED, PAYMENT_FAILED, PAYMENT_REVIEW_REQUIRED})"

definition pending_requested_stmt :: "moment \<Rightarrow> nat \<Rightarrow> database \<Rightarrow> outbox_row list" where
  "pending_requested_stmt now limit d =
     take limit (sort_key ob_created_at (pending_of (\<lambda>t. t = PAYMENT_REQUESTED) now d))"

definition pending_fanout_stmt :: "moment \<Rightarrow> nat \<Rightarrow> database \<Rightarrow> outbox_row list" where
  "pending_fanout_stmt now limit d =
     take limit (sort_key ob_created_at (pending_of is_fanout_type now d))"

definition backlog_stmt :: "database \<Rightarrow> int" where
  "backlog_stmt d = int (length (filter (\<lambda>e. ob_status e = OB_PENDING \<and>
      ob_event_type e = PAYMENT_REQUESTED) (db_outbox d)))"

definition oldest_pending_stmt :: "database \<Rightarrow> moment option" where
  "oldest_pending_stmt d =
     (case map ob_created_at (filter (\<lambda>e. ob_status e = OB_PENDING \<and>
             ob_event_type e = PAYMENT_REQUESTED) (db_outbox d)) of
        [] \<Rightarrow> None
      | t # ts \<Rightarrow> Some (fold min ts t))"

section \<open>Changes of rows\<close>

text \<open>\<open>UPDATE payments SET ... WHERE ...\<close> and the same on \<open>outbox_events\<close>.\<close>

definition update_payments ::
  "(payment_row \<Rightarrow> bool) \<Rightarrow> (payment_row \<Rightarrow> payment_row) \<Rightarrow> database \<Rightarrow> database" where
  "update_payments w f d =
     d\<lparr>db_payments := map (\<lambda>p. if w p then f p else p) (db_payments d)\<rparr>"

definition update_outbox ::
  "(outbox_row \<Rightarrow> bool) \<Rightarrow> (outbox_row \<Rightarrow> outbox_row) \<Rightarrow> database \<Rightarrow> database" where
  "update_outbox w f d = d\<lparr>db_outbox := map (\<lambda>e. if w e then f e else e) (db_outbox d)\<rparr>"

definition insert_payment :: "payment_row \<Rightarrow> database \<Rightarrow> database" where
  "insert_payment p d = d\<lparr>db_payments := db_payments d @ [p]\<rparr>"

definition insert_event :: "outbox_row \<Rightarrow> database \<Rightarrow> database" where
  "insert_event e d = d\<lparr>db_outbox := db_outbox d @ [e]\<rparr>"

definition insert_snapshot :: "idempotency_row \<Rightarrow> database \<Rightarrow> database" where
  "insert_snapshot r d = d\<lparr>db_idempotency := db_idempotency d @ [r]\<rparr>"

definition insert_customers :: "customer_row list \<Rightarrow> database \<Rightarrow> database" where
  "insert_customers cs d = d\<lparr>db_customers := db_customers d @ cs\<rparr>"

definition insert_limits :: "limits_policy_row list \<Rightarrow> database \<Rightarrow> database" where
  "insert_limits ls d = d\<lparr>db_limits := db_limits d @ ls\<rparr>"

lemmas write_defs =
  update_payments_def update_outbox_def insert_payment_def insert_event_def insert_snapshot_def
  insert_customers_def insert_limits_def

lemma insert_simps [simp]:
  "db_payments (insert_payment p d) = db_payments d @ [p]"
  "db_outbox (insert_payment p d) = db_outbox d"
  "db_idempotency (insert_payment p d) = db_idempotency d"
  "db_customers (insert_payment p d) = db_customers d"
  "db_limits (insert_payment p d) = db_limits d"
  "db_payments (insert_event e d) = db_payments d"
  "db_outbox (insert_event e d) = db_outbox d @ [e]"
  "db_idempotency (insert_event e d) = db_idempotency d"
  "db_customers (insert_event e d) = db_customers d"
  "db_limits (insert_event e d) = db_limits d"
  "db_payments (insert_snapshot r d) = db_payments d"
  "db_outbox (insert_snapshot r d) = db_outbox d"
  "db_idempotency (insert_snapshot r d) = db_idempotency d @ [r]"
  "db_customers (insert_snapshot r d) = db_customers d"
  "db_limits (insert_snapshot r d) = db_limits d"
  by (simp_all add: write_defs)

lemma update_simps [simp]:
  "db_payments (update_payments w f d) = map (\<lambda>p. if w p then f p else p) (db_payments d)"
  "db_outbox (update_payments w f d) = db_outbox d"
  "db_idempotency (update_payments w f d) = db_idempotency d"
  "db_customers (update_payments w f d) = db_customers d"
  "db_limits (update_payments w f d) = db_limits d"
  "db_payments (update_outbox u g d) = db_payments d"
  "db_outbox (update_outbox u g d) = map (\<lambda>e. if u e then g e else e) (db_outbox d)"
  "db_idempotency (update_outbox u g d) = db_idempotency d"
  "db_customers (update_outbox u g d) = db_customers d"
  "db_limits (update_outbox u g d) = db_limits d"
  by (simp_all add: write_defs)

text \<open>An update that keeps the keys keeps the constraints.\<close>

lemma constraints_update_payments:
  assumes "constraints_ok d"
    and "\<And>p. p_payment_id (f p) = p_payment_id p" and "\<And>p. payment_scope (f p) = payment_scope p"
    and "\<And>p. p_customer_id (f p) = p_customer_id p"
  shows "constraints_ok (update_payments w f d)"
  using assms map_update_where [of p_payment_id f w "db_payments d"]
    map_update_where [of payment_scope f w "db_payments d"]
  by (auto simp: constraints_ok_def simp del: map_map)

lemma constraints_update_outbox:
  assumes "constraints_ok d" and "\<And>e. ob_event_id (g e) = ob_event_id e"
  shows "constraints_ok (update_outbox w g d)"
  using assms map_update_where [of ob_event_id g w "db_outbox d"]
  by (auto simp: constraints_ok_def simp del: map_map)

lemma payments_by_scope_unique:
  assumes "constraints_ok d" and "p \<in> set (db_payments d)" and "q \<in> set (db_payments d)"
    and "payment_scope p = payment_scope q"
  shows "p = q"
  using assms by (auto simp: constraints_ok_def distinct_map dest: inj_onD)

lemma snapshot_unique:
  assumes "constraints_ok d" and "r \<in> set (db_idempotency d)" and "s \<in> set (db_idempotency d)"
    and "idempotency_scope r = idempotency_scope s"
  shows "r = s"
  using assms by (auto simp: constraints_ok_def distinct_map dest: inj_onD)

text \<open>A query on a unique key returns at most one row.\<close>

lemma filter_key_unique:
  "distinct (map f xs) \<Longrightarrow> x \<in> set xs \<Longrightarrow> filter (\<lambda>y. f y = f x) xs = [x]"
proof (induction xs)
  case (Cons y ys)
  show ?case
  proof (cases "y = x")
    case True
    then have "f x \<notin> f ` set ys" using Cons.prems(1) by simp
    then have "filter (\<lambda>y. f y = f x) ys = []" by (simp add: filter_empty_conv) (metis imageI)
    then show ?thesis using True by simp
  next
    case False
    then have x: "x \<in> set ys" using Cons.prems(2) by simp
    then have "f x \<in> f ` set ys" by (rule imageI)
    then have "f y \<noteq> f x" using Cons.prems(1) by auto
    then show ?thesis using Cons.IH [OF _ x] Cons.prems(1) by simp
  qed
qed simp

lemma filter_key_cases:
  assumes d: "distinct (map f xs)"
  obtains "filter (\<lambda>x. f x = k) xs = []" | x where "filter (\<lambda>x. f x = k) xs = [x]"
    and "x \<in> set xs" and "f x = k"
proof (cases "\<exists>x\<in>set xs. f x = k")
  case True
  then obtain x where x: "x \<in> set xs" "f x = k" by blast
  have "filter (\<lambda>x. f x = k) xs = [x]"
    using filter_key_unique [OF d x(1)] x(2) by simp
  then show thesis using that(2) x by blast
next
  case False
  then have "filter (\<lambda>x. f x = k) xs = []" by (auto simp: filter_empty_conv)
  then show thesis by (rule that(1))
qed

lemma payments_by_scope_alt:
  "payments_by_scope m k d = filter (\<lambda>p. payment_scope p = (m, k)) (db_payments d)"
  by (simp add: payments_by_scope_def payment_scope_def)

lemma snapshots_for_alt:
  "snapshots_for m k d = filter (\<lambda>r. idempotency_scope r = (m, k)) (db_idempotency d)"
  by (simp add: snapshots_for_def idempotency_scope_def)

end
