(* ===== verification/World.thy ===== *)
theory World
  imports Database
begin

text \<open>
  The state a request handler runs in, and everything it reaches outside the repository.

  \<open>'e outside\<close> collects the services and libraries the source calls, as functions on an
  abstract state \<open>'e\<close> that stands for the rest of the world: the clock, \<open>uuid4\<close>,
  \<open>random.random\<close>, the Redis commands (which may fail), the Pydantic JSON codec of the policy
  cache, the trace context, the column type of amounts, whether the ORM refreshes loaded objects
  after an \<open>UPDATE\<close> (SQLAlchemy's \<open>synchronize_session\<close>), the provider's HTTP endpoint and the event
  bus.  Nothing is assumed about them here; a lemma that needs a law states it.

  \<open>o_interfere\<close> is what other sessions have committed since this session last looked: it is
  applied before every statement and commit, so a run of a handler stands for that run
  interleaved in every way with other handlers.

  A session sees the committed tables with its own writes on top (\<open>db_view\<close>); \<open>db_commit\<close>
  checks the constraints and publishes the writes, all or none.
\<close>

datatype http_reply = HttpReply int "provider_response option"

text \<open>\<open>HttpReply code body\<close>: the status and the body, \<open>None\<close> when it does not validate.\<close>

record 'e outside =
  o_now :: "'e \<Rightarrow> moment \<times> 'e"
  o_db_now :: "'e \<Rightarrow> moment \<times> 'e"
  o_uuid4 :: "'e \<Rightarrow> uuid \<times> 'e"
  o_perf_counter :: "'e \<Rightarrow> moment \<times> 'e"
  o_random :: "'e \<Rightarrow> rat \<times> 'e"
  o_sleep :: "rat \<Rightarrow> 'e \<Rightarrow> 'e"
  o_trace_id :: "'e \<Rightarrow> string \<times> 'e"
  o_traceparent :: "'e \<Rightarrow> string option \<times> 'e"
  o_float_text :: "moment \<Rightarrow> string"
  o_numeric_18_2 :: "decimal \<Rightarrow> decimal option"
  o_orm_sync :: bool
  o_policy_to_json :: "limits_policy_dto \<Rightarrow> string"
  o_policy_of_json :: "string \<Rightarrow> limits_policy_dto option"
  o_interfere :: "database \<Rightarrow> 'e \<Rightarrow> database \<times> 'e"
  o_get :: "string \<Rightarrow> 'e \<Rightarrow> (string + string option) \<times> 'e"
  o_set :: "string \<Rightarrow> string \<Rightarrow> int \<Rightarrow> 'e \<Rightarrow> (string + unit) \<times> 'e"
  o_set_nx :: "string \<Rightarrow> string \<Rightarrow> int \<Rightarrow> 'e \<Rightarrow> (string + bool) \<times> 'e"
  o_incr :: "string \<Rightarrow> 'e \<Rightarrow> (string + int) \<times> 'e"
  o_expire :: "string \<Rightarrow> int \<Rightarrow> 'e \<Rightarrow> (string + unit) \<times> 'e"
  o_lpush :: "string \<Rightarrow> string \<Rightarrow> 'e \<Rightarrow> (string + unit) \<times> 'e"
  o_ltrim :: "string \<Rightarrow> int \<Rightarrow> int \<Rightarrow> 'e \<Rightarrow> (string + unit) \<times> 'e"
  o_lrange :: "string \<Rightarrow> int \<Rightarrow> int \<Rightarrow> 'e \<Rightarrow> (string + string list) \<times> 'e"
  o_zremrangebyscore :: "string \<Rightarrow> moment \<Rightarrow> moment \<Rightarrow> 'e \<Rightarrow> (string + unit) \<times> 'e"
  o_zcard :: "string \<Rightarrow> 'e \<Rightarrow> (string + int) \<times> 'e"
  o_zadd :: "string \<Rightarrow> string \<Rightarrow> moment \<Rightarrow> 'e \<Rightarrow> (string + unit) \<times> 'e"
  o_http_post :: "string \<Rightarrow> provider_request \<Rightarrow> 'e \<Rightarrow> (exn + http_reply) \<times> 'e"
  o_publish :: "outbox_row \<Rightarrow> 'e \<Rightarrow> (string + unit) \<times> 'e"

text \<open>What the handlers emit: counters, histograms and log lines, oldest first.\<close>

datatype telemetry =
    CounterAdd string "(string \<times> string) list"
  | HistogramRecord string int "(string \<times> string) list"
  | LogLine string "(string \<times> pyval) list"

record 'e world =
  w_out :: 'e
  w_db :: database
  w_pending :: "(database \<Rightarrow> database) list"
  w_telemetry :: "telemetry list"
  w_correlation :: "(string \<times> string) list"

type_synonym ('e, 'm, 'a) act = "(('e, 'm) world_scheme, exn, 'a) prog"

section \<open>Reaching outside\<close>

definition outside :: "('e \<Rightarrow> 'a \<times> 'e) \<Rightarrow> ('e, 'm, 'a) act" where
  "outside f = (\<lambda>w. case f (w_out w) of (x, e) \<Rightarrow> (Inr x, w\<lparr>w_out := e\<rparr>))"

definition redis :: "('e \<Rightarrow> (string + 'a) \<times> 'e) \<Rightarrow> ('e, 'm, 'a) act" where
  "redis f = (\<lambda>w. case f (w_out w) of
       (Inl msg, e) \<Rightarrow> (Inl (RedisError msg), w\<lparr>w_out := e\<rparr>)
     | (Inr x, e) \<Rightarrow> (Inr x, w\<lparr>w_out := e\<rparr>))"

definition emit :: "telemetry \<Rightarrow> ('e, 'm, unit) act" where
  "emit t = modify (\<lambda>w. w\<lparr>w_telemetry := w_telemetry w @ [t]\<rparr>)"

text \<open>\<open>except C as exc: h exc\<close>; anything else is re-raised.\<close>

definition catch_if :: "(exn \<Rightarrow> bool) \<Rightarrow> ('s, exn, 'a) prog \<Rightarrow> (exn \<Rightarrow> ('s, exn, 'a) prog) \<Rightarrow> ('s, exn, 'a) prog"
where
  "catch_if c m h = catch m (\<lambda>x. if c x then h x else raise x)"

text \<open>A missing key of a dict or an absent value the code indexes is a \<open>KeyError\<close>.\<close>

definition the_key :: "'a option \<Rightarrow> ('s, exn, 'a) prog" where
  "the_key x = (case x of None \<Rightarrow> raise (KeyError ''key'') | Some a \<Rightarrow> ret a)"

text \<open>A pure check run inside a handler.\<close>

definition from_result :: "exn + 'a \<Rightarrow> ('s, exn, 'a) prog" where
  "from_result r = (case r of Inl x \<Rightarrow> raise x | Inr a \<Rightarrow> ret a)"

section \<open>Sessions\<close>

definition db_view :: "('e, 'm) world_scheme \<Rightarrow> database" where
  "db_view w = fold (\<lambda>f d. f d) (w_pending w) (w_db w)"

definition interfere :: "'e outside \<Rightarrow> ('e, 'm, unit) act" where
  "interfere env = (\<lambda>w. case o_interfere env (w_db w) (w_out w) of
     (d, e) \<Rightarrow> (Inr (), w\<lparr>w_db := d, w_out := e\<rparr>))"

definition db_select :: "'e outside \<Rightarrow> (database \<Rightarrow> 'a) \<Rightarrow> ('e, 'm, 'a) act" where
  "db_select env q = bindM (interfere env) (\<lambda>_. gets (\<lambda>w. q (db_view w)))"

definition db_write :: "(database \<Rightarrow> database) \<Rightarrow> ('e, 'm, unit) act" where
  "db_write f = modify (\<lambda>w. w\<lparr>w_pending := w_pending w @ [f]\<rparr>)"

text \<open>An \<open>UPDATE\<close> is run when executed and reports how many rows it matched.\<close>

definition db_update_payments ::
  "'e outside \<Rightarrow> (payment_row \<Rightarrow> bool) \<Rightarrow> (payment_row \<Rightarrow> payment_row) \<Rightarrow> ('e, 'm, nat) act" where
  "db_update_payments env p f =
     bindM (db_select env (\<lambda>d. length (filter p (db_payments d)))) (\<lambda>n.
     bindM (db_write (update_payments p f)) (\<lambda>_.
     ret n))"

definition db_update_outbox ::
  "'e outside \<Rightarrow> (outbox_row \<Rightarrow> bool) \<Rightarrow> (outbox_row \<Rightarrow> outbox_row) \<Rightarrow> ('e, 'm, unit) act" where
  "db_update_outbox env p f = bindM (interfere env) (\<lambda>_. db_write (update_outbox p f))"

definition db_commit :: "'e outside \<Rightarrow> ('e, 'm, unit) act" where
  "db_commit env = bindM (interfere env) (\<lambda>_ w.
     if constraints_ok (db_view w) then (Inr (), w\<lparr>w_db := db_view w, w_pending := []\<rparr>)
     else (Inl IntegrityError, w))"

definition db_rollback :: "('e, 'm, unit) act" where
  "db_rollback = modify (\<lambda>w. w\<lparr>w_pending := []\<rparr>)"

text \<open>\<open>async with session_factory() as session\<close>: uncommitted writes are dropped on exit.\<close>

definition in_session :: "('e, 'm, 'a) act \<Rightarrow> ('e, 'm, 'a) act" where
  "in_session m = (\<lambda>w. case m (w\<lparr>w_pending := []\<rparr>) of (r, v) \<Rightarrow> (r, v\<lparr>w_pending := []\<rparr>))"

definition scalar_one_or_none :: "'a list \<Rightarrow> ('s, exn, 'a option) prog" where
  "scalar_one_or_none rows = (case rows of
       [] \<Rightarrow> ret None
     | [x] \<Rightarrow> ret (Some x)
     | _ \<Rightarrow> raise MultipleResultsFound)"

lemmas act_defs =
  outside_def redis_def emit_def catch_if_def the_key_def interfere_def db_select_def db_write_def
  db_update_payments_def db_update_outbox_def db_commit_def db_rollback_def in_session_def
  scalar_one_or_none_def

lemma the_key_Some [simp]: "the_key (Some a) = ret a"
  by (simp add: the_key_def)

lemma emit_apply [simp]: "emit t w = (Inr (), w\<lparr>w_telemetry := w_telemetry w @ [t]\<rparr>)"
  by (simp add: emit_def)

lemma scalar_simps [simp]:
  "scalar_one_or_none [] = ret None"
  "scalar_one_or_none [x] = ret (Some x)"
  by (simp_all add: scalar_one_or_none_def)

section \<open>What the combinators keep\<close>

text \<open>
  Most steps change only the outside and the telemetry.  A predicate that does not look at
  these is kept by them; \<open>quiet P\<close> says that it does not.
\<close>

definition quiet :: "(('e, 'm) world_scheme \<Rightarrow> bool) \<Rightarrow> bool" where
  "quiet P \<longleftrightarrow> (\<forall>w e t c. P w \<longrightarrow> P (w\<lparr>w_out := e, w_telemetry := t, w_correlation := c\<rparr>))"

lemma quietD:
  assumes "quiet P" and "P w"
  shows "P (w\<lparr>w_out := e\<rparr>)" and "P (w\<lparr>w_telemetry := t\<rparr>)" and "P (w\<lparr>w_correlation := c\<rparr>)"
proof -
  have q: "P (w\<lparr>w_out := x, w_telemetry := y, w_correlation := z\<rparr>)" for x y z
    using assms unfolding quiet_def by blast
  show "P (w\<lparr>w_out := e\<rparr>)" using q [where x = e and y = "w_telemetry w" and z = "w_correlation w"] by simp
  show "P (w\<lparr>w_telemetry := t\<rparr>)" using q [where x = "w_out w" and y = t and z = "w_correlation w"] by simp
  show "P (w\<lparr>w_correlation := c\<rparr>)" using q [where x = "w_out w" and y = "w_telemetry w" and z = c] by simp
qed

lemma keeps_outside [keeps_intros]: "quiet P \<Longrightarrow> keeps P (outside f)"
  by (auto simp: keeps_def outside_def quietD split: prod.splits)

lemma keeps_redis [keeps_intros]: "quiet P \<Longrightarrow> keeps P (redis f)"
  by (auto simp: keeps_def redis_def quietD split: prod.splits sum.splits)

lemma keeps_emit [keeps_intros]: "quiet P \<Longrightarrow> keeps P (emit t)"
  by (auto simp: keeps_def quietD)

lemma keeps_the_key [keeps_intros]: "keeps P (the_key x)"
  by (cases x) (auto simp: the_key_def intro: keeps_intros)

lemma keeps_from_result [keeps_intros]: "keeps P (from_result r)"
  by (cases r) (auto simp: from_result_def intro: keeps_intros)

lemma keeps_scalar [keeps_intros]: "keeps P (scalar_one_or_none rows)"
  by (auto simp: scalar_one_or_none_def split: list.splits intro: keeps_intros)

lemma keeps_catch_if [keeps_intros]:
  "keeps P m \<Longrightarrow> (\<And>x. keeps P (h x)) \<Longrightarrow> keeps P (catch_if c m h)"
  unfolding catch_if_def by (intro keeps_intros)

lemma keeps_db_select [keeps_intros]: "keeps P (interfere env) \<Longrightarrow> keeps P (db_select env q)"
  unfolding db_select_def by (intro keeps_intros)

section \<open>What a run can raise\<close>

text \<open>
  \<open>raises C m\<close>: every raise of \<open>m\<close> is in \<open>C\<close>, whatever the state and the outside do.
\<close>

definition raises :: "(exn \<Rightarrow> bool) \<Rightarrow> ('s, exn, 'a) prog \<Rightarrow> bool" where
  "raises C m \<longleftrightarrow> (\<forall>s x t. m s = (Inl x, t) \<longrightarrow> C x)"

named_theorems raises_intros "what programs can raise"

lemma raisesD: "raises C m \<Longrightarrow> m s = (Inl x, t) \<Longrightarrow> C x"
  by (auto simp: raises_def)

lemma raises_ret [raises_intros]: "raises C (ret a)"
  by (simp add: raises_def)

lemma raises_raise: "C x \<Longrightarrow> raises C (raise x)"
  by (simp add: raises_def)

lemma raises_outside [raises_intros]: "raises C (outside f)"
  by (auto simp: raises_def outside_def split: prod.splits)

lemma raises_emit [raises_intros]: "raises C (emit t)"
  by (simp add: raises_def)

lemma raises_db_select [raises_intros]: "raises C (db_select env q)"
  by (auto simp: raises_def db_select_def interfere_def bindM_def split: prod.splits)

lemma raises_bindM [raises_intros]: "raises C m \<Longrightarrow> (\<And>a. raises C (f a)) \<Longrightarrow> raises C (bindM m f)"
  by (fastforce simp: raises_def bindM_def split: prod.splits sum.splits)

lemma raises_if [raises_intros]: "raises C m \<Longrightarrow> raises C n \<Longrightarrow> raises C (if b then m else n)"
  by simp

lemma raises_option [raises_intros]:
  "raises C m \<Longrightarrow> (\<And>a. raises C (f a)) \<Longrightarrow> raises C (case x of None \<Rightarrow> m | Some a \<Rightarrow> f a)"
  by (simp split: option.splits)

lemma raises_Let [raises_intros]: "(\<And>a. raises C (f a)) \<Longrightarrow> raises C (let a = x in f a)"
  by simp

lemma raises_catch_if:
  assumes "raises (\<lambda>x. c x \<or> C x) m" and "\<And>x. raises C (h x)"
  shows "raises C (catch_if c m h)"
  using assms
  by (fastforce simp: raises_def catch_if_def catch_def split: prod.splits sum.splits if_splits)

lemma raises_redis: "(\<And>m. C (RedisError m)) \<Longrightarrow> raises C (redis f)"
  by (auto simp: raises_def redis_def split: prod.splits sum.splits)

lemma raises_scalar: "C MultipleResultsFound \<Longrightarrow> raises C (scalar_one_or_none rows)"
  by (auto simp: raises_def scalar_one_or_none_def split: list.splits)

lemma raises_from_result: "(\<And>x. r = Inl x \<Longrightarrow> C x) \<Longrightarrow> raises C (from_result r)"
  by (auto simp: raises_def from_result_def split: sum.splits)

lemma raises_mono: "raises C m \<Longrightarrow> (\<And>x. C x \<Longrightarrow> D x) \<Longrightarrow> raises D m"
  by (auto simp: raises_def)

end
