(* ===== verification/Growth.thy ===== *)
theory Growth
  imports World "HOL-Library.Sublist"
begin

text \<open>
  What every handler of the system keeps about the committed tables.  Rows are only added, and
  of a row only the mutable columns change (\<open>extends\<close>).  The tables are \<open>consistent\<close>: the
  constraints hold, payments and idempotency records pair up and a record's stored response
  names its payment, a payment that risk or AML blocked has status \<open>BLOCKED\<close>, every other
  payment has the outbox event it was accepted with, and every \<open>PaymentRequested\<close> event belongs
  to a payment that was not blocked.
\<close>

section \<open>Rows up to their mutable columns\<close>

definition p_core :: "payment_row \<Rightarrow> payment_row" where
  "p_core p = p\<lparr>p_status := RECEIVED, p_last_error := None, p_updated_at := 0, p_version := 0\<rparr>"

definition ob_core :: "outbox_row \<Rightarrow> outbox_row" where
  "ob_core e = e\<lparr>ob_status := OB_PENDING, ob_attempts := 0, ob_next_attempt_at := 0\<rparr>"

definition extends :: "database \<Rightarrow> database \<Rightarrow> bool" where
  "extends d d' \<longleftrightarrow>
     prefix (db_customers d) (db_customers d') \<and>
     prefix (db_limits d) (db_limits d') \<and>
     prefix (map p_core (db_payments d)) (map p_core (db_payments d')) \<and>
     prefix (map ob_core (db_outbox d)) (map ob_core (db_outbox d')) \<and>
     prefix (db_idempotency d) (db_idempotency d')"

definition blocked_by_controls :: "payment_row \<Rightarrow> bool" where
  "blocked_by_controls p \<longleftrightarrow> p_risk_decision p = Some RISK_BLOCK \<or> p_aml_decision p = Some AML_BLOCK"

text \<open>The event a payment that is not blocked enters the outbox with.\<close>

definition accepted_event :: "payment_row \<Rightarrow> event_type" where
  "accepted_event p =
     (if p_risk_decision p = Some RISK_REVIEW \<or> p_aml_decision p = Some AML_REVIEW
      then PAYMENT_REVIEW_REQUIRED else PAYMENT_REQUESTED)"

definition has_event :: "outbox_row list \<Rightarrow> payment_row \<Rightarrow> bool" where
  "has_event es p \<longleftrightarrow> (\<exists>e\<in>set es. ob_aggregate_id e = p_payment_id p \<and> ob_event_type e = accepted_event p)"

definition coherent :: "database \<Rightarrow> bool" where
  "coherent d \<longleftrightarrow>
     (\<forall>p\<in>set (db_payments d). \<exists>r\<in>set (db_idempotency d).
        idempotency_scope r = payment_scope p \<and> ir_payment_id r = p_payment_id p) \<and>
     (\<forall>r\<in>set (db_idempotency d).
        (\<exists>p\<in>set (db_payments d). payment_scope p = idempotency_scope r \<and> p_payment_id p = ir_payment_id r) \<and>
        (\<exists>a. validate_accepted (ir_response_payload r) = Some a \<and> ac_payment_id a = ir_payment_id r)) \<and>
     (\<forall>p\<in>set (db_payments d). blocked_by_controls p \<longrightarrow> p_status p = BLOCKED) \<and>
     (\<forall>p\<in>set (db_payments d). \<not> blocked_by_controls p \<longrightarrow> has_event (db_outbox d) p) \<and>
     (\<forall>e\<in>set (db_outbox d). ob_event_type e = PAYMENT_REQUESTED \<longrightarrow>
        (\<exists>p\<in>set (db_payments d). p_payment_id p = ob_aggregate_id e \<and> \<not> blocked_by_controls p))"

definition consistent :: "database \<Rightarrow> bool" where
  "consistent d \<longleftrightarrow> constraints_ok d \<and> coherent d"

definition grows :: "database \<Rightarrow> database \<Rightarrow> bool" where
  "grows d d' \<longleftrightarrow> (consistent d \<longrightarrow> consistent d' \<and> extends d d')"

lemma p_core_simps [simp]:
  "p_payment_id (p_core p) = p_payment_id p" "p_merchant_id (p_core p) = p_merchant_id p"
  "p_customer_id (p_core p) = p_customer_id p" "p_idempotency_key (p_core p) = p_idempotency_key p"
  "p_amount (p_core p) = p_amount p" "p_currency (p_core p) = p_currency p"
  "p_method (p_core p) = p_method p" "p_account_id (p_core p) = p_account_id p"
  "p_risk_decision (p_core p) = p_risk_decision p" "p_aml_decision (p_core p) = p_aml_decision p"
  "payment_scope (p_core p) = payment_scope p" "blocked_by_controls (p_core p) = blocked_by_controls p"
  "accepted_event (p_core p) = accepted_event p" "has_event es (p_core p) = has_event es p"
  by (simp_all add: p_core_def payment_scope_def blocked_by_controls_def accepted_event_def has_event_def)

lemma p_core_eqD:
  assumes "p_core p = p_core q"
  shows "p_payment_id p = p_payment_id q" and "payment_scope p = payment_scope q"
    and "p_customer_id p = p_customer_id q" and "blocked_by_controls p = blocked_by_controls q"
    and "p_amount p = p_amount q" and "p_method p = p_method q"
  using assms p_core_simps by metis+

lemma ob_core_simps [simp]:
  "ob_event_id (ob_core e) = ob_event_id e" "ob_aggregate_id (ob_core e) = ob_aggregate_id e"
  "ob_event_type (ob_core e) = ob_event_type e" "ob_payload (ob_core e) = ob_payload e"
  by (simp_all add: ob_core_def)

lemma has_event_core [simp]: "has_event (map ob_core es) p = has_event es p"
  by (simp add: has_event_def)

lemma has_event_append [simp]: "has_event (es @ fs) p \<longleftrightarrow> has_event es p \<or> has_event fs p"
  by (auto simp: has_event_def)

lemma ob_core_eqD:
  assumes "ob_core e = ob_core f"
  shows "ob_event_id e = ob_event_id f" and "ob_aggregate_id e = ob_aggregate_id f"
    and "ob_event_type e = ob_event_type f" and "ob_payload e = ob_payload f"
  using assms ob_core_simps by metis+

lemma extends_refl [simp]: "extends d d"
  by (simp add: extends_def)

lemma extends_trans: "extends d e \<Longrightarrow> extends e f \<Longrightarrow> extends d f"
  unfolding extends_def by (meson prefix_order.trans)

lemma prefix_map_obtain:
  assumes "prefix (map f xs) (map f ys)" and "x \<in> set xs"
  obtains y where "y \<in> set ys" and "f y = f x"
proof -
  have "f x \<in> set (map f xs)" using assms(2) by simp
  then have "f x \<in> set (map f ys)" using set_mono_prefix [OF assms(1)] by blast
  then show thesis using that by auto
qed

lemma extends_payment:
  assumes "extends d d'" and "p \<in> set (db_payments d)"
  obtains q where "q \<in> set (db_payments d')" and "p_core q = p_core p"
  using assms by (auto simp: extends_def elim: prefix_map_obtain)

lemma extends_event:
  assumes "extends d d'" and "e \<in> set (db_outbox d)"
  obtains f where "f \<in> set (db_outbox d')" and "ob_core f = ob_core e"
  using assms by (auto simp: extends_def elim: prefix_map_obtain)

lemma extends_snapshot: "extends d d' \<Longrightarrow> r \<in> set (db_idempotency d) \<Longrightarrow> r \<in> set (db_idempotency d')"
  by (auto simp: extends_def dest: set_mono_prefix)

lemma grows_refl [simp]: "grows d d"
  by (simp add: grows_def)

lemma grows_trans: "grows d e \<Longrightarrow> grows e f \<Longrightarrow> grows d f"
  by (auto simp: grows_def dest: extends_trans)

lemma consistentD:
  assumes "consistent d"
  shows "constraints_ok d" and "coherent d"
  using assms by (auto simp: consistent_def)

lemma consistent_id_unique:
  assumes "consistent d" and "p \<in> set (db_payments d)" and "q \<in> set (db_payments d)"
    and "p_payment_id p = p_payment_id q"
  shows "p = q"
  using assms by (auto simp: consistent_def constraints_ok_def distinct_map dest: inj_onD)

section \<open>What holds of the tables once holds from then on\<close>

definition persistent :: "(database \<Rightarrow> bool) \<Rightarrow> bool" where
  "persistent T \<longleftrightarrow> (\<forall>d d'. consistent d \<longrightarrow> consistent d' \<longrightarrow> extends d d' \<longrightarrow> T d \<longrightarrow> T d')"

named_theorems persistent_intros "predicates of the tables that stay true"

lemma persistentD: "persistent T \<Longrightarrow> consistent d \<Longrightarrow> consistent d' \<Longrightarrow> extends d d' \<Longrightarrow> T d \<Longrightarrow> T d'"
  by (auto simp: persistent_def)

lemma persistent_const [persistent_intros]: "persistent (\<lambda>d. P)"
  by (simp add: persistent_def)

lemma persistent_conj [persistent_intros]: "persistent S \<Longrightarrow> persistent T \<Longrightarrow> persistent (\<lambda>d. S d \<and> T d)"
  unfolding persistent_def by blast

lemma persistent_ball [persistent_intros]:
  "(\<And>x. persistent (T x)) \<Longrightarrow> persistent (\<lambda>d. \<forall>x\<in>A. T x d)"
  unfolding persistent_def by blast

text \<open>A scope belongs to a payment; a payment exists and was not blocked.\<close>

definition scope_owned :: "string \<times> string \<Rightarrow> uuid \<Rightarrow> database \<Rightarrow> bool" where
  "scope_owned scope pid d \<longleftrightarrow>
     (\<exists>p\<in>set (db_payments d). payment_scope p = scope \<and> p_payment_id p = pid)"

definition payable :: "uuid \<Rightarrow> database \<Rightarrow> bool" where
  "payable pid d \<longleftrightarrow> (\<exists>p\<in>set (db_payments d). p_payment_id p = pid \<and> \<not> blocked_by_controls p)"

lemma scope_owned_extends: "extends d d' \<Longrightarrow> scope_owned s pid d \<Longrightarrow> scope_owned s pid d'"
  unfolding scope_owned_def by (metis extends_payment p_core_eqD(1,2))

lemma payable_extends: "extends d d' \<Longrightarrow> payable pid d \<Longrightarrow> payable pid d'"
  unfolding payable_def by (metis extends_payment p_core_eqD(1,4))

lemma persistent_scope_owned [persistent_intros]: "persistent (scope_owned s pid)"
  by (auto simp: persistent_def intro: scope_owned_extends)

lemma persistent_payable [persistent_intros]: "persistent (payable pid)"
  by (auto simp: persistent_def intro: payable_extends)

lemma scope_owned_unique:
  assumes "consistent d" and "scope_owned s x d" and "scope_owned s y d"
  shows "x = y"
  using assms payments_by_scope_unique [of d]
  unfolding scope_owned_def consistent_def by metis

lemma scope_owned_row:
  assumes "consistent d" and "scope_owned (m, k) pid d"
  obtains p where "payments_by_scope m k d = [p]" and "p_payment_id p = pid"
proof -
  obtain p where p: "p \<in> set (db_payments d)" "payment_scope p = (m, k)" "p_payment_id p = pid"
    using assms(2) by (auto simp: scope_owned_def)
  have "distinct (map payment_scope (db_payments d))"
    using consistentD(1) [OF assms(1)] by (simp add: constraints_ok_def)
  from filter_key_unique [OF this p(1)] have "payments_by_scope m k d = [p]"
    by (simp add: payments_by_scope_alt p(2))
  then show thesis using p(3) that by blast
qed

lemma snapshot_owner:
  assumes d: "consistent d" and r: "r \<in> set (db_idempotency d)"
    and a: "validate_accepted (ir_response_payload r) = Some a"
  shows "scope_owned (idempotency_scope r) (ac_payment_id a) d"
proof -
  have c: "\<exists>p\<in>set (db_payments d). payment_scope p = idempotency_scope r \<and> p_payment_id p = ir_payment_id r"
    "\<exists>b. validate_accepted (ir_response_payload r) = Some b \<and> ac_payment_id b = ir_payment_id r"
    using d r unfolding consistent_def coherent_def by blast+
  then have "ac_payment_id a = ir_payment_id r" using a by auto
  then show ?thesis using c(1) by (auto simp: scope_owned_def)
qed

lemma payable_not_blocked:
  assumes "consistent d" and "payable pid d" and "p \<in> set (db_payments d)" and "p_payment_id p = pid"
  shows "\<not> blocked_by_controls p"
  using assms consistent_id_unique unfolding payable_def by metis

section \<open>Writes that keep the tables coherent\<close>

text \<open>
  \<open>sound d d'\<close>: \<open>d'\<close> comes from \<open>d\<close> by writes of a transaction that adds no payment and no
  idempotency record and stays coherent.  What the commit checks besides is the constraints.
\<close>

definition sound :: "database \<Rightarrow> database \<Rightarrow> bool" where
  "sound d d' \<longleftrightarrow>
     coherent d' \<and> extends d d' \<and> map p_core (db_payments d') = map p_core (db_payments d) \<and>
     db_idempotency d' = db_idempotency d"

lemma sound_refl: "coherent d \<Longrightarrow> sound d d"
  by (simp add: sound_def)

text \<open>All of coherence but the status of blocked payments is about the unchanging columns.\<close>

definition core_coherent :: "payment_row list \<Rightarrow> idempotency_row list \<Rightarrow> outbox_row list \<Rightarrow> bool" where
  "core_coherent ps rs es \<longleftrightarrow>
     (\<forall>p\<in>set ps. \<exists>r\<in>set rs. idempotency_scope r = payment_scope p \<and> ir_payment_id r = p_payment_id p) \<and>
     (\<forall>r\<in>set rs.
        (\<exists>p\<in>set ps. payment_scope p = idempotency_scope r \<and> p_payment_id p = ir_payment_id r) \<and>
        (\<exists>a. validate_accepted (ir_response_payload r) = Some a \<and> ac_payment_id a = ir_payment_id r)) \<and>
     (\<forall>p\<in>set ps. \<not> blocked_by_controls p \<longrightarrow> has_event es p) \<and>
     (\<forall>e\<in>set es. ob_event_type e = PAYMENT_REQUESTED \<longrightarrow>
        (\<exists>p\<in>set ps. p_payment_id p = ob_aggregate_id e \<and> \<not> blocked_by_controls p))"

lemma coherent_cores:
  "coherent d \<longleftrightarrow>
     core_coherent (map p_core (db_payments d)) (db_idempotency d) (map ob_core (db_outbox d)) \<and>
     (\<forall>p\<in>set (db_payments d). blocked_by_controls p \<longrightarrow> p_status p = BLOCKED)"
  by (simp add: coherent_def core_coherent_def) blast

lemma payable_cores:
  "payable pid d \<longleftrightarrow>
     (\<exists>p\<in>set (map p_core (db_payments d)). p_payment_id p = pid \<and> \<not> blocked_by_controls p)"
  by (simp add: payable_def)

lemma same_cores_payable:
  assumes "map p_core (db_payments d') = map p_core (db_payments d)"
  shows "payable pid d' \<longleftrightarrow> payable pid d"
  unfolding payable_cores assms ..

lemma same_cores_obtain:
  assumes "map p_core (db_payments d') = map p_core (db_payments d)" and "p \<in> set (db_payments d')"
  obtains q where "q \<in> set (db_payments d)" and "p_core q = p_core p"
proof -
  have "p_core p \<in> set (map p_core (db_payments d'))" using assms(2) by simp
  then have "p_core p \<in> p_core ` set (db_payments d)" unfolding assms(1) by simp
  then show thesis using that by (metis imageE)
qed

lemma map_core_update:
  assumes "\<And>x. c (f x) = c x"
  shows "map c (map (\<lambda>x. if w x then f x else x) xs) = map c xs"
  using assms by (induction xs) auto

text \<open>A change of the mutable columns of one payment that controls did not block.\<close>

lemma sound_update_payment:
  assumes d: "consistent d" and s: "sound d d'" and pay: "payable pid d"
    and f: "\<And>p. p_core (f p) = p_core p"
    and w: "\<And>p. w p \<Longrightarrow> p_payment_id p = pid"
  shows "sound d (update_payments w f d')"
proof -
  have cores: "map p_core (db_payments (update_payments w f d')) = map p_core (db_payments d')"
    by (simp add: map_core_update [of p_core, OF f] del: map_map)
  have same: "map p_core (db_payments d') = map p_core (db_payments d)" using s by (simp add: sound_def)
  have free: "\<not> blocked_by_controls p" if p: "p \<in> set (db_payments d')" "w p" for p
  proof -
    obtain q where q: "q \<in> set (db_payments d)" "p_core q = p_core p"
      using same_cores_obtain [OF same p(1)] by blast
    have "p_payment_id q = pid" using w [OF p(2)] p_core_eqD(1) [OF q(2)] by simp
    then have "\<not> blocked_by_controls q" using payable_not_blocked [OF d pay q(1)] by blast
    then show ?thesis using p_core_eqD(4) [OF q(2)] by simp
  qed
  have status: "\<forall>p\<in>set (db_payments d'). blocked_by_controls p \<longrightarrow> p_status p = BLOCKED"
    using s by (simp add: sound_def coherent_def)
  have "\<forall>p\<in>set (db_payments (update_payments w f d')). blocked_by_controls p \<longrightarrow> p_status p = BLOCKED"
  proof
    fix p assume "p \<in> set (db_payments (update_payments w f d'))"
    then obtain q where q: "q \<in> set (db_payments d')" "p = (if w q then f q else q)" by auto
    show "blocked_by_controls p \<longrightarrow> p_status p = BLOCKED"
      using q free [OF q(1)] status p_core_eqD(4) [OF f] by (cases "w q") auto
  qed
  moreover have "core_coherent (map p_core (db_payments d')) (db_idempotency d') (map ob_core (db_outbox d'))"
    using s unfolding sound_def by (blast dest: iffD1 [OF coherent_cores])
  ultimately have "coherent (update_payments w f d')" unfolding coherent_cores cores by simp
  then show ?thesis using s cores by (simp add: sound_def extends_def del: map_map)
qed

text \<open>A change of the mutable columns of outbox rows.\<close>

lemma sound_update_outbox:
  assumes s: "sound d d'" and g: "\<And>e. ob_core (g e) = ob_core e"
  shows "sound d (update_outbox w g d')"
proof -
  have cores: "map ob_core (db_outbox (update_outbox w g d')) = map ob_core (db_outbox d')"
    by (simp add: map_core_update [of ob_core, OF g] del: map_map)
  have "coherent d'" using s by (simp add: sound_def)
  then have "coherent (update_outbox w g d')" unfolding coherent_cores cores by simp
  then show ?thesis using s cores by (simp add: sound_def extends_def del: map_map)
qed

text \<open>A new event; a request for payment only of a payment that was not blocked.\<close>

lemma sound_insert_event:
  assumes "sound d d'" and "ob_event_type e = PAYMENT_REQUESTED \<Longrightarrow> payable (ob_aggregate_id e) d"
  shows "sound d (insert_event e d')"
proof -
  have "ob_event_type e = PAYMENT_REQUESTED \<Longrightarrow> payable (ob_aggregate_id e) d'"
    using assms same_cores_payable unfolding sound_def by metis
  then have "coherent (insert_event e d')"
    using assms(1) unfolding sound_def coherent_def payable_def by auto
  then show ?thesis using assms(1) by (simp add: sound_def extends_def)
qed

lemma sound_insert_customers: "sound d d' \<Longrightarrow> sound d (insert_customers cs d')"
  by (auto simp: sound_def extends_def coherent_def insert_customers_def)

lemma sound_insert_limits: "sound d d' \<Longrightarrow> sound d (insert_limits ls d')"
  by (auto simp: sound_def extends_def coherent_def insert_limits_def)

section \<open>The transaction of a new payment\<close>

definition created_events_ok :: "payment_row \<Rightarrow> outbox_row list \<Rightarrow> bool" where
  "created_events_ok p es \<longleftrightarrow> (\<forall>e\<in>set es. ob_event_type e = PAYMENT_REQUESTED \<longrightarrow>
     ob_aggregate_id e = p_payment_id p \<and> \<not> blocked_by_controls p)"

definition snapshot_of :: "payment_row \<Rightarrow> idempotency_row \<Rightarrow> bool" where
  "snapshot_of p r \<longleftrightarrow> idempotency_scope r = payment_scope p \<and> ir_payment_id r = p_payment_id p \<and>
     (\<exists>a. validate_accepted (ir_response_payload r) = Some a \<and> ac_payment_id a = p_payment_id p)"

lemma created_consistent:
  assumes d: "consistent d" and d': "db_payments d' = db_payments d @ [p]"
    "db_outbox d' = db_outbox d @ es" "db_idempotency d' = db_idempotency d @ [r]"
    "db_customers d' = db_customers d" "db_limits d' = db_limits d"
    and ok: "constraints_ok d'" and es: "created_events_ok p es" and r: "snapshot_of p r"
    and bl: "blocked_by_controls p \<Longrightarrow> p_status p = BLOCKED"
    and ev: "\<not> blocked_by_controls p \<Longrightarrow> has_event es p"
  shows "consistent d'" and "extends d d'" and "scope_owned (payment_scope p) (p_payment_id p) d'"
proof -
  have c: "coherent d" using d by (simp add: consistent_def)
  have "coherent d'"
    unfolding coherent_def
  proof (intro conjI ballI impI)
    fix q assume "q \<in> set (db_payments d')"
    then show "\<exists>s\<in>set (db_idempotency d'). idempotency_scope s = payment_scope q \<and> ir_payment_id s = p_payment_id q"
      using c r d' by (auto simp: coherent_def snapshot_of_def)
  next
    fix s assume "s \<in> set (db_idempotency d')"
    then show "\<exists>q\<in>set (db_payments d'). payment_scope q = idempotency_scope s \<and> p_payment_id q = ir_payment_id s"
      using c r d' by (auto simp: coherent_def snapshot_of_def)
  next
    fix s assume "s \<in> set (db_idempotency d')"
    then show "\<exists>a. validate_accepted (ir_response_payload s) = Some a \<and> ac_payment_id a = ir_payment_id s"
      using c r d' by (auto simp: coherent_def snapshot_of_def)
  next
    fix q assume "q \<in> set (db_payments d')" "blocked_by_controls q"
    then show "p_status q = BLOCKED" using c bl d' by (auto simp: coherent_def)
  next
    fix q assume "q \<in> set (db_payments d')" "\<not> blocked_by_controls q"
    then show "has_event (db_outbox d') q" using c ev d' by (auto simp: coherent_def)
  next
    fix e assume "e \<in> set (db_outbox d')" "ob_event_type e = PAYMENT_REQUESTED"
    then show "\<exists>q\<in>set (db_payments d'). p_payment_id q = ob_aggregate_id e \<and> \<not> blocked_by_controls q"
      using c es d' by (auto simp: coherent_def created_events_ok_def)
  qed
  then show "consistent d'" using ok by (simp add: consistent_def)
  show "extends d d'" using d' by (simp add: extends_def)
  show "scope_owned (payment_scope p) (p_payment_id p) d'"
    using d' by (auto simp: scope_owned_def)
qed

end
