(* ===== verification/Kyc.thy ===== *)
theory Kyc
  imports World
begin

text \<open>
  \<open>payments_api/services/kyc_service.py\<close>: a customer may use a rail when active and at least
  at the rail's KYC level.
\<close>

definition resolve_minimum_kyc :: "payment_method \<Rightarrow> exn + kyc_level" where
  "resolve_minimum_kyc rail =
     (case minimum_kyc_level_for_method rail of
        None \<Rightarrow> Inl (KycDeniedError (''Unsupported payment rail for KYC checks: '' @ method_value rail))
      | Some level \<Rightarrow> Inr level)"

definition kyc_enforce :: "customer_row \<Rightarrow> payment_method \<Rightarrow> exn + unit" where
  "kyc_enforce customer rail =
     (if cu_status customer \<noteq> ACTIVE then Inl (KycDeniedError ''Customer is suspended'')
      else case resolve_minimum_kyc rail of
          Inl x \<Rightarrow> Inl x
        | Inr required \<Rightarrow>
            if kyc_level_rank (cu_kyc_level customer) < kyc_level_rank required
            then Inl (KycDeniedError (''Customer KYC level '' @ kyc_level_value (cu_kyc_level customer) @
                        '' is below required '' @ kyc_level_value required))
            else Inr ())"

text \<open>The specification: which customers a rail admits.\<close>

definition kyc_admits :: "customer_row \<Rightarrow> payment_method \<Rightarrow> bool" where
  "kyc_admits customer rail \<longleftrightarrow>
     cu_status customer = ACTIVE \<and>
     (if rail = TED then KYC_FULL else KYC_BASIC) \<le> cu_kyc_level customer"

lemma kyc_enforce_iff: "kyc_enforce customer rail = Inr () \<longleftrightarrow> kyc_admits customer rail"
  by (cases rail; cases "cu_kyc_level customer"; cases "cu_status customer")
     (auto simp: kyc_enforce_def resolve_minimum_kyc_def kyc_admits_def less_eq_kyc_level_def)

lemma kyc_enforce_denied:
  assumes "\<not> kyc_admits customer rail"
  obtains m where "kyc_enforce customer rail = Inl (KycDeniedError m)"
proof (cases "cu_status customer = ACTIVE")
  case False
  then have "kyc_enforce customer rail = Inl (KycDeniedError ''Customer is suspended'')"
    by (simp add: kyc_enforce_def)
  then show thesis by (rule that)
next
  case True
  obtain level where level: "minimum_kyc_level_for_method rail = Some level"
    using get_rail_profile_total [of rail] by (auto simp: minimum_kyc_level_for_method_def)
  have "kyc_enforce customer rail \<noteq> Inr ()" using assms kyc_enforce_iff by blast
  then obtain m where "kyc_enforce customer rail = Inl (KycDeniedError m)"
    using True level by (auto simp: kyc_enforce_def resolve_minimum_kyc_def split: if_splits)
  then show thesis by (rule that)
qed

end
