(* ===== verification/Repositories.thy ===== *)
theory Repositories
  imports World
begin

text \<open>
  The repositories of \<open>payments_api/repositories\<close> and \<open>payments_processor/repositories\<close>, one
  definition per method.  A method that awaits a statement runs it on the session's view; one
  that only adds an object to the session leaves the row pending until the commit.  Columns with
  a default (\<open>uuid4\<close>, \<open>now()\<close>, counters) get it when the row is added.  A method
  whose name both services or both repositories use says what it marks (\<open>mark_payment_failed\<close>, \<open>mark_event_failed\<close>).
\<close>

section \<open>API\<close>

definition get_customer_by_id :: "'e outside \<Rightarrow> string \<Rightarrow> ('e, 'm, customer_row option) act" where
  "get_customer_by_id env cid = bindM (db_select env (customers_by_id cid)) scalar_one_or_none"

definition get_by_rail :: "'e outside \<Rightarrow> payment_method \<Rightarrow> ('e, 'm, limits_policy_row option) act" where
  "get_by_rail env rail = bindM (db_select env (limits_by_rail rail)) scalar_one_or_none"

definition get_snapshot :: "'e outside \<Rightarrow> string \<Rightarrow> string \<Rightarrow> ('e, 'm, idempotency_row option) act" where
  "get_snapshot env m k = bindM (db_select env (snapshots_for m k)) scalar_one_or_none"

definition create_snapshot ::
  "'e outside \<Rightarrow> string \<Rightarrow> string \<Rightarrow> uuid \<Rightarrow> int \<Rightarrow> pyval \<Rightarrow> ('e, 'm, unit) act" where
  "create_snapshot env m k pid status_code payload =
     bindM (outside (o_db_now env)) (\<lambda>now.
     db_write (insert_snapshot
       \<lparr>ir_merchant_id = m, ir_idempotency_key = k, ir_payment_id = pid,
        ir_status_code = status_code, ir_response_payload = payload, ir_created_at = now\<rparr>))"

text \<open>A new outbox event, from either service (\<open>add_event\<close> and \<open>emit_event\<close>).\<close>

definition add_event :: "'e outside \<Rightarrow> uuid \<Rightarrow> event_type \<Rightarrow> pyval \<Rightarrow> ('e, 'm, unit) act" where
  "add_event env aggregate_id etype payload =
     bindM (outside (o_uuid4 env)) (\<lambda>eid.
     bindM (outside (o_db_now env)) (\<lambda>created.
     bindM (outside (o_now env)) (\<lambda>next.
     db_write (insert_event
       \<lparr>ob_event_id = eid, ob_aggregate_id = aggregate_id, ob_event_type = etype,
        ob_payload = payload, ob_status = OB_PENDING, ob_created_at = created,
        ob_attempts = 0, ob_next_attempt_at = next\<rparr>))))"

definition emit_event :: "'e outside \<Rightarrow> uuid \<Rightarrow> event_type \<Rightarrow> pyval \<Rightarrow> ('e, 'm, unit) act" where
  "emit_event env aggregate_id etype payload =
     bindM (outside (o_uuid4 env)) (\<lambda>eid.
     bindM (outside (o_db_now env)) (\<lambda>created.
     bindM (outside (o_now env)) (\<lambda>next.
     db_write (insert_event
       \<lparr>ob_event_id = eid, ob_aggregate_id = aggregate_id, ob_event_type = etype,
        ob_payload = payload, ob_status = OB_PENDING, ob_created_at = created,
        ob_attempts = 0, ob_next_attempt_at = next\<rparr>))))"

record payment_create_data =
  pc_payment_id :: uuid
  pc_merchant_id :: string
  pc_customer_id :: string
  pc_account_id :: string
  pc_amount :: decimal
  pc_currency :: string
  pc_method :: payment_method
  pc_destination :: "string option"
  pc_status :: payment_status
  pc_idempotency_key :: string
  pc_risk_score :: int
  pc_risk_decision :: risk_decision
  pc_aml_decision :: aml_decision
  pc_metadata :: "pyval option"

definition get_by_payment_id :: "'e outside \<Rightarrow> uuid \<Rightarrow> ('e, 'm, payment_row option) act" where
  "get_by_payment_id env pid = bindM (db_select env (payments_by_id pid)) scalar_one_or_none"

definition get_by_merchant_and_idempotency ::
  "'e outside \<Rightarrow> string \<Rightarrow> string \<Rightarrow> ('e, 'm, payment_row option) act" where
  "get_by_merchant_and_idempotency env m k =
     bindM (db_select env (payments_by_scope m k)) scalar_one_or_none"

text \<open>
  The row a new payment becomes.  The amount is stored through the column type
  \<open>Numeric(18, 2)\<close>; an amount the column cannot hold fails the flush.
\<close>

definition new_payment_row :: "payment_create_data \<Rightarrow> decimal \<Rightarrow> moment \<Rightarrow> payment_row" where
  "new_payment_row c amount now =
     \<lparr>p_payment_id = pc_payment_id c, p_merchant_id = pc_merchant_id c,
      p_customer_id = pc_customer_id c, p_account_id = pc_account_id c,
      p_amount = amount, p_currency = pc_currency c, p_method = pc_method c,
      p_destination = pc_destination c, p_status = pc_status c,
      p_idempotency_key = pc_idempotency_key c, p_risk_score = Some (pc_risk_score c),
      p_risk_decision = Some (pc_risk_decision c), p_aml_decision = Some (pc_aml_decision c),
      p_metadata = pc_metadata c, p_last_error = None, p_created_at = now, p_updated_at = now,
      p_version = 1\<rparr>"

definition create_payment_row :: "'e outside \<Rightarrow> payment_create_data \<Rightarrow> ('e, 'm, unit) act" where
  "create_payment_row env c =
     bindM (outside (o_db_now env)) (\<lambda>now.
     case o_numeric_18_2 env (pc_amount c) of
       None \<Rightarrow> raise (DatabaseError ''numeric field overflow'')
     | Some amount \<Rightarrow> db_write (insert_payment (new_payment_row c amount now)))"

definition update_status ::
  "'e outside \<Rightarrow> uuid \<Rightarrow> payment_status \<Rightarrow> string option \<Rightarrow> ('e, 'm, bool) act" where
  "update_status env pid status last_error =
     bindM (outside (o_db_now env)) (\<lambda>now.
     bindM (db_update_payments env (\<lambda>p. p_payment_id p = pid)
       (\<lambda>p. p\<lparr>p_status := status, p_last_error := last_error, p_updated_at := now\<rparr>)) (\<lambda>n.
     ret (n \<noteq> 0)))"

definition sum_outgoing_since ::
  "'e outside \<Rightarrow> string \<Rightarrow> payment_method \<Rightarrow> moment \<Rightarrow> ('e, 'm, decimal) act" where
  "sum_outgoing_since env cid rail since = db_select env (sum_outgoing_stmt cid rail since)"

definition count_outgoing_since ::
  "'e outside \<Rightarrow> string \<Rightarrow> payment_method \<Rightarrow> moment \<Rightarrow> ('e, 'm, int) act" where
  "count_outgoing_since env cid rail since = db_select env (count_outgoing_stmt cid rail since)"

definition count_failures_since :: "'e outside \<Rightarrow> string \<Rightarrow> moment \<Rightarrow> ('e, 'm, int) act" where
  "count_failures_since env cid since = db_select env (count_failures_stmt cid since)"

text \<open>An empty destination text is falsy, like no destination.\<close>

definition destination_seen :: "'e outside \<Rightarrow> string \<Rightarrow> string option \<Rightarrow> ('e, 'm, bool) act" where
  "destination_seen env cid destination =
     (case destination of
        None \<Rightarrow> ret False
      | Some dest \<Rightarrow>
          if dest = [] then ret False
          else bindM (db_select env (destination_rows cid dest)) (\<lambda>rows.
               bindM (scalar_one_or_none rows) (\<lambda>r. ret (r \<noteq> None))))"

definition count_near_threshold_since ::
  "'e outside \<Rightarrow> string \<Rightarrow> payment_method \<Rightarrow> moment \<Rightarrow> decimal \<Rightarrow> decimal \<Rightarrow> ('e, 'm, int) act" where
  "count_near_threshold_since env cid rail since low high =
     db_select env (count_near_stmt cid rail since low high)"

definition count_in_review :: "'e outside \<Rightarrow> ('e, 'm, int) act" where
  "count_in_review env = db_select env count_in_review_stmt"

section \<open>Processor\<close>

definition get_by_id :: "'e outside \<Rightarrow> uuid \<Rightarrow> ('e, 'm, payment_row option) act" where
  "get_by_id env pid = bindM (db_select env (payments_by_id pid)) scalar_one_or_none"

definition mark_processing :: "'e outside \<Rightarrow> payment_row \<Rightarrow> ('e, 'm, bool) act" where
  "mark_processing env payment =
     bindM (outside (o_db_now env)) (\<lambda>now.
     bindM (db_update_payments env
       (\<lambda>p. p_payment_id p = p_payment_id payment \<and> p_version p = p_version payment)
       (\<lambda>p. p\<lparr>p_status := PROCESSING, p_version := p_version payment + 1, p_updated_at := now\<rparr>)) (\<lambda>n.
     ret (n \<noteq> 0)))"

definition mark_confirmed :: "'e outside \<Rightarrow> payment_row \<Rightarrow> ('e, 'm, bool) act" where
  "mark_confirmed env payment =
     bindM (outside (o_db_now env)) (\<lambda>now.
     bindM (db_update_payments env (\<lambda>p. p_payment_id p = p_payment_id payment)
       (\<lambda>p. p\<lparr>p_status := CONFIRMED, p_version := p_version payment + 2, p_last_error := None,
              p_updated_at := now\<rparr>)) (\<lambda>n.
     ret (n \<noteq> 0)))"

definition mark_payment_failed :: "'e outside \<Rightarrow> payment_row \<Rightarrow> string \<Rightarrow> ('e, 'm, bool) act" where
  "mark_payment_failed env payment reason =
     bindM (outside (o_db_now env)) (\<lambda>now.
     bindM (db_update_payments env (\<lambda>p. p_payment_id p = p_payment_id payment)
       (\<lambda>p. p\<lparr>p_status := FAILED, p_version := p_version payment + 2, p_last_error := Some reason,
              p_updated_at := now\<rparr>)) (\<lambda>n.
     ret (n \<noteq> 0)))"

definition fetch_pending_requested :: "'e outside \<Rightarrow> nat \<Rightarrow> ('e, 'm, outbox_row list) act" where
  "fetch_pending_requested env limit =
     bindM (outside (o_now env)) (\<lambda>now. db_select env (pending_requested_stmt now limit))"

definition fetch_pending_fanout_events :: "'e outside \<Rightarrow> nat \<Rightarrow> ('e, 'm, outbox_row list) act" where
  "fetch_pending_fanout_events env limit =
     bindM (outside (o_now env)) (\<lambda>now. db_select env (pending_fanout_stmt now limit))"

definition mark_sent :: "'e outside \<Rightarrow> uuid \<Rightarrow> ('e, 'm, unit) act" where
  "mark_sent env eid =
     db_update_outbox env (\<lambda>e. ob_event_id e = eid) (\<lambda>e. e\<lparr>ob_status := OB_SENT\<rparr>)"

definition mark_event_failed :: "'e outside \<Rightarrow> uuid \<Rightarrow> int \<Rightarrow> ('e, 'm, unit) act" where
  "mark_event_failed env eid attempts =
     db_update_outbox env (\<lambda>e. ob_event_id e = eid)
       (\<lambda>e. e\<lparr>ob_status := OB_FAILED, ob_attempts := attempts\<rparr>)"

text \<open>\<open>timedelta(seconds=...)\<close> in microseconds, rounded half even.\<close>

definition micros :: "rat \<Rightarrow> int" where
  "micros seconds = (case quotient_of (seconds * 1000000) of (p, q) \<Rightarrow> div_half_even p q)"

definition reschedule :: "'e outside \<Rightarrow> uuid \<Rightarrow> int \<Rightarrow> rat \<Rightarrow> ('e, 'm, unit) act" where
  "reschedule env eid attempts delay_seconds =
     bindM (outside (o_now env)) (\<lambda>now.
     db_update_outbox env (\<lambda>e. ob_event_id e = eid)
       (\<lambda>e. e\<lparr>ob_attempts := attempts, ob_next_attempt_at := now + micros delay_seconds\<rparr>))"

definition backlog_size :: "'e outside \<Rightarrow> ('e, 'm, int) act" where
  "backlog_size env = db_select env backlog_stmt"

text \<open>Seconds since the oldest pending request, in microseconds; never negative.\<close>

definition oldest_pending_lag :: "'e outside \<Rightarrow> ('e, 'm, int) act" where
  "oldest_pending_lag env =
     bindM (db_select env oldest_pending_stmt) (\<lambda>oldest.
     case oldest of
       None \<Rightarrow> ret 0
     | Some t \<Rightarrow> bindM (outside (o_now env)) (\<lambda>now. ret (max 0 (now - t))))"

text \<open>Adding an event appends one write, of a pending event of the given type and aggregate.\<close>

lemma add_event_run:
  "\<exists>e x. add_event env aid etype payload w =
      (Inr (), w\<lparr>w_out := x, w_pending := w_pending w @ [insert_event e]\<rparr>) \<and>
    ob_event_type e = etype \<and> ob_aggregate_id e = aid \<and> ob_payload e = payload \<and>
    ob_status e = OB_PENDING \<and> ob_attempts e = 0"
  by (auto simp: add_event_def bindM_def outside_def db_write_def split: prod.splits)

lemma emit_event_add: "emit_event = add_event"
  by (intro ext) (simp add: emit_event_def add_event_def)

lemmas api_repository_defs =
  get_customer_by_id_def get_by_rail_def get_snapshot_def create_snapshot_def add_event_def
  get_by_payment_id_def get_by_merchant_and_idempotency_def create_payment_row_def update_status_def
  sum_outgoing_since_def count_outgoing_since_def count_failures_since_def destination_seen_def
  count_near_threshold_since_def count_in_review_def

lemmas processor_repository_defs =
  emit_event_def get_by_id_def mark_processing_def mark_confirmed_def mark_payment_failed_def
  fetch_pending_requested_def fetch_pending_fanout_events_def mark_sent_def mark_event_failed_def
  reschedule_def backlog_size_def oldest_pending_lag_def

end
