(* ===== verification/PyTime.thy ===== *)
theory PyTime
  imports PaymentRails
begin

text \<open>
  Calendar arithmetic of the UTC moments the limits service uses: the date as \<open>%Y%m%d\<close>, the
  start of the day and the seconds to its end.  A moment counts microseconds from 1970-01-01,
  so every moment the service reads is not negative.  The main lemma is that the date text
  determines the day, so a daily Redis key never serves two days.
\<close>

definition second :: int where "second = 1000000"

definition day :: int where "day = 86400 * second"

definition is_leap :: "nat \<Rightarrow> bool" where
  "is_leap y \<longleftrightarrow> y mod 4 = 0 \<and> (y mod 100 \<noteq> 0 \<or> y mod 400 = 0)"

definition year_length :: "nat \<Rightarrow> nat" where
  "year_length y = (if is_leap y then 366 else 365)"

definition month_lengths :: "nat \<Rightarrow> nat list" where
  "month_lengths y = [31, if is_leap y then 29 else 28, 31, 30, 31, 30, 31, 31, 30, 31, 30, 31]"

text \<open>The year holding day \<open>n\<close> counted from the start of year \<open>y\<close>, and the day within it.\<close>

function find_year :: "nat \<Rightarrow> nat \<Rightarrow> nat \<times> nat" where
  "find_year y n = (if n < year_length y then (y, n) else find_year (y + 1) (n - year_length y))"
  by pat_completeness auto
termination
  by (relation "measure snd") (auto simp: year_length_def)

declare find_year.simps [simp del]

text \<open>The month (from 1) and the day of the month (from 1).\<close>

fun find_month :: "nat list \<Rightarrow> nat \<Rightarrow> nat \<Rightarrow> nat \<times> nat" where
  "find_month [] m n = (m, n + 1)"
| "find_month (l # ls) m n = (if n < l then (m, n + 1) else find_month ls (m + 1) (n - l))"

definition civil_date :: "nat \<Rightarrow> nat \<times> nat \<times> nat" where
  "civil_date n = (case find_year 1970 n of (y, r) \<Rightarrow>
     (case find_month (month_lengths y) 1 r of (m, d) \<Rightarrow> (y, m, d)))"

definition pad2 :: "nat \<Rightarrow> string" where
  "pad2 n = [digit_char (n div 10 mod 10), digit_char (n mod 10)]"

text \<open>\<open>now.strftime("%Y%m%d")\<close>\<close>

definition date_text :: "moment \<Rightarrow> string" where
  "date_text now = (case civil_date (nat (now div day)) of (y, m, d) \<Rightarrow>
     show_nat y @ pad2 m @ pad2 d)"

text \<open>\<open>now.replace(hour=0, minute=0, second=0, microsecond=0)\<close>\<close>

definition utc_day_start :: "moment \<Rightarrow> moment" where
  "utc_day_start now = (now div day) * day"

definition seconds_until_day_end :: "moment \<Rightarrow> int" where
  "seconds_until_day_end now = (let end_of_day = utc_day_start now + 86399 * second;
       left = end_of_day - now
     in max 1 (if 0 \<le> left then left div second else - ((- left) div second)))"

lemma find_year_sum: "find_year y n = (y', r) \<Longrightarrow> y \<le> y' \<and> n = (\<Sum>k = y..<y'. year_length k) + r \<and> r < year_length y'"
proof (induction y n arbitrary: y' r rule: find_year.induct)
  case (1 y n)
  show ?case
  proof (cases "n < year_length y")
    case True
    then show ?thesis using "1.prems" by (auto simp: find_year.simps [of y n])
  next
    case False
    then have "find_year (y + 1) (n - year_length y) = (y', r)"
      using "1.prems" by (simp add: find_year.simps [of y n])
    from "1.IH" [OF False this]
    have ih: "y + 1 \<le> y'" "n - year_length y = (\<Sum>k = y + 1..<y'. year_length k) + r"
      "r < year_length y'" by auto
    have "(\<Sum>k = y..<y'. year_length k) = year_length y + (\<Sum>k = y + 1..<y'. year_length k)"
      using ih(1) by (simp add: sum.atLeast_Suc_lessThan)
    then show ?thesis using ih False by simp
  qed
qed

lemma find_month_sum:
  "find_month ls m n = (m', d) \<Longrightarrow> m \<le> m' \<and> m' \<le> m + length ls \<and> n + 1 = sum_list (take (m' - m) ls) + d"
proof (induction ls m n arbitrary: m' d rule: find_month.induct)
  case (2 l ls m n)
  show ?case
  proof (cases "n < l")
    case True
    then show ?thesis using "2.prems" by auto
  next
    case False
    then have "find_month ls (m + 1) (n - l) = (m', d)" using "2.prems" by simp
    from "2.IH" [OF False this] have ih: "m + 1 \<le> m'" "m' \<le> m + 1 + length ls"
      "n - l + 1 = sum_list (take (m' - (m + 1)) ls) + d" by auto
    have "m' - m = Suc (m' - (m + 1))" using ih(1) by simp
    then show ?thesis using ih False by simp
  qed
qed simp

text \<open>The day of the month is at most 31, except past the last month (which no year reaches).\<close>

lemma find_month_day:
  "find_month ls m n = (m', d) \<Longrightarrow> n < sum_list ls \<Longrightarrow> (\<forall>l\<in>set ls. l \<le> 31) \<Longrightarrow>
   1 \<le> d \<and> d \<le> 31 \<and> m' < m + length ls"
proof (induction ls m n rule: find_month.induct)
  case (2 l ls m n)
  then show ?case by (cases "n < l") auto
qed simp

lemma month_lengths_sum: "sum_list (month_lengths y) = year_length y"
  by (simp add: month_lengths_def year_length_def)

lemma civil_date_bounds:
  assumes "civil_date n = (y, m, d)"
  shows "1 \<le> m" and "m \<le> 12" and "1 \<le> d" and "d \<le> 31"
proof -
  obtain r where y: "find_year 1970 n = (y, r)" and md: "find_month (month_lengths y) 1 r = (m, d)"
    using assms by (auto simp: civil_date_def split: prod.splits)
  have r: "r < sum_list (month_lengths y)"
    using find_year_sum [OF y] by (simp add: month_lengths_sum)
  have "1 \<le> d \<and> d \<le> 31 \<and> m < 1 + length (month_lengths y)"
    by (rule find_month_day [OF md r]) (auto simp: month_lengths_def)
  then show "m \<le> 12" "1 \<le> d" "d \<le> 31" by (auto simp: month_lengths_def)
  show "1 \<le> m" using find_month_sum [OF md] by simp
qed

lemma civil_date_inj:
  assumes "civil_date n = civil_date n'"
  shows "n = n'"
proof -
  obtain y r where y: "find_year 1970 n = (y, r)" by (cases "find_year 1970 n")
  obtain y' r' where y': "find_year 1970 n' = (y', r')" by (cases "find_year 1970 n'")
  obtain m d where md: "find_month (month_lengths y) 1 r = (m, d)"
    by (cases "find_month (month_lengths y) 1 r")
  obtain m' d' where md': "find_month (month_lengths y') 1 r' = (m', d')"
    by (cases "find_month (month_lengths y') 1 r'")
  have eq: "y = y'" "m = m'" "d = d'"
    using assms y y' md md' by (auto simp: civil_date_def)
  then have "r = r'" using find_month_sum [OF md] find_month_sum [OF md'] by simp
  then show ?thesis using find_year_sum [OF y] find_year_sum [OF y'] eq(1) by simp
qed

lemma digit_char_inj: "a < 10 \<Longrightarrow> b < 10 \<Longrightarrow> digit_char a = digit_char b \<Longrightarrow> a = b"
  by (metis digit_char_simps(2))

lemma pad2_inj:
  assumes "a < 100" and "b < 100" and "pad2 a = pad2 b"
  shows "a = b"
proof -
  have "a div 10 mod 10 = b div 10 mod 10" and "a mod 10 = b mod 10"
    using assms(3) digit_char_inj by (auto simp: pad2_def)
  then have "a div 10 = b div 10" using assms(1,2) by simp
  then show ?thesis using \<open>a mod 10 = b mod 10\<close> by (metis div_mult_mod_eq)
qed

lemma date_text_inj:
  assumes "date_text s = date_text t"
  shows "nat (s div day) = nat (t div day)"
proof -
  obtain y m d where c: "civil_date (nat (s div day)) = (y, m, d)" by (metis prod_cases3)
  obtain y' m' d' where c': "civil_date (nat (t div day)) = (y', m', d')" by (metis prod_cases3)
  have eq: "show_nat y @ pad2 m @ pad2 d = show_nat y' @ pad2 m' @ pad2 d'"
    using assms c c' by (simp add: date_text_def)
  have "length (pad2 m @ pad2 d) = length (pad2 m' @ pad2 d')" by (simp add: pad2_def)
  then have yy: "show_nat y = show_nat y'" and md: "pad2 m @ pad2 d = pad2 m' @ pad2 d'"
    using eq by (auto simp: append_eq_append_conv)
  have "pad2 m = pad2 m'" "pad2 d = pad2 d'" using md by (auto simp: pad2_def)
  then have "m = m'" "d = d'"
    using pad2_inj civil_date_bounds [OF c] civil_date_bounds [OF c'] by auto
  then have "civil_date (nat (s div day)) = civil_date (nat (t div day))"
    using c c' show_nat_inj [OF yy] by simp
  then show ?thesis by (rule civil_date_inj)
qed

lemma date_text_no_colon [simp]: "CHR '':'' \<notin> set (date_text t)"
proof -
  have digit: "is_digit c" if "c \<in> set (date_text t)" for c
    using that show_nat_digits
    by (auto simp: date_text_def pad2_def split: prod.splits)
  show ?thesis using digit [of "CHR '':''"] by (auto simp: is_digit_def code_of_def)
qed

lemma seconds_until_day_end_pos: "1 \<le> seconds_until_day_end t"
  by (simp add: seconds_until_day_end_def Let_def)

text \<open>The time to live of a daily counter never outlives the day by a whole second.\<close>

lemma seconds_until_day_end_bound:
  "seconds_until_day_end t \<le> 86399" "t + (seconds_until_day_end t - 1) * second < utc_day_start t + day"
proof -
  have m: "t mod day = t - utc_day_start t"
    by (simp add: utc_day_start_def minus_div_mult_eq_mod)
  have b: "0 \<le> t mod day" "t mod day < day" by (simp_all add: day_def second_def)
  have "seconds_until_day_end t = 1 \<or>
        (0 \<le> utc_day_start t + 86399 * second - t \<and>
         seconds_until_day_end t = (utc_day_start t + 86399 * second - t) div second)"
    by (auto simp: seconds_until_day_end_def Let_def max_def second_def)
  then show "seconds_until_day_end t \<le> 86399"
    and "t + (seconds_until_day_end t - 1) * second < utc_day_start t + day"
    using m b by (auto simp: day_def second_def)
qed

end
