(* ===== verification/LimitsService.thy ===== *)
theory LimitsService
  imports Repositories PyTime
begin

text \<open>
  \<open>payments_api/services/limits_service.py\<close>: the amount, daily and velocity limits of a rail.
  The policy comes from a Redis cache or the table; the daily total and the velocity window live
  in Redis, with the payments table as the fallback when Redis fails.
\<close>

record limits_evaluation =
  le_policy :: limits_policy_dto
  le_velocity_count :: int

definition policy_of_row :: "limits_policy_row \<Rightarrow> limits_policy_dto" where
  "policy_of_row e =
     \<lparr>lp_rail = lr_rail e, lp_min_amount = lr_min_amount e, lp_max_amount = lr_max_amount e,
      lp_daily_limit_amount = lr_daily_limit_amount e,
      lp_velocity_limit_count = lr_velocity_limit_count e,
      lp_velocity_window_seconds = lr_velocity_window_seconds e\<rparr>"

text \<open>The cached policy, \<open>None\<close> on a miss, a Redis error or a text that does not validate.\<close>

definition cached_policy :: "'e outside \<Rightarrow> payment_method \<Rightarrow> ('e, 'm, limits_policy_dto option) act" where
  "cached_policy env rail =
     catch_if (\<lambda>x. is_redis_error x \<or> is_validation_error x)
       (bindM (redis (o_get env (limits_policy_key rail))) (\<lambda>cached.
        case cached of
          None \<Rightarrow> ret None
        | Some text \<Rightarrow>
            if text = [] then ret None
            else (case o_policy_of_json env text of
                    None \<Rightarrow> raise (PydanticValidationError ''LimitsPolicyDTO'')
                  | Some policy \<Rightarrow> ret (Some policy))))
       (\<lambda>_. ret None)"

definition get_policy :: "'e outside \<Rightarrow> int \<Rightarrow> payment_method \<Rightarrow> ('e, 'm, limits_policy_dto) act" where
  "get_policy env cache_ttl_seconds rail =
     bindM (cached_policy env rail) (\<lambda>hit.
     case hit of
       Some policy \<Rightarrow> ret policy
     | None \<Rightarrow>
         bindM (get_by_rail env rail) (\<lambda>entity.
         case entity of
           None \<Rightarrow> raise (ValidationAppError (''Missing limits policy for rail '' @ method_value rail))
         | Some row \<Rightarrow>
             (let policy = policy_of_row row in
              bindM (catch_if is_redis_error
                       (redis (o_set env (limits_policy_key rail) (o_policy_to_json env policy)
                                 cache_ttl_seconds))
                       (\<lambda>_. ret ())) (\<lambda>_.
              ret policy))))"

definition enforce_transaction_amount :: "limits_policy_dto \<Rightarrow> decimal \<Rightarrow> exn + unit" where
  "enforce_transaction_amount policy amount =
     (if dec_lt amount (lp_min_amount policy)
      then Inl (LimitExceededError (''Amount below min limit for '' @ method_value (lp_rail policy)))
      else if dec_lt (lp_max_amount policy) amount
      then Inl (LimitExceededError (''Amount above max limit for '' @ method_value (lp_rail policy)))
      else Inr ())"

definition as_cents :: "decimal \<Rightarrow> int" where
  "as_cents amount = dec_to_int (dec_to_integral (dec_mul amount (Dec 100 0)))"

text \<open>\<open>int(raw_value or "0")\<close>\<close>

definition int_or_zero :: "string option \<Rightarrow> exn + int" where
  "int_or_zero raw =
     (let text = (case raw of None \<Rightarrow> ''0'' | Some t \<Rightarrow> if t = [] then ''0'' else t)
      in case py_int text of
           None \<Rightarrow> Inl (ValueError ''invalid literal for int()'')
         | Some n \<Rightarrow> Inr n)"

definition redis_get_int :: "'e outside \<Rightarrow> string \<Rightarrow> ('e, 'm, int) act" where
  "redis_get_int env key =
     bindM (redis (o_get env key)) (\<lambda>raw. from_result (int_or_zero raw))"

definition daily_limit_exceeded :: "payment_method \<Rightarrow> exn" where
  "daily_limit_exceeded rail = LimitExceededError (''Daily limit exceeded for rail '' @ method_value rail)"

definition velocity_limit_exceeded :: "payment_method \<Rightarrow> exn" where
  "velocity_limit_exceeded rail =
     LimitExceededError (''Velocity limit exceeded for rail '' @ method_value rail)"

text \<open>
  The reservation in Redis.  \<open>True\<close>: it was made.  \<open>False\<close>: Redis failed or holds no number,
  and the caller falls back to the table.
\<close>

definition reserve_daily ::
  "'e outside \<Rightarrow> string \<Rightarrow> payment_method \<Rightarrow> int \<Rightarrow> int \<Rightarrow> ('e, 'm, bool) act" where
  "reserve_daily env redis_key rail amount_cents limit_cents =
     catch_if (\<lambda>x. is_redis_error x \<or> is_value_error x)
       (bindM (redis_get_int env redis_key) (\<lambda>current.
        let projected = current + amount_cents in
        if limit_cents < projected then raise (daily_limit_exceeded rail)
        else bindM (outside (o_now env)) (\<lambda>now.
             bindM (redis (o_set env redis_key (show_int projected) (seconds_until_day_end now))) (\<lambda>_.
             ret True))))
       (\<lambda>_. ret False)"

definition enforce_daily_limit ::
  "'e outside \<Rightarrow> string \<Rightarrow> payment_method \<Rightarrow> decimal \<Rightarrow> limits_policy_dto \<Rightarrow> ('e, 'm, unit) act" where
  "enforce_daily_limit env customer_id rail amount policy =
     bindM (outside (o_now env)) (\<lambda>now.
     bindM (reserve_daily env (limits_daily_key (date_text now) customer_id rail) rail
              (as_cents amount) (as_cents (lp_daily_limit_amount policy))) (\<lambda>reserved.
     if reserved then ret ()
     else bindM (outside (o_now env)) (\<lambda>later.
          bindM (sum_outgoing_since env customer_id rail (utc_day_start later)) (\<lambda>total.
          if dec_lt (lp_daily_limit_amount policy) (dec_add total amount)
          then raise (daily_limit_exceeded rail)
          else ret ()))))"

text \<open>The sliding window in Redis; \<open>None\<close> when Redis failed.\<close>

definition slide_window ::
  "'e outside \<Rightarrow> string \<Rightarrow> payment_method \<Rightarrow> limits_policy_dto \<Rightarrow> moment \<Rightarrow> moment \<Rightarrow>
   ('e, 'm, int option) act" where
  "slide_window env redis_key rail policy now window_start =
     catch_if is_redis_error
       (bindM (redis (o_zremrangebyscore env redis_key 0 window_start)) (\<lambda>_.
        bindM (redis (o_zcard env redis_key)) (\<lambda>count.
        if lp_velocity_limit_count policy \<le> count then raise (velocity_limit_exceeded rail)
        else bindM (redis (o_zadd env redis_key (o_float_text env now @ ''-'' @ show_int count) now)) (\<lambda>_.
             bindM (redis (o_expire env redis_key (lp_velocity_window_seconds policy))) (\<lambda>_.
             ret (Some (count + 1)))))))
       (\<lambda>_. ret None)"

definition enforce_velocity_limit ::
  "'e outside \<Rightarrow> string \<Rightarrow> payment_method \<Rightarrow> limits_policy_dto \<Rightarrow> ('e, 'm, int) act" where
  "enforce_velocity_limit env customer_id rail policy =
     bindM (outside (o_now env)) (\<lambda>now.
     let window_start = now - lp_velocity_window_seconds policy * second in
     bindM (slide_window env (limits_velocity_key customer_id rail) rail policy now window_start) (\<lambda>slid.
     case slid of
       Some n \<Rightarrow> ret n
     | None \<Rightarrow>
         bindM (count_outgoing_since env customer_id rail window_start) (\<lambda>count.
         if lp_velocity_limit_count policy \<le> count then raise (velocity_limit_exceeded rail)
         else ret (count + 1))))"

definition limits_enforce ::
  "'e outside \<Rightarrow> int \<Rightarrow> string \<Rightarrow> payment_method \<Rightarrow> decimal \<Rightarrow> ('e, 'm, limits_evaluation) act" where
  "limits_enforce env cache_ttl_seconds customer_id rail amount =
     bindM (get_policy env cache_ttl_seconds rail) (\<lambda>policy.
     bindM (from_result (enforce_transaction_amount policy amount)) (\<lambda>_.
     bindM (enforce_daily_limit env customer_id rail amount policy) (\<lambda>_.
     bindM (enforce_velocity_limit env customer_id rail policy) (\<lambda>velocity_count.
     ret \<lparr>le_policy = policy, le_velocity_count = velocity_count\<rparr>))))"

lemmas limits_defs =
  cached_policy_def get_policy_def redis_get_int_def reserve_daily_def enforce_daily_limit_def
  slide_window_def enforce_velocity_limit_def limits_enforce_def

section \<open>What a check raises\<close>

text \<open>A limits check raises a refusal of the caller, never a Redis or parsing error.\<close>

definition limits_refusal :: "exn \<Rightarrow> bool" where
  "limits_refusal x \<longleftrightarrow>
     is_limit_exceeded x \<or> (\<exists>m. x = ValidationAppError m) \<or> x = MultipleResultsFound"

lemma raises_get_policy: "raises limits_refusal (get_policy env ttl rail)"
  unfolding get_policy_def cached_policy_def get_by_rail_def
  by (intro raises_intros raises_catch_if raises_redis raises_scalar raises_raise)
     (auto simp: limits_refusal_def)

lemma raises_redis_get_int:
  "(\<And>m. C (RedisError m)) \<Longrightarrow> (\<And>m. C (ValueError m)) \<Longrightarrow> raises C (redis_get_int env key)"
  unfolding redis_get_int_def
  by (intro raises_intros raises_redis raises_from_result)
     (auto simp: int_or_zero_def Let_def split: option.splits)

lemma raises_enforce_daily_limit: "raises limits_refusal (enforce_daily_limit env cid rail amount policy)"
  unfolding enforce_daily_limit_def reserve_daily_def sum_outgoing_since_def
  by (intro raises_intros raises_catch_if raises_redis raises_redis_get_int raises_raise)
     (auto simp: limits_refusal_def daily_limit_exceeded_def)

lemma raises_enforce_velocity_limit: "raises limits_refusal (enforce_velocity_limit env cid rail policy)"
  unfolding enforce_velocity_limit_def slide_window_def count_outgoing_since_def
  by (intro raises_intros raises_catch_if raises_redis raises_raise)
     (auto simp: limits_refusal_def velocity_limit_exceeded_def)

lemma raises_enforce_transaction_amount:
  "enforce_transaction_amount policy amount = Inl x \<Longrightarrow> limits_refusal x"
  by (auto simp: enforce_transaction_amount_def limits_refusal_def split: if_splits)

lemma raises_limits_enforce: "raises limits_refusal (limits_enforce env ttl cid rail amount)"
  unfolding limits_enforce_def
  by (intro raises_intros raises_get_policy raises_from_result raises_enforce_daily_limit
      raises_enforce_velocity_limit raises_enforce_transaction_amount)

section \<open>What a passed check means\<close>

lemma enforce_transaction_amount_iff:
  "enforce_transaction_amount policy amount = Inr () \<longleftrightarrow>
     dec_le (lp_min_amount policy) amount \<and> dec_le amount (lp_max_amount policy)"
  by (auto simp: enforce_transaction_amount_def dec_lt_val dec_le_val)

lemma enforce_velocity_limit_within:
  "triple (\<lambda>_. True) (enforce_velocity_limit env cid rail policy)
     (\<lambda>n _. n \<le> lp_velocity_limit_count policy) (\<lambda>_ _. True)"
proof -
  have slide: "triple (\<lambda>_. True) (slide_window env key rail policy now start)
     (\<lambda>r _. case r of None \<Rightarrow> True | Some n \<Rightarrow> n \<le> lp_velocity_limit_count policy) (\<lambda>_ _. True)"
    for key now start
    unfolding slide_window_def
    by (auto simp: triple_def catch_if_def catch_def bindM_def split: prod.splits sum.splits)
  show ?thesis
    unfolding enforce_velocity_limit_def Let_def count_outgoing_since_def
    by (rule triple_bindM [where R = "\<lambda>_ _. True"], simp add: triple_def split: prod.splits sum.splits,
        rule triple_bindM [OF slide])
       (auto simp: triple_def bindM_def split: option.splits prod.splits sum.splits)
qed

lemma limits_enforce_Inr:
  assumes "limits_enforce env ttl cid rail amount w = (Inr ev, w')"
  shows "dec_le (lp_min_amount (le_policy ev)) amount \<and> dec_le amount (lp_max_amount (le_policy ev))
    \<and> le_velocity_count ev \<le> lp_velocity_limit_count (le_policy ev)"
proof -
  obtain policy w1 where "get_policy env ttl rail w = (Inr policy, w1)"
    and 1: "bindM (from_result (enforce_transaction_amount policy amount)) (\<lambda>_.
      bindM (enforce_daily_limit env cid rail amount policy) (\<lambda>_.
      bindM (enforce_velocity_limit env cid rail policy) (\<lambda>n.
      ret \<lparr>le_policy = policy, le_velocity_count = n\<rparr>))) w1 = (Inr ev, w')"
    using assms unfolding limits_enforce_def by (rule bindM_elim)
  from 1 obtain u w2 where a: "from_result (enforce_transaction_amount policy amount) w1 = (Inr u, w2)"
    and 2: "bindM (enforce_daily_limit env cid rail amount policy) (\<lambda>_.
      bindM (enforce_velocity_limit env cid rail policy) (\<lambda>n.
      ret \<lparr>le_policy = policy, le_velocity_count = n\<rparr>)) w2 = (Inr ev, w')"
    by (rule bindM_elim)
  from 2 obtain v w3 where 3: "bindM (enforce_velocity_limit env cid rail policy) (\<lambda>n.
      ret \<lparr>le_policy = policy, le_velocity_count = n\<rparr>) w3 = (Inr ev, w')"
    by (rule bindM_elim)
  from 3 obtain n w4 where n: "enforce_velocity_limit env cid rail policy w3 = (Inr n, w4)"
    and ev: "ev = \<lparr>le_policy = policy, le_velocity_count = n\<rparr>"
    by (rule bindM_elim) auto
  have "n \<le> lp_velocity_limit_count policy"
    using tripleD_Inr [OF enforce_velocity_limit_within TrueI n] .
  moreover have "enforce_transaction_amount policy amount = Inr ()"
    using a by (cases "enforce_transaction_amount policy amount") (auto simp: from_result_def)
  ultimately show ?thesis using ev enforce_transaction_amount_iff by auto
qed

section \<open>The daily counter in a working Redis\<close>

text \<open>A sequence of checks of one customer on one rail; the amounts that passed.\<close>

primrec daily_run ::
  "'e outside \<Rightarrow> string \<Rightarrow> payment_method \<Rightarrow> limits_policy_dto \<Rightarrow> decimal list \<Rightarrow>
   ('e, 'm) world_scheme \<Rightarrow> decimal list \<times> ('e, 'm) world_scheme" where
  "daily_run env cid rail policy [] w = ([], w)"
| "daily_run env cid rail policy (a # as) w =
     (case enforce_daily_limit env cid rail a policy w of
        (Inl x, w1) \<Rightarrow> daily_run env cid rail policy as w1
      | (Inr u, w1) \<Rightarrow>
          (case daily_run env cid rail policy as w1 of (passed, w2) \<Rightarrow> (a # passed, w2)))"

text \<open>
  What the reservation relies on: a key-value store whose \<open>GET\<close> returns what the last \<open>SET\<close>
  stored, while the clock stays on one day (\<open>on_day\<close> is the set of outside states of that day,
  \<open>val\<close> reads a key).  Inside the contract the counter of a customer and rail is exactly the
  sum of the reservations and never passes the limit.
\<close>

locale daily_store =
  fixes env :: "'e outside"
    and on_day :: "'e \<Rightarrow> bool"
    and today :: string
    and val :: "string \<Rightarrow> 'e \<Rightarrow> string option"
  assumes now_day: "on_day e \<Longrightarrow> o_now env e = (t, e') \<Longrightarrow>
      date_text t = today \<and> on_day e' \<and> (\<forall>j. val j e' = val j e)"
    and get_val: "on_day e \<Longrightarrow> o_get env k e = (r, e') \<Longrightarrow>
      r = Inr (val k e) \<and> on_day e' \<and> (\<forall>j. val j e' = val j e)"
    and set_val: "on_day e \<Longrightarrow> 0 < ttl \<Longrightarrow> o_set env k v ttl e = (q, e') \<Longrightarrow>
      q = Inr () \<and> on_day e' \<and> (\<forall>j. val j e' = (if j = k then Some v else val j e))"
begin

lemma reserve_daily_run:
  assumes "on_day (w_out w)" and "int_or_zero (val key (w_out w)) = Inr n"
  shows "limit < n + cents \<Longrightarrow>
      \<exists>e. reserve_daily env key rail cents limit w = (Inl (daily_limit_exceeded rail), w\<lparr>w_out := e\<rparr>) \<and>
          on_day e \<and> (\<forall>j. val j e = val j (w_out w))"
    and "n + cents \<le> limit \<Longrightarrow>
      \<exists>e. reserve_daily env key rail cents limit w = (Inr True, w\<lparr>w_out := e\<rparr>) \<and>
          on_day e \<and> (\<forall>j. val j e = (if j = key then Some (show_int (n + cents)) else val j (w_out w)))"
proof -
  obtain r e1 where g: "o_get env key (w_out w) = (r, e1)" by (cases "o_get env key (w_out w)")
  obtain t e2 where c: "o_now env e1 = (t, e2)" by (cases "o_now env e1")
  obtain s e3 where p: "o_set env key (show_int (n + cents)) (seconds_until_day_end t) e2 = (s, e3)"
    by (cases "o_set env key (show_int (n + cents)) (seconds_until_day_end t) e2")
  have r: "r = Inr (val key (w_out w))" "on_day e1" "\<forall>j. val j e1 = val j (w_out w)"
    using get_val [OF assms(1) g] by auto
  have c2: "on_day e2" "\<forall>j. val j e2 = val j e1" using now_day [OF r(2) c] by auto
  have "0 < seconds_until_day_end t" using seconds_until_day_end_pos [of t] by simp
  from set_val [OF c2(1) this p]
  have s: "s = Inr ()" "on_day e3"
    "\<forall>j. val j e3 = (if j = key then Some (show_int (n + cents)) else val j e2)" by auto
  have rd: "redis_get_int env key w = (Inr n, w\<lparr>w_out := e1\<rparr>)"
    using g r(1) assms(2) by (simp add: redis_get_int_def bindM_def redis_def from_result_def)
  show "limit < n + cents \<Longrightarrow>
      \<exists>e. reserve_daily env key rail cents limit w = (Inl (daily_limit_exceeded rail), w\<lparr>w_out := e\<rparr>) \<and>
          on_day e \<and> (\<forall>j. val j e = val j (w_out w))"
    using r by (intro exI [of _ e1])
      (simp add: reserve_daily_def catch_if_def catch_def bindM_def rd daily_limit_exceeded_def
        is_redis_error_def is_value_error_def)
  show "n + cents \<le> limit \<Longrightarrow>
      \<exists>e. reserve_daily env key rail cents limit w = (Inr True, w\<lparr>w_out := e\<rparr>) \<and>
          on_day e \<and> (\<forall>j. val j e = (if j = key then Some (show_int (n + cents)) else val j (w_out w)))"
    using r c c2 p s by (intro exI [of _ e3])
      (simp add: reserve_daily_def catch_if_def catch_def bindM_def rd outside_def redis_def)
qed

lemma enforce_daily_limit_run:
  assumes "on_day (w_out w)" and "int_or_zero (val (limits_daily_key today cid rail) (w_out w)) = Inr n"
  shows "as_cents (lp_daily_limit_amount policy) < n + as_cents amount \<Longrightarrow>
      \<exists>e. enforce_daily_limit env cid rail amount policy w =
            (Inl (daily_limit_exceeded rail), w\<lparr>w_out := e\<rparr>) \<and>
          on_day e \<and> (\<forall>j. val j e = val j (w_out w))"
    and "n + as_cents amount \<le> as_cents (lp_daily_limit_amount policy) \<Longrightarrow>
      \<exists>e. enforce_daily_limit env cid rail amount policy w = (Inr (), w\<lparr>w_out := e\<rparr>) \<and>
          on_day e \<and> (\<forall>j. val j e = (if j = limits_daily_key today cid rail
             then Some (show_int (n + as_cents amount)) else val j (w_out w)))"
proof -
  let ?key = "limits_daily_key today cid rail"
  obtain t e1 where c: "o_now env (w_out w) = (t, e1)" by (cases "o_now env (w_out w)")
  have t: "date_text t = today" "on_day e1" "\<forall>j. val j e1 = val j (w_out w)"
    using now_day [OF assms(1) c] by auto
  have now: "outside (o_now env) w = (Inr t, w\<lparr>w_out := e1\<rparr>)"
    using c by (simp add: outside_def)
  have pre: "on_day (w_out (w\<lparr>w_out := e1\<rparr>))"
    "int_or_zero (val ?key (w_out (w\<lparr>w_out := e1\<rparr>))) = Inr n"
    using t assms(2) by auto
  note run = reserve_daily_run [OF pre, where limit = "as_cents (lp_daily_limit_amount policy)"
      and cents = "as_cents amount" and rail = rail]
  show "as_cents (lp_daily_limit_amount policy) < n + as_cents amount \<Longrightarrow>
      \<exists>e. enforce_daily_limit env cid rail amount policy w =
            (Inl (daily_limit_exceeded rail), w\<lparr>w_out := e\<rparr>) \<and>
          on_day e \<and> (\<forall>j. val j e = val j (w_out w))"
    using run(1) t by (auto simp: enforce_daily_limit_def bindM_def now)
  show "n + as_cents amount \<le> as_cents (lp_daily_limit_amount policy) \<Longrightarrow>
      \<exists>e. enforce_daily_limit env cid rail amount policy w = (Inr (), w\<lparr>w_out := e\<rparr>) \<and>
          on_day e \<and> (\<forall>j. val j e = (if j = ?key
             then Some (show_int (n + as_cents amount)) else val j (w_out w)))"
    using run(2) t by (auto simp: enforce_daily_limit_def bindM_def now)
qed

lemma int_or_zero_show [simp]: "int_or_zero (Some (show_int n)) = Inr n"
proof -
  have "show_int n \<noteq> []" by (simp add: show_int_def)
  then show ?thesis by (simp add: int_or_zero_def)
qed

lemma daily_run_sum:
  assumes "on_day (w_out w)" and "int_or_zero (val (limits_daily_key today cid rail) (w_out w)) = Inr n"
    and "daily_run env cid rail policy amounts w = (passed, w')"
  shows "int_or_zero (val (limits_daily_key today cid rail) (w_out w')) = Inr (n + (\<Sum>a\<leftarrow>passed. as_cents a))
    \<and> (passed \<noteq> [] \<longrightarrow> n + (\<Sum>a\<leftarrow>passed. as_cents a) \<le> as_cents (lp_daily_limit_amount policy))"
  using assms
proof (induction amounts arbitrary: w n passed)
  case Nil
  then show ?case by simp
next
  case (Cons a as)
  let ?key = "limits_daily_key today cid rail" and ?limit = "as_cents (lp_daily_limit_amount policy)"
  show ?case
  proof (cases "n + as_cents a \<le> ?limit")
    case True
    from enforce_daily_limit_run(2) [OF Cons.prems(1,2) True] obtain e where
      e: "enforce_daily_limit env cid rail a policy w = (Inr (), w\<lparr>w_out := e\<rparr>)" "on_day e"
        "val ?key e = Some (show_int (n + as_cents a))" by auto
    obtain rest where rest: "daily_run env cid rail policy as (w\<lparr>w_out := e\<rparr>) = (rest, w')"
      and p: "passed = a # rest" using Cons.prems(3) e(1) by (auto split: prod.splits)
    show ?thesis using Cons.IH [OF _ _ rest, of "n + as_cents a"] e p True
      by (cases rest) (auto simp: add.assoc)
  next
    case False
    then have "?limit < n + as_cents a" by simp
    from enforce_daily_limit_run(1) [OF Cons.prems(1,2) this] obtain e where
      e: "enforce_daily_limit env cid rail a policy w = (Inl (daily_limit_exceeded rail), w\<lparr>w_out := e\<rparr>)"
        "on_day e" "val ?key e = val ?key (w_out w)" by auto
    then have "daily_run env cid rail policy as (w\<lparr>w_out := e\<rparr>) = (passed, w')"
      using Cons.prems(3) by simp
    from Cons.IH [OF _ _ this] show ?thesis using e Cons.prems(2) by simp
  qed
qed

end

end
