(* ===== verification/RateLimiter.thy ===== *)
theory RateLimiter
  imports Repositories PyTime
begin

text \<open>
  \<open>payments_api/services/rate_limiter_service.py\<close>: fixed windows counted in Redis, one counter
  for the merchant, one for the customer and one for the account, checked in this order.
\<close>

record rate_limiter =
  rl_merchant_limit :: int
  rl_customer_limit :: int
  rl_account_limit :: int
  rl_window_seconds :: int

definition rate_allow ::
  "'e outside \<Rightarrow> rate_limiter \<Rightarrow> rate_limit_dimension \<Rightarrow> string \<Rightarrow> int \<Rightarrow> int \<Rightarrow> ('e, 'm, bool) act" where
  "rate_allow env rl dimension value bucket limit =
     (let key = rate_limit_key dimension value bucket in
      catch_if is_redis_error
        (bindM (redis (o_incr env key)) (\<lambda>current.
         bindM (if current = 1 then redis (o_expire env key (rl_window_seconds rl)) else ret ()) (\<lambda>_.
         ret (current \<le> limit))))
        (\<lambda>_. ret True))"

definition rate_checks ::
  "rate_limiter \<Rightarrow> string \<Rightarrow> string \<Rightarrow> string \<Rightarrow> (rate_limit_dimension \<times> string \<times> int) list" where
  "rate_checks rl merchant_id customer_id account_id =
     [(MERCHANT, merchant_id, rl_merchant_limit rl),
      (CUSTOMER, customer_id, rl_customer_limit rl),
      (ACCOUNT, account_id, rl_account_limit rl)]"

definition rate_enforce ::
  "'e outside \<Rightarrow> rate_limiter \<Rightarrow> string \<Rightarrow> string \<Rightarrow> string \<Rightarrow> ('e, 'm, unit) act" where
  "rate_enforce env rl merchant_id customer_id account_id =
     bindM (outside (o_now env)) (\<lambda>now.
     let bucket = now div (rl_window_seconds rl * second) in
     forM (rate_checks rl merchant_id customer_id account_id) (\<lambda>(dimension, value, limit).
       bindM (rate_allow env rl dimension value bucket limit) (\<lambda>ok.
       if \<not> ok
       then raise (RateLimitedError (''Rate limited by '' @ dimension_value dimension) dimension)
       else ret ())))"

section \<open>Failures of Redis\<close>

lemma raises_rate_enforce:
  "raises (\<lambda>x. \<exists>m d. x = RateLimitedError m d) (rate_enforce env rl m c a)"
proof -
  have allow: "raises C (rate_allow env rl d v b l)" for C d v b l
    unfolding rate_allow_def Let_def
    by (intro raises_catch_if raises_intros raises_redis) simp_all
  show ?thesis
    unfolding rate_enforce_def rate_checks_def forM.simps Let_def
    by (intro raises_intros) (auto intro!: raises_intros raises_raise allow)
qed

text \<open>With Redis down every request passes.\<close>

lemma rate_allow_redis_down:
  assumes "o_incr env (rate_limit_key d v b) (w_out w) = (Inl msg, e)"
  shows "rate_allow env rl d v b l w = (Inr True, w\<lparr>w_out := e\<rparr>)"
  using assms
  by (simp add: rate_allow_def catch_if_def catch_def bindM_def redis_def Let_def)

section \<open>A working counter\<close>

text \<open>
  What the limiter relies on: \<open>INCR\<close> adds one to the counter of its key and returns the new
  value, \<open>EXPIRE\<close> and the clock leave the counters of the current window alone.
  \<open>live\<close> is the set of outside states of that window, \<open>count\<close> reads a counter.
\<close>

locale window_counter =
  fixes env :: "'e outside"
    and live :: "'e \<Rightarrow> bool"
    and count :: "string \<Rightarrow> 'e \<Rightarrow> int"
  assumes incr_count: "live e \<Longrightarrow> o_incr env k e = (r, e') \<Longrightarrow>
      r = Inr (count k e + 1) \<and> live e' \<and> (\<forall>j. count j e' = (if j = k then count k e + 1 else count j e))"
    and expire_count: "live e \<Longrightarrow> 0 < ttl \<Longrightarrow> o_expire env k ttl e = (q, e') \<Longrightarrow>
      q = Inr () \<and> live e' \<and> (\<forall>j. count j e' = count j e)"
begin

lemma rate_allow_counts:
  assumes "live (w_out w)" and "0 < rl_window_seconds rl"
  shows "\<exists>e. rate_allow env rl d v b limit w =
      (Inr (count (rate_limit_key d v b) (w_out w) + 1 \<le> limit), w\<lparr>w_out := e\<rparr>) \<and> live e \<and>
      (\<forall>j. count j e = (if j = rate_limit_key d v b then count j (w_out w) + 1 else count j (w_out w)))"
proof -
  let ?key = "rate_limit_key d v b"
  obtain r e1 where i: "o_incr env ?key (w_out w) = (r, e1)" by (cases "o_incr env ?key (w_out w)")
  have r: "r = Inr (count ?key (w_out w) + 1)" "live e1"
    "\<forall>j. count j e1 = (if j = ?key then count ?key (w_out w) + 1 else count j (w_out w))"
    using incr_count [OF assms(1) i] by auto
  obtain q e2 where x: "o_expire env ?key (rl_window_seconds rl) e1 = (q, e2)"
    by (cases "o_expire env ?key (rl_window_seconds rl) e1")
  have q: "q = Inr ()" "live e2" "\<forall>j. count j e2 = count j e1"
    using expire_count [OF r(2) assms(2) x] by auto
  show ?thesis
  proof (cases "count ?key (w_out w) + 1 = 1")
    case True
    then show ?thesis using i x r q
      by (intro exI [of _ e2]) (simp add: rate_allow_def catch_if_def catch_def bindM_def redis_def Let_def)
  next
    case False
    then show ?thesis using i r
      by (intro exI [of _ e1]) (simp add: rate_allow_def catch_if_def catch_def bindM_def redis_def Let_def)
  qed
qed

text \<open>
  A request that the limiter passes used one unit of each of the three budgets, and the
  merchant's budget was not exhausted before it.
\<close>

lemma allowed_request_within_budgets:
  assumes "live (w_out w)" and "0 < rl_window_seconds rl"
    and "\<And>e t e'. live e \<Longrightarrow> o_now env e = (t, e') \<Longrightarrow>
       live e' \<and> t div (rl_window_seconds rl * second) = bucket \<and> (\<forall>j. count j e' = count j e)"
    and "rate_enforce env rl m c a w = (Inr (), w')"
  shows "live (w_out w') \<and>
     count (rate_limit_key MERCHANT m bucket) (w_out w') = count (rate_limit_key MERCHANT m bucket) (w_out w) + 1 \<and>
     count (rate_limit_key MERCHANT m bucket) (w_out w') \<le> rl_merchant_limit rl \<and>
     count (rate_limit_key CUSTOMER c bucket) (w_out w') = count (rate_limit_key CUSTOMER c bucket) (w_out w) + 1 \<and>
     count (rate_limit_key CUSTOMER c bucket) (w_out w') \<le> rl_customer_limit rl \<and>
     count (rate_limit_key ACCOUNT a bucket) (w_out w') = count (rate_limit_key ACCOUNT a bucket) (w_out w) + 1 \<and>
     count (rate_limit_key ACCOUNT a bucket) (w_out w') \<le> rl_account_limit rl"
proof -
  let ?km = "rate_limit_key MERCHANT m bucket" and ?kc = "rate_limit_key CUSTOMER c bucket"
    and ?ka = "rate_limit_key ACCOUNT a bucket"
  have ne: "?km \<noteq> ?kc" "?km \<noteq> ?ka" "?kc \<noteq> ?ka"
    using rate_limit_key_inj by (metis rate_limit_dimension.distinct)+
  obtain t e0 where n: "o_now env (w_out w) = (t, e0)" by (cases "o_now env (w_out w)")
  have e0: "live e0" "t div (rl_window_seconds rl * second) = bucket" "\<forall>j. count j e0 = count j (w_out w)"
    using assms(3) [OF assms(1) n] by auto
  have "live (w_out (w\<lparr>w_out := e0\<rparr>))" using e0 by simp
  from rate_allow_counts [OF this assms(2), of MERCHANT m bucket "rl_merchant_limit rl"] obtain e1 where
    s1: "rate_allow env rl MERCHANT m bucket (rl_merchant_limit rl) (w\<lparr>w_out := e0\<rparr>) =
        (Inr (count ?km e0 + 1 \<le> rl_merchant_limit rl), w\<lparr>w_out := e1\<rparr>)"
    and e1: "live e1" "\<forall>j. count j e1 = (if j = ?km then count j e0 + 1 else count j e0)" by auto
  have "live (w_out (w\<lparr>w_out := e1\<rparr>))" using e1 by simp
  from rate_allow_counts [OF this assms(2), of CUSTOMER c bucket "rl_customer_limit rl"] obtain e2 where
    s2: "rate_allow env rl CUSTOMER c bucket (rl_customer_limit rl) (w\<lparr>w_out := e1\<rparr>) =
        (Inr (count ?kc e1 + 1 \<le> rl_customer_limit rl), w\<lparr>w_out := e2\<rparr>)"
    and e2: "live e2" "\<forall>j. count j e2 = (if j = ?kc then count j e1 + 1 else count j e1)" by auto
  have "live (w_out (w\<lparr>w_out := e2\<rparr>))" using e2 by simp
  from rate_allow_counts [OF this assms(2), of ACCOUNT a bucket "rl_account_limit rl"] obtain e3 where
    s3: "rate_allow env rl ACCOUNT a bucket (rl_account_limit rl) (w\<lparr>w_out := e2\<rparr>) =
        (Inr (count ?ka e2 + 1 \<le> rl_account_limit rl), w\<lparr>w_out := e3\<rparr>)"
    and e3: "live e3" "\<forall>j. count j e3 = (if j = ?ka then count j e2 + 1 else count j e2)" by auto
  have run: "(if count ?km e0 + 1 \<le> rl_merchant_limit rl \<and> count ?kc e1 + 1 \<le> rl_customer_limit rl \<and>
      count ?ka e2 + 1 \<le> rl_account_limit rl then w' = w\<lparr>w_out := e3\<rparr> else False)"
    using assms(4) n e0(2) s1 s2 s3
    by (auto simp: rate_enforce_def rate_checks_def bindM_def outside_def split: if_splits)
  then show ?thesis using e0 e1 e2 e3 ne by (auto split: if_splits)
qed

end

end
