(* ===== verification/Risk.thy ===== *)
theory Risk
  imports Repositories PyTime
begin

text \<open>
  \<open>payments_api/services/risk_service.py\<close>: five rules score a payment, the sum is capped at
  100 and compared with two thresholds.  The protocol \<open>RiskRule\<close> is the locale
  \<open>risk_rule\<close>: a rule scores between 0 and its weight.  Every rule of the code interprets it,
  and the bounds of the total follow from the contract alone.
\<close>

record risk_context =
  rc_amount :: decimal
  rc_policy_max :: decimal
  rc_velocity_count :: int
  rc_velocity_limit :: int
  rc_repeated_failures :: int
  rc_is_new_customer :: bool
  rc_customer_kyc :: kyc_level
  rc_destination_seen :: bool

definition amount_near_max_rule :: "risk_context \<Rightarrow> int" where
  "amount_near_max_rule c =
     (let threshold = dec_mul (rc_policy_max c) (Dec 9 (-1))
      in if dec_le threshold (rc_amount c) then 25 else 0)"

text \<open>
  \<open>count / limit >= 0.8\<close> on floats.  Both are database integers below \<open>2 ^ 31\<close>, where the
  rounded quotient reaches the float 0.8 exactly when \<open>5 * count >= 4 * limit\<close>.
\<close>

definition velocity_spike_rule :: "risk_context \<Rightarrow> int" where
  "velocity_spike_rule c =
     (if rc_velocity_limit c \<le> 0 then 0
      else if 4 * rc_velocity_limit c \<le> 5 * rc_velocity_count c then 20 else 0)"

definition repeated_failures_rule :: "risk_context \<Rightarrow> int" where
  "repeated_failures_rule c =
     (if 3 \<le> rc_repeated_failures c then 25 else if 1 \<le> rc_repeated_failures c then 10 else 0)"

definition new_customer_low_kyc_rule :: "risk_context \<Rightarrow> int" where
  "new_customer_low_kyc_rule c =
     (if rc_is_new_customer c \<and> rc_customer_kyc c \<in> {KYC_NONE, KYC_BASIC} then 20 else 0)"

definition new_destination_rule :: "risk_context \<Rightarrow> int" where
  "new_destination_rule c = (if \<not> rc_destination_seen c then 15 else 0)"

definition risk_rules :: "(risk_context \<Rightarrow> int) list" where
  "risk_rules = [amount_near_max_rule, velocity_spike_rule, repeated_failures_rule,
     new_customer_low_kyc_rule, new_destination_rule]"

definition risk_total :: "risk_context \<Rightarrow> int" where
  "risk_total c = min 100 (sum_list (map (\<lambda>rule. rule c) risk_rules))"

definition decision_from_score :: "int \<Rightarrow> int \<Rightarrow> int \<Rightarrow> risk_decision" where
  "decision_from_score review_threshold block_threshold score =
     (if block_threshold \<le> score then RISK_BLOCK
      else if review_threshold \<le> score then RISK_REVIEW
      else RISK_ALLOW)"

definition is_new_customer :: "customer_row \<Rightarrow> moment \<Rightarrow> bool" where
  "is_new_customer customer now = (case cu_created_at customer of
       None \<Rightarrow> True
     | Some created_at \<Rightarrow> now - created_at < 7 * day)"

record risk_service =
  ri_review_threshold :: int
  ri_block_threshold :: int

definition risk_evaluate ::
  "'e outside \<Rightarrow> risk_service \<Rightarrow> customer_row \<Rightarrow> decimal \<Rightarrow> limits_policy_dto \<Rightarrow> int \<Rightarrow>
   string option \<Rightarrow> ('e, 'm, int \<times> risk_decision) act" where
  "risk_evaluate env svc customer amount policy velocity_count destination =
     bindM (outside (o_now env)) (\<lambda>now.
     bindM (count_failures_since env (cu_customer_id customer) (now - day)) (\<lambda>repeated_failures.
     bindM (destination_seen env (cu_customer_id customer) destination) (\<lambda>seen.
     let context = \<lparr>rc_amount = amount, rc_policy_max = lp_max_amount policy,
           rc_velocity_count = velocity_count, rc_velocity_limit = lp_velocity_limit_count policy,
           rc_repeated_failures = repeated_failures,
           rc_is_new_customer = is_new_customer customer now,
           rc_customer_kyc = cu_kyc_level customer, rc_destination_seen = seen\<rparr>;
         score = risk_total context
     in ret (score, decision_from_score (ri_review_threshold svc) (ri_block_threshold svc) score))))"

section \<open>The contract of a rule\<close>

locale risk_rule =
  fixes score :: "risk_context \<Rightarrow> int" and weight :: int
  assumes score_nonneg: "0 \<le> score c"
    and score_le_weight: "score c \<le> weight"
begin

lemma weight_nonneg: "0 \<le> weight"
  using score_nonneg score_le_weight order_trans by blast

end

interpretation amount_rule: risk_rule amount_near_max_rule 25
  by unfold_locales (auto simp: amount_near_max_rule_def Let_def)

interpretation velocity_rule: risk_rule velocity_spike_rule 20
  by unfold_locales (auto simp: velocity_spike_rule_def)

interpretation failures_rule: risk_rule repeated_failures_rule 25
  by unfold_locales (auto simp: repeated_failures_rule_def)

interpretation low_kyc_rule: risk_rule new_customer_low_kyc_rule 20
  by unfold_locales (auto simp: new_customer_low_kyc_rule_def)

interpretation destination_rule: risk_rule new_destination_rule 15
  by unfold_locales (auto simp: new_destination_rule_def)

lemmas rule_bounds =
  amount_rule.score_nonneg amount_rule.score_le_weight
  velocity_rule.score_nonneg velocity_rule.score_le_weight
  failures_rule.score_nonneg failures_rule.score_le_weight
  low_kyc_rule.score_nonneg low_kyc_rule.score_le_weight
  destination_rule.score_nonneg destination_rule.score_le_weight

lemma risk_total_eq:
  "risk_total c = min 100 (amount_near_max_rule c + velocity_spike_rule c + repeated_failures_rule c +
     new_customer_low_kyc_rule c + new_destination_rule c)"
  by (simp add: risk_total_def risk_rules_def add.assoc)

lemma risk_total_bounds: "0 \<le> risk_total c \<and> risk_total c \<le> 100"
  using rule_bounds [of c] by (simp add: risk_total_eq)

section \<open>Riskier contexts\<close>

text \<open>
  \<open>riskier c d\<close>: \<open>d\<close> is the same payment seen with no less risk in any dimension.  The score
  and, for a fixed pair of thresholds, the decision are monotone in it.
\<close>

primrec risk_severity :: "risk_decision \<Rightarrow> nat" where
  "risk_severity RISK_ALLOW = 0"
| "risk_severity RISK_REVIEW = 1"
| "risk_severity RISK_BLOCK = 2"

definition riskier :: "risk_context \<Rightarrow> risk_context \<Rightarrow> bool" where
  "riskier c d \<longleftrightarrow>
     rc_policy_max d = rc_policy_max c \<and> rc_velocity_limit d = rc_velocity_limit c \<and>
     dec_le (rc_amount c) (rc_amount d) \<and> rc_velocity_count c \<le> rc_velocity_count d \<and>
     rc_repeated_failures c \<le> rc_repeated_failures d \<and>
     (rc_is_new_customer c \<longrightarrow> rc_is_new_customer d) \<and>
     rc_customer_kyc d \<le> rc_customer_kyc c \<and>
     (rc_destination_seen d \<longrightarrow> rc_destination_seen c)"

lemma riskier_amount: "riskier c d \<Longrightarrow> amount_near_max_rule c \<le> amount_near_max_rule d"
  by (auto simp: riskier_def amount_near_max_rule_def Let_def dec_le_val)

lemma riskier_velocity: "riskier c d \<Longrightarrow> velocity_spike_rule c \<le> velocity_spike_rule d"
  by (auto simp: riskier_def velocity_spike_rule_def)

lemma riskier_failures: "riskier c d \<Longrightarrow> repeated_failures_rule c \<le> repeated_failures_rule d"
  by (auto simp: riskier_def repeated_failures_rule_def)

lemma riskier_kyc: "riskier c d \<Longrightarrow> new_customer_low_kyc_rule c \<le> new_customer_low_kyc_rule d"
  by (cases "rc_customer_kyc c"; cases "rc_customer_kyc d")
     (auto simp: riskier_def new_customer_low_kyc_rule_def less_eq_kyc_level_def)

lemma riskier_destination: "riskier c d \<Longrightarrow> new_destination_rule c \<le> new_destination_rule d"
  by (auto simp: riskier_def new_destination_rule_def)

lemma risk_total_mono: "riskier c d \<Longrightarrow> risk_total c \<le> risk_total d"
  using riskier_amount [of c d] riskier_velocity [of c d] riskier_failures [of c d]
    riskier_kyc [of c d] riskier_destination [of c d]
  by (simp add: risk_total_eq)

lemma decision_mono:
  "score \<le> score' \<Longrightarrow>
   risk_severity (decision_from_score r b score) \<le> risk_severity (decision_from_score r b score')"
  by (simp add: decision_from_score_def)

end
