(* ===== verification/DecimalText.thy ===== *)
theory DecimalText
  imports PyDecimal
begin

text \<open>
  Decimals as text: \<open>str(Decimal)\<close>, with its scientific notation, and \<open>Decimal(str)\<close>, whose
  \<open>InvalidOperation\<close> is \<open>None\<close>.  The AML history stores amounts in this form; the section ends
  in the round trip.
\<close>

definition all_digits :: "string \<Rightarrow> bool" where
  "all_digits s = list_all is_digit s"

definition nat_of_digits :: "string \<Rightarrow> nat" where
  "nat_of_digits s = foldl (\<lambda>a c. 10 * a + digit_val c) 0 s"

definition show_exponent :: "int \<Rightarrow> string" where
  "show_exponent e = CHR ''E'' # (if e < 0 then CHR ''-'' else CHR ''+'') # show_nat (nat \<bar>e\<bar>)"

definition dec_str_abs :: "nat \<Rightarrow> int \<Rightarrow> string" where
  "dec_str_abs c e =
     (let s = show_nat c;
          n = int (length s);
          left = e + n;
          dot = (if e \<le> 0 \<and> -6 < left then left else 1);
          body =
            (if dot \<le> 0 then ''0.'' @ replicate (nat (- dot)) CHR ''0'' @ s
             else if n \<le> dot then s @ replicate (nat (dot - n)) CHR ''0''
             else take (nat dot) s @ CHR ''.'' # drop (nat dot) s)
      in body @ (if left = dot then [] else show_exponent (left - dot)))"

definition dec_str :: "decimal \<Rightarrow> string" where
  "dec_str d =
     (if coefficient d < 0 then [CHR ''-''] else []) @ dec_str_abs (nat \<bar>coefficient d\<bar>) (exponent d)"

definition parse_exponent :: "string \<Rightarrow> int option" where
  "parse_exponent s = (case s of
       [] \<Rightarrow> Some 0
     | c # cs \<Rightarrow>
         if c \<noteq> CHR ''E'' \<and> c \<noteq> CHR ''e'' then None
         else (case cs of
             [] \<Rightarrow> None
           | x # ds \<Rightarrow>
               let (neg, digits) =
                 (if x = CHR ''-'' then (True, ds) else if x = CHR ''+'' then (False, ds) else (False, cs))
               in if digits \<noteq> [] \<and> all_digits digits
                  then Some (if neg then - int (nat_of_digits digits) else int (nat_of_digits digits))
                  else None))"

definition parse_unsigned :: "string \<Rightarrow> (nat \<times> int) option" where
  "parse_unsigned s =
     (let whole = takeWhile is_digit s;
          rest = dropWhile is_digit s;
          (frac, tail) =
            (case rest of
               [] \<Rightarrow> ([], [])
             | c # cs \<Rightarrow> if c = CHR ''.'' then (takeWhile is_digit cs, dropWhile is_digit cs)
                         else ([], rest))
      in if whole @ frac = [] then None
         else map_option (\<lambda>e. (nat_of_digits (whole @ frac), e - int (length frac)))
                (parse_exponent tail))"

definition dec_parse :: "string \<Rightarrow> decimal option" where
  "dec_parse text =
     (let s = filter (\<lambda>c. c \<noteq> CHR ''_'') (py_strip text) in
      case s of
        [] \<Rightarrow> None
      | c # cs \<Rightarrow>
          if c = CHR ''-'' then map_option (\<lambda>(n, e). Dec (- int n) e) (parse_unsigned cs)
          else if c = CHR ''+'' then map_option (\<lambda>(n, e). Dec (int n) e) (parse_unsigned cs)
          else map_option (\<lambda>(n, e). Dec (int n) e) (parse_unsigned s))"

section \<open>Digits\<close>

lemma all_digits_simps [simp]:
  "all_digits []" "all_digits (c # s) = (is_digit c \<and> all_digits s)"
  "all_digits (s @ t) = (all_digits s \<and> all_digits t)"
  by (auto simp: all_digits_def)

lemma all_digits_show_nat [simp]: "all_digits (show_nat n)"
  by (auto simp: all_digits_def list_all_iff dest: show_nat_digits)

lemma is_digit_zero [simp]: "is_digit CHR ''0''" "digit_val CHR ''0'' = 0"
  by (simp_all add: is_digit_def digit_val_def code_of_def)

lemma all_digits_replicate [simp]: "all_digits (replicate k CHR ''0'')"
  by (induction k) auto

lemma all_digits_take_drop [simp]:
  assumes "all_digits s"
  shows "all_digits (take k s)" and "all_digits (drop k s)"
  using assms by (auto simp: all_digits_def list_all_iff dest: in_set_takeD in_set_dropD)

lemma nat_of_digits_show_nat [simp]: "nat_of_digits (show_nat n) = n"
  by (simp add: nat_of_digits_def foldl_show_nat)

lemma nat_of_digits_zeros [simp]: "nat_of_digits (replicate k CHR ''0'' @ s) = nat_of_digits s"
  by (induction k) (simp_all add: nat_of_digits_def)

lemma nat_of_digits_zero [simp]: "nat_of_digits (CHR ''0'' # s) = nat_of_digits s"
  by (simp add: nat_of_digits_def)

lemma takeWhile_digits:
  assumes "all_digits s" and "rest = [] \<or> \<not> is_digit (hd rest)"
  shows "takeWhile is_digit (s @ rest) = s" and "dropWhile is_digit (s @ rest) = rest"
proof -
  have "\<forall>c\<in>set s. is_digit c" using assms(1) by (simp add: all_digits_def list_all_iff)
  then show "takeWhile is_digit (s @ rest) = s" "dropWhile is_digit (s @ rest) = rest"
    using assms(2) by (induction s) (cases rest, auto)+
qed

section \<open>The round trip\<close>

lemma parse_show_exponent: "parse_exponent (show_exponent e) = Some e"
  by (auto simp: parse_exponent_def show_exponent_def Let_def)

text \<open>The two shapes \<open>dec_str_abs\<close> writes: without a point and with one.\<close>

lemma parse_whole:
  assumes "all_digits s" and "s \<noteq> []" and "parse_exponent t = Some e"
    and "t = [] \<or> hd t = CHR ''E''"
  shows "parse_unsigned (s @ t) = Some (nat_of_digits s, e)"
proof -
  have t: "t = [] \<or> \<not> is_digit (hd t)" using assms(4) by auto
  have w: "takeWhile is_digit (s @ t) = s" "dropWhile is_digit (s @ t) = t"
    using takeWhile_digits [OF assms(1) t] by simp_all
  show ?thesis
    unfolding parse_unsigned_def w Let_def using assms(2-4) by (cases t) auto
qed

lemma parse_pointed:
  assumes "all_digits s" and "all_digits f" and "s \<noteq> []" and "parse_exponent t = Some e"
    and "t = [] \<or> hd t = CHR ''E''"
  shows "parse_unsigned (s @ CHR ''.'' # f @ t) = Some (nat_of_digits (s @ f), e - int (length f))"
proof -
  have t: "t = [] \<or> \<not> is_digit (hd t)" using assms(5) by auto
  have p: "CHR ''.'' # f @ t = [] \<or> \<not> is_digit (hd (CHR ''.'' # f @ t))" by simp
  show ?thesis
    using takeWhile_digits [OF assms(1) p] takeWhile_digits [OF assms(2) t] assms(3,4)
    by (simp add: parse_unsigned_def)
qed

lemma show_exponent_hd [simp]: "hd (show_exponent e) = CHR ''E''"
  by (simp add: show_exponent_def)

text \<open>The plain notation, for exponents from \<open>-6\<close> to 0, and the scientific one.\<close>

lemma parse_plain:
  assumes "e \<le> 0" and "-6 < e + int (length (show_nat c))"
  shows "parse_unsigned (dec_str_abs c e) = Some (c, e)"
proof -
  define s where "s = show_nat c"
  define n where "n = int (length s)"
  have s: "all_digits s" "s \<noteq> []" "nat_of_digits s = c" by (simp_all add: s_def)
  have n: "1 \<le> n" using s(2) by (cases s) (auto simp: n_def)
  have nil: "parse_exponent [] = Some 0" by (simp add: parse_exponent_def)
  have plain: "e \<le> 0 \<and> -6 < e + n" using assms by (simp add: n_def s_def)
  consider "e + n \<le> 0" | "0 < e + n" "e = 0" | "0 < e + n" "e < 0" using plain by linarith
  then show ?thesis
  proof cases
    case 1
    then have "dec_str_abs c e =
        [CHR ''0''] @ CHR ''.'' # (replicate (nat (- (e + n))) CHR ''0'' @ s) @ []"
      using plain by (simp add: dec_str_abs_def Let_def s_def n_def)
    moreover have "int (nat (- (e + n)) + length s) = - e" using 1 by (simp add: n_def)
    ultimately show ?thesis
      using parse_pointed [of "[CHR ''0'']" "replicate (nat (- (e + n))) CHR ''0'' @ s" "[]" 0] s nil
      by simp
  next
    case 2
    then have "dec_str_abs c e = s @ []"
      using plain n by (simp add: dec_str_abs_def Let_def s_def n_def)
    then show ?thesis using parse_whole [OF s(1,2) nil] s(3) 2 by simp
  next
    case 3
    let ?k = "nat (e + n)"
    have "dec_str_abs c e = take ?k s @ CHR ''.'' # drop ?k s @ []"
      using plain 3 by (simp add: dec_str_abs_def Let_def s_def n_def)
    moreover have "take ?k s \<noteq> []" using 3 s(2) by simp
    moreover have "int (length (drop ?k s)) = - e" using 3 by (simp add: n_def)
    ultimately show ?thesis
      using parse_pointed [of "take ?k s" "drop ?k s" "[]" 0] s nil by simp
  qed
qed

lemma parse_scientific:
  assumes "\<not> (e \<le> 0 \<and> -6 < e + int (length (show_nat c)))"
  shows "parse_unsigned (dec_str_abs c e) = Some (c, e)"
proof -
  define s where "s = show_nat c"
  define n where "n = int (length s)"
  have s: "all_digits s" "s \<noteq> []" "nat_of_digits s = c" by (simp_all add: s_def)
  have n: "1 \<le> n" using s(2) by (cases s) (auto simp: n_def)
  have sci: "\<not> (e \<le> 0 \<and> -6 < e + n)" using assms by (simp add: n_def s_def)
  then have ne: "e + n \<noteq> 1" using n by auto
  show ?thesis
  proof (cases "n = 1")
    case True
    then have "dec_str_abs c e = s @ show_exponent e"
      using sci ne by (auto simp: dec_str_abs_def Let_def s_def n_def)
    then show ?thesis using parse_whole [OF s(1,2) parse_show_exponent] s(3) by simp
  next
    case False
    then have n1: "1 < n" using n by simp
    have "dec_str_abs c e = take 1 s @ CHR ''.'' # drop 1 s @ show_exponent (e + n - 1)"
      using sci ne n1 by (auto simp: dec_str_abs_def Let_def s_def n_def)
    moreover have "take 1 s \<noteq> []" using s(2) by simp
    moreover have "int (length (drop 1 s)) = n - 1" using n1 by (simp add: n_def)
    moreover have "take 1 s @ drop 1 s = s" by simp
    ultimately show ?thesis
      using parse_pointed [of "take 1 s" "drop 1 s" _ "e + n - 1"] s parse_show_exponent
      by (simp del: One_nat_def drop_Suc take_Suc)
  qed
qed

lemma parse_dec_str_abs: "parse_unsigned (dec_str_abs c e) = Some (c, e)"
  using parse_plain parse_scientific by blast

definition decimal_char :: "char \<Rightarrow> bool" where
  "decimal_char c = (is_digit c \<or> c \<in> {CHR ''-'', CHR ''+'', CHR ''.'', CHR ''E''})"

lemma decimal_char_pieces:
  "list_all decimal_char (show_nat n)" "list_all decimal_char (replicate k CHR ''0'')"
  "list_all decimal_char (show_exponent e)"
proof -
  show n: "list_all decimal_char (show_nat n)" for n
    using show_nat_digits by (auto simp: list_all_iff decimal_char_def)
  show "list_all decimal_char (replicate k CHR ''0'')"
    by (simp add: list_all_iff decimal_char_def)
  show "list_all decimal_char (show_exponent e)"
    using n by (simp add: show_exponent_def decimal_char_def)
qed

lemma list_all_take_drop:
  "list_all P s \<Longrightarrow> list_all P (take k s)" "list_all P s \<Longrightarrow> list_all P (drop k s)"
  by (auto simp: list_all_iff dest: in_set_takeD in_set_dropD)

lemma dec_str_chars: "list_all decimal_char (dec_str d)"
proof -
  have c: "decimal_char CHR ''0''" "decimal_char CHR ''.''" "decimal_char CHR ''-''"
    by (simp_all add: decimal_char_def)
  have "list_all decimal_char (dec_str_abs n e)" for n e
    unfolding dec_str_abs_def Let_def
    by (simp add: decimal_char_pieces list_all_take_drop c)
  then show ?thesis using c by (simp add: dec_str_def)
qed

lemma decimal_char_simps:
  "decimal_char c \<Longrightarrow> \<not> is_space c" "decimal_char c \<Longrightarrow> c \<noteq> CHR ''_''" "decimal_char c \<Longrightarrow> c \<noteq> CHR ''|''"
  by (auto simp: decimal_char_def dest: is_digit_not_space)

lemma dec_str_abs_hd_digit: "dec_str_abs c e \<noteq> [] \<and> is_digit (hd (dec_str_abs c e))"
proof -
  obtain x xs where x: "show_nat c = x # xs" "is_digit x"
    using show_nat_hd_digit by (cases "show_nat c") auto
  then show ?thesis by (cases "e \<le> 0") (auto simp: dec_str_abs_def Let_def hd_append take_Cons' split: if_splits)
qed

theorem dec_parse_dec_str [simp]: "dec_parse (dec_str d) = Some d"
proof -
  let ?t = "dec_str_abs (nat \<bar>coefficient d\<bar>) (exponent d)"
  have chars: "\<forall>c\<in>set (dec_str d). decimal_char c" using dec_str_chars by (simp add: list_all_iff)
  then have strip: "py_strip (dec_str d) = dec_str d"
    using decimal_char_simps by (intro py_strip_id) blast
  have keep: "filter (\<lambda>c. c \<noteq> CHR ''_'') (dec_str d) = dec_str d"
    using chars decimal_char_simps by (auto simp: filter_id_conv)
  obtain x xs where x: "?t = x # xs" "is_digit x"
    using dec_str_abs_hd_digit [of "nat \<bar>coefficient d\<bar>" "exponent d"] by (cases ?t) auto
  then have ne: "x \<noteq> CHR ''-''" "x \<noteq> CHR ''+''" by auto
  show ?thesis
  proof (cases "coefficient d < 0")
    case True
    then have "dec_str d = CHR ''-'' # ?t" by (simp add: dec_str_def)
    then show ?thesis using strip keep True parse_dec_str_abs [of "nat \<bar>coefficient d\<bar>" "exponent d"]
      by (cases d) (simp add: dec_parse_def)
  next
    case False
    then have e: "dec_str d = ?t" by (simp add: dec_str_def)
    have "dec_parse (x # xs) = map_option (\<lambda>(n, e). Dec (int n) e) (parse_unsigned (x # xs))"
      using strip keep ne unfolding dec_parse_def e x(1) by simp
    then have "dec_parse (dec_str d) = map_option (\<lambda>(n, e). Dec (int n) e) (parse_unsigned ?t)"
      unfolding e x(1) .
    then show ?thesis using parse_dec_str_abs [of "nat \<bar>coefficient d\<bar>" "exponent d"] False
      by (cases d) simp
  qed
qed

end
