(* ===== verification/Aml.thy ===== *)
theory Aml
  imports Repositories DecimalText PyTime
begin

text \<open>
  \<open>payments_api/services/aml_service.py\<close>: the decision, the history of outgoing amounts kept in a
  Redis list, and the fall back to the database when Redis does not answer.  Entries are
  texts \<open>seconds|rail|amount\<close>; \<open>try_parse_entry\<close> reads back what \<open>record_outgoing\<close> writes.
\<close>

record aml_engine =
  ae_blocklist_destinations :: "string list"
  ae_total_window_seconds :: int
  ae_total_threshold_amount :: decimal
  ae_structuring_window_seconds :: int
  ae_structuring_count_threshold :: int

definition dec_95 :: decimal where
  "dec_95 = Dec 95 (-2)"

section \<open>Entries\<close>

definition history_entry :: "moment \<Rightarrow> payment_method \<Rightarrow> decimal \<Rightarrow> string" where
  "history_entry now rail amount =
     show_int (now div second) @ ''|'' @ method_value rail @ ''|'' @ dec_str amount"

definition try_parse_entry :: "string \<Rightarrow> (int \<times> string \<times> decimal) option" where
  "try_parse_entry entry =
     (case py_split_max CHR ''|'' 2 entry of
        [ts_str, rail, amount_str] \<Rightarrow>
          (case (py_int ts_str, dec_parse amount_str) of
             (Some ts, Some amount) \<Rightarrow> Some (ts, rail, amount)
           | _ \<Rightarrow> None)
      | _ \<Rightarrow> None)"

fun sum_recent_loop :: "decimal \<Rightarrow> string list \<Rightarrow> string \<Rightarrow> int \<Rightarrow> decimal" where
  "sum_recent_loop acc [] rail cutoff = acc"
| "sum_recent_loop acc (entry # entries) rail cutoff =
     (case try_parse_entry entry of
        None \<Rightarrow> sum_recent_loop acc entries rail cutoff
      | Some (ts, current_rail, amount) \<Rightarrow>
          sum_recent_loop (if cutoff \<le> ts \<and> current_rail = rail then dec_add acc amount else acc)
            entries rail cutoff)"

definition sum_recent :: "string list \<Rightarrow> string \<Rightarrow> int \<Rightarrow> decimal" where
  "sum_recent = sum_recent_loop (Dec 0 0)"

fun count_near :: "string list \<Rightarrow> string \<Rightarrow> int \<Rightarrow> decimal \<Rightarrow> decimal \<Rightarrow> int" where
  "count_near [] rail cutoff low high = 0"
| "count_near (entry # entries) rail cutoff low high =
     (case try_parse_entry entry of
        None \<Rightarrow> count_near entries rail cutoff low high
      | Some (ts, current_rail, amount) \<Rightarrow>
          (if ts < cutoff \<or> current_rail \<noteq> rail then count_near entries rail cutoff low high
           else if dec_le low amount \<and> dec_le amount high
           then count_near entries rail cutoff low high + 1
           else count_near entries rail cutoff low high))"

section \<open>The engine\<close>

definition read_history_entries :: "'e outside \<Rightarrow> string \<Rightarrow> ('e, 'm, string list option) act" where
  "read_history_entries env key =
     catch_if is_redis_error
       (bindM (redis (o_lrange env key 0 AML_HISTORY_MAX_ITEMS)) (\<lambda>entries. ret (Some entries)))
       (\<lambda>_. ret None)"

definition total_outgoing_recent ::
  "'e outside \<Rightarrow> aml_engine \<Rightarrow> string \<Rightarrow> payment_method \<Rightarrow> ('e, 'm, decimal) act" where
  "total_outgoing_recent env ae cid rail =
     bindM (outside (o_now env)) (\<lambda>now.
     bindM (read_history_entries env (aml_history_key cid)) (\<lambda>entries.
     case entries of
       Some es \<Rightarrow> ret (sum_recent es (method_value rail) (now div second - ae_total_window_seconds ae))
     | None \<Rightarrow>
         bindM (outside (o_now env)) (\<lambda>t.
         sum_outgoing_since env cid rail (t - ae_total_window_seconds ae * second))))"

definition near_threshold_count ::
  "'e outside \<Rightarrow> aml_engine \<Rightarrow> string \<Rightarrow> payment_method \<Rightarrow> decimal \<Rightarrow> ('e, 'm, int) act" where
  "near_threshold_count env ae cid rail max_amount =
     bindM (outside (o_now env)) (\<lambda>now.
     let low = dec_mul max_amount dec_95 in
     bindM (read_history_entries env (aml_history_key cid)) (\<lambda>entries.
     case entries of
       Some es \<Rightarrow> ret (count_near es (method_value rail)
                     (now div second - ae_structuring_window_seconds ae) low max_amount)
     | None \<Rightarrow>
         bindM (outside (o_now env)) (\<lambda>t.
         count_near_threshold_since env cid rail (t - ae_structuring_window_seconds ae * second)
           low max_amount)))"

definition aml_evaluate ::
  "'e outside \<Rightarrow> aml_engine \<Rightarrow> string \<Rightarrow> payment_method \<Rightarrow> decimal \<Rightarrow> string option \<Rightarrow>
   limits_policy_dto \<Rightarrow> ('e, 'm, aml_decision) act" where
  "aml_evaluate env ae cid rail amount destination policy =
     (if (case destination of None \<Rightarrow> False
          | Some dest \<Rightarrow> dest \<noteq> [] \<and> dest \<in> set (ae_blocklist_destinations ae))
      then ret AML_BLOCK
      else
        bindM (total_outgoing_recent env ae cid rail) (\<lambda>total_outgoing.
        if dec_lt (ae_total_threshold_amount ae) (dec_add total_outgoing amount) then ret AML_REVIEW
        else
          bindM (near_threshold_count env ae cid rail (lp_max_amount policy)) (\<lambda>near.
          let near_count =
            (if dec_le (dec_mul (lp_max_amount policy) dec_95) amount then near + 1 else near)
          in if ae_structuring_count_threshold ae \<le> near_count then ret AML_REVIEW
             else ret AML_ALLOW)))"

definition record_outgoing ::
  "'e outside \<Rightarrow> aml_engine \<Rightarrow> string \<Rightarrow> payment_method \<Rightarrow> decimal \<Rightarrow> ('e, 'm, unit) act" where
  "record_outgoing env ae cid rail amount =
     bindM (outside (o_now env)) (\<lambda>now.
     let payload = history_entry now rail amount; key = aml_history_key cid in
     catch_if is_redis_error
       (bindM (redis (o_lpush env key payload)) (\<lambda>_.
        bindM (redis (o_ltrim env key 0 AML_HISTORY_MAX_ITEMS)) (\<lambda>_.
        redis (o_expire env key
          (max (ae_total_window_seconds ae) (ae_structuring_window_seconds ae))))))
       (\<lambda>_. ret ()))"

section \<open>Entries read back\<close>

lemma bar_not_in_method: "CHR ''|'' \<notin> set (method_value m)"
  by (cases m) auto

lemma try_parse_history_entry [simp]:
  "try_parse_entry (history_entry now rail amount) = Some (now div second, method_value rail, amount)"
proof -
  have a: "py_split_at CHR ''|'' (show_int (now div second) @ CHR ''|'' # r)
      = (show_int (now div second), Some r)" for r
    by (rule py_split_at_hit [OF bar_not_in_show_int])
  have b: "py_split_at CHR ''|'' (method_value rail @ CHR ''|'' # r) = (method_value rail, Some r)" for r
    by (rule py_split_at_hit [OF bar_not_in_method])
  show ?thesis
    by (simp add: try_parse_entry_def history_entry_def numeral_2_eq_2 a b)
qed

text \<open>An entry of another rail, an old one and one that does not parse count for nothing.\<close>

lemma sum_recent_loop_skip:
  "(\<And>e ts r a. e \<in> set es \<Longrightarrow> try_parse_entry e = Some (ts, r, a) \<Longrightarrow> ts < cutoff \<or> r \<noteq> rail) \<Longrightarrow>
   sum_recent_loop acc es rail cutoff = acc"
proof (induction es)
  case (Cons e es)
  have "sum_recent_loop acc es rail cutoff = acc"
    using Cons by (meson list.set_intros(2))
  then show ?case
    using Cons.prems [of e] by (force split: option.splits prod.splits)
qed simp

text \<open>The exact sum the loop approximates; they agree while no addition is rounded.\<close>

definition counted_amounts :: "string list \<Rightarrow> string \<Rightarrow> int \<Rightarrow> decimal list" where
  "counted_amounts es rail cutoff =
     List.map_filter (\<lambda>e. case try_parse_entry e of
         Some (ts, r, a) \<Rightarrow> if cutoff \<le> ts \<and> r = rail then Some a else None
       | None \<Rightarrow> None) es"

lemma sum_recent_loop_fold:
  "sum_recent_loop acc es rail cutoff = fold (\<lambda>a t. dec_add t a) (counted_amounts es rail cutoff) acc"
  by (induction acc es rail cutoff rule: sum_recent_loop.induct)
     (auto simp: counted_amounts_def map_filter_simps split: option.splits)

lemma count_near_length:
  "count_near es rail cutoff low high =
     int (length (filter (\<lambda>a. dec_le low a \<and> dec_le a high) (counted_amounts es rail cutoff)))"
  by (induction es rail cutoff low high rule: count_near.induct)
     (auto simp: counted_amounts_def map_filter_simps split: option.splits)

lemma count_near_bounds: "0 \<le> count_near es rail cutoff low high \<and> count_near es rail cutoff low high \<le> int (length es)"
proof (induction es)
  case (Cons e es)
  then show ?case by (cases "try_parse_entry e") (auto split: prod.splits)
qed simp

section \<open>Failures of Redis\<close>

lemma raises_read_history: "raises C (read_history_entries env key)"
  unfolding read_history_entries_def
  by (intro raises_catch_if raises_intros raises_redis) simp_all

lemma raises_aml_evaluate: "raises (\<lambda>_. False) (aml_evaluate env ae cid rail amount dest policy)"
  unfolding aml_evaluate_def total_outgoing_recent_def near_threshold_count_def
    sum_outgoing_since_def count_near_threshold_since_def Let_def
  by (intro raises_intros raises_read_history)

lemma raises_record_outgoing: "raises (\<lambda>_. False) (record_outgoing env ae cid rail amount)"
  unfolding record_outgoing_def Let_def
  by (intro raises_intros raises_catch_if raises_redis) simp_all

section \<open>The decision\<close>

lemma aml_evaluate_blocklisted:
  assumes "dest \<noteq> []" and "dest \<in> set (ae_blocklist_destinations ae)"
  shows "aml_evaluate env ae cid rail amount (Some dest) policy w = (Inr AML_BLOCK, w)"
  using assms by (simp add: aml_evaluate_def)

lemma aml_evaluate_block_only_blocklisted:
  assumes "aml_evaluate env ae cid rail amount destination policy w = (Inr AML_BLOCK, w')"
  shows "\<exists>dest. destination = Some dest \<and> dest \<noteq> [] \<and> dest \<in> set (ae_blocklist_destinations ae)"
  using assms
  by (auto simp: aml_evaluate_def bindM_def Let_def split: option.splits if_splits prod.splits sum.splits)

section \<open>The history list\<close>

text \<open>
  What the engine relies on: \<open>LPUSH\<close> prepends, \<open>LTRIM k 0 n\<close> keeps the elements at positions 0
  to n, \<open>LRANGE k 0 n\<close> reads them, \<open>EXPIRE\<close> and the clock keep the lists while the key
  lives.  \<open>live\<close> is the set of outside states in which no history expires.
\<close>

locale history_store =
  fixes env :: "'e outside"
    and live :: "'e \<Rightarrow> bool"
    and hist :: "string \<Rightarrow> 'e \<Rightarrow> string list"
  assumes now_hist: "live e \<Longrightarrow> o_now env e = (t, e') \<Longrightarrow> live e' \<and> hist k e' = hist k e"
    and lpush_hist: "live e \<Longrightarrow> o_lpush env k x e = (q, e') \<Longrightarrow>
      q = Inr () \<and> live e' \<and> hist k e' = x # hist k e"
    and ltrim_hist: "live e \<Longrightarrow> 0 \<le> n \<Longrightarrow> o_ltrim env k 0 n e = (q, e') \<Longrightarrow>
      q = Inr () \<and> live e' \<and> hist k e' = take (nat n + 1) (hist k e)"
    and lexpire_hist: "live e \<Longrightarrow> o_expire env k ttl e = (q, e') \<Longrightarrow>
      q = Inr () \<and> live e' \<and> hist k e' = hist k e"
    and lrange_hist: "live e \<Longrightarrow> 0 \<le> n \<Longrightarrow> o_lrange env k 0 n e = (r, e') \<Longrightarrow>
      r = Inr (take (nat n + 1) (hist k e)) \<and> live e' \<and> hist k e' = hist k e"
begin

lemma record_outgoing_history:
  assumes "live (w_out w)" and "o_now env (w_out w) = (t, e0)"
  shows "\<exists>e. record_outgoing env ae cid rail amount w = (Inr (), w\<lparr>w_out := e\<rparr>) \<and> live e \<and>
     hist (aml_history_key cid) e =
       take 501 (history_entry t rail amount # hist (aml_history_key cid) (w_out w))"
proof -
  let ?k = "aml_history_key cid" and ?x = "history_entry t rail amount"
  have n: "live e0" "hist ?k e0 = hist ?k (w_out w)" using now_hist [OF assms, of ?k] by auto
  obtain q1 e1 where p: "o_lpush env ?k ?x e0 = (q1, e1)" by (cases "o_lpush env ?k ?x e0")
  have p': "q1 = Inr ()" "live e1" "hist ?k e1 = ?x # hist ?k e0" using lpush_hist [OF n(1) p] by auto
  obtain q2 e2 where l: "o_ltrim env ?k 0 AML_HISTORY_MAX_ITEMS e1 = (q2, e2)"
    by (cases "o_ltrim env ?k 0 AML_HISTORY_MAX_ITEMS e1")
  have l': "q2 = Inr ()" "live e2" "hist ?k e2 = take 501 (hist ?k e1)"
    using ltrim_hist [OF p'(2) _ l] by (auto simp: AML_HISTORY_MAX_ITEMS_def)
  let ?ttl = "max (ae_total_window_seconds ae) (ae_structuring_window_seconds ae)"
  obtain q3 e3 where x: "o_expire env ?k ?ttl e2 = (q3, e3)" by (cases "o_expire env ?k ?ttl e2")
  have x': "q3 = Inr ()" "live e3" "hist ?k e3 = hist ?k e2" using lexpire_hist [OF l'(2) x] by auto
  have "record_outgoing env ae cid rail amount w = (Inr (), w\<lparr>w_out := e3\<rparr>)"
    using assms(2) p p'(1) l l'(1) x x'(1)
    by (simp add: record_outgoing_def Let_def catch_if_def catch_def bindM_def redis_def outside_def)
  then show ?thesis using x' l' p' n by auto
qed

text \<open>With a readable history the two totals come from it, and nothing else changes.\<close>

lemma total_from_history:
  assumes "live (w_out w)" and "o_now env (w_out w) = (t, e0)"
  shows "\<exists>e. total_outgoing_recent env ae cid rail w =
      (Inr (sum_recent (take 501 (hist (aml_history_key cid) (w_out w))) (method_value rail)
         (t div second - ae_total_window_seconds ae)), w\<lparr>w_out := e\<rparr>) \<and>
      live e \<and> hist (aml_history_key cid) e = hist (aml_history_key cid) (w_out w)"
proof -
  let ?k = "aml_history_key cid"
  have n: "live e0" "hist ?k e0 = hist ?k (w_out w)" using now_hist [OF assms, of ?k] by auto
  obtain r e1 where l: "o_lrange env ?k 0 AML_HISTORY_MAX_ITEMS e0 = (r, e1)"
    by (cases "o_lrange env ?k 0 AML_HISTORY_MAX_ITEMS e0")
  have l': "r = Inr (take 501 (hist ?k e0))" "live e1" "hist ?k e1 = hist ?k e0"
    using lrange_hist [OF n(1) _ l] by (auto simp: AML_HISTORY_MAX_ITEMS_def)
  show ?thesis using assms(2) n l l'
    by (intro exI [of _ e1])
       (simp add: total_outgoing_recent_def read_history_entries_def catch_if_def catch_def
         bindM_def redis_def outside_def)
qed

lemma near_from_history:
  assumes "live (w_out w)" and "o_now env (w_out w) = (t, e0)"
  shows "\<exists>e. near_threshold_count env ae cid rail m w =
      (Inr (count_near (take 501 (hist (aml_history_key cid) (w_out w))) (method_value rail)
         (t div second - ae_structuring_window_seconds ae) (dec_mul m dec_95) m), w\<lparr>w_out := e\<rparr>) \<and>
      live e \<and> hist (aml_history_key cid) e = hist (aml_history_key cid) (w_out w)"
proof -
  let ?k = "aml_history_key cid"
  have n: "live e0" "hist ?k e0 = hist ?k (w_out w)" using now_hist [OF assms, of ?k] by auto
  obtain r e1 where l: "o_lrange env ?k 0 AML_HISTORY_MAX_ITEMS e0 = (r, e1)"
    by (cases "o_lrange env ?k 0 AML_HISTORY_MAX_ITEMS e0")
  have l': "r = Inr (take 501 (hist ?k e0))" "live e1" "hist ?k e1 = hist ?k e0"
    using lrange_hist [OF n(1) _ l] by (auto simp: AML_HISTORY_MAX_ITEMS_def)
  show ?thesis using assms(2) n l l'
    by (intro exI [of _ e1])
       (simp add: near_threshold_count_def read_history_entries_def catch_if_def catch_def
         bindM_def redis_def outside_def Let_def)
qed

end

end
