(* ===== verification/Idempotency.thy ===== *)
theory Idempotency
  imports World
begin

text \<open>
  \<open>payments_api/services/idempotency_service.py\<close>: the lock on a request's key is a Redis
  \<open>SET key 1 EX ttl NX\<close>.  When Redis does not answer the lock counts as taken by the caller.
\<close>

record idempotency_service =
  is_ttl_seconds :: int

definition acquire :: "'e outside \<Rightarrow> idempotency_service \<Rightarrow> string \<Rightarrow> string \<Rightarrow> ('e, 'm, bool) act" where
  "acquire env svc merchant_id key =
     (let scoped = idempotency_scoped_key merchant_id key in
      catch_if is_redis_error
        (redis (o_set_nx env scoped ''1'' (is_ttl_seconds svc)))
        (\<lambda>_. bindM (emit (LogLine ''idempotency_redis_unavailable''
                [(''error_type'', PStr ''RedisError''), (''idempotency_key'', PStr key)])) (\<lambda>_.
             ret True)))"

lemma raises_acquire: "raises (\<lambda>_. False) (acquire env svc m k)"
  unfolding acquire_def Let_def
  by (intro raises_intros raises_catch_if raises_redis) simp_all

lemma acquire_fails_open:
  assumes "o_set_nx env (idempotency_scoped_key m k) ''1'' (is_ttl_seconds svc) (w_out w) = (Inl msg, e)"
  shows "fst (acquire env svc m k w) = Inr True"
  using assms by (simp add: acquire_def catch_if_def catch_def bindM_def redis_def)

section \<open>A working lock\<close>

text \<open>
  What the service relies on: \<open>SET NX\<close> succeeds exactly when the key is free, and takes it.
  \<open>held\<close> is the set of taken keys; \<open>live\<close> the outside states before any lock expires.
\<close>

locale lock_store =
  fixes env :: "'e outside"
    and live :: "'e \<Rightarrow> bool"
    and held :: "'e \<Rightarrow> string \<Rightarrow> bool"
  assumes set_nx_held: "live e \<Longrightarrow> o_set_nx env k v ttl e = (r, e') \<Longrightarrow>
      r = Inr (\<not> held e k) \<and> live e' \<and> held e' = (held e)(k := True)"
begin

lemma acquire_run:
  assumes "live (w_out w)"
  shows "\<exists>e. acquire env svc m k w =
      (Inr (\<not> held (w_out w) (idempotency_scoped_key m k)), w\<lparr>w_out := e\<rparr>) \<and> live e \<and>
      held e = (held (w_out w))(idempotency_scoped_key m k := True)"
proof -
  let ?k = "idempotency_scoped_key m k"
  obtain r e where s: "o_set_nx env ?k ''1'' (is_ttl_seconds svc) (w_out w) = (r, e)"
    by (cases "o_set_nx env ?k ''1'' (is_ttl_seconds svc) (w_out w)")
  show ?thesis
    using set_nx_held [OF assms s] s
    by (intro exI [of _ e]) (auto simp: acquire_def catch_if_def catch_def redis_def)
qed

text \<open>Of two requests with one key the second does not get the lock.\<close>

lemma second_acquire_refused:
  assumes "live (w_out w)" and "acquire env svc m k w = (r, w1)" and "w_out w2 = w_out w1"
  shows "fst (acquire env svc m k w2) = Inr False"
proof -
  from acquire_run [OF assms(1), of svc m k] obtain e where
    e: "acquire env svc m k w = (Inr (\<not> held (w_out w) (idempotency_scoped_key m k)), w\<lparr>w_out := e\<rparr>)"
      "live e" "held e = (held (w_out w))(idempotency_scoped_key m k := True)" by blast
  then have o: "w_out w2 = e" using assms(2,3) by auto
  then have "live (w_out w2)" using e(2) by simp
  from acquire_run [OF this, of svc m k] show ?thesis using o e(3) by auto
qed

end

end
