(* ===== verification/Validation.thy ===== *)
theory Validation
  imports World
begin

text \<open>
  \<open>shared/utils/validation.py\<close> and \<open>http_security.py\<close>.  A missing, blank or overlong header
  and an unsupported currency raise \<open>ValueError\<close>.  The lemmas characterise exactly which
  inputs pass and what they are normalised to.
\<close>

definition MAX_HEADER_LENGTH :: nat where
  "MAX_HEADER_LENGTH = 128"

definition CURRENCY_CODE_LENGTH :: nat where
  "CURRENCY_CODE_LENGTH = 3"

text \<open>\<open>value\<close> is \<open>None\<close> when absent; a header or currency value is text when present.\<close>

definition normalize_text :: "string option \<Rightarrow> string \<Rightarrow> exn + string" where
  "normalize_text value field_name = (case value of
       None \<Rightarrow> Inl (ValueError (''Missing required '' @ field_name))
     | Some text \<Rightarrow>
         (let normalized = py_strip text in
          if normalized = [] then Inl (ValueError (''Missing required '' @ field_name))
          else Inr normalized))"

definition require_header :: "(string \<rightharpoonup> string) \<Rightarrow> string \<Rightarrow> exn + string" where
  "require_header headers key =
     (case normalize_text (headers key) (''header: '' @ key) of
        Inl x \<Rightarrow> Inl x
      | Inr value \<Rightarrow>
          if MAX_HEADER_LENGTH < length value then Inl (ValueError (''Header too long: '' @ key))
          else Inr value)"

definition supported_codes :: "string list \<Rightarrow> string list" where
  "supported_codes supported =
     map (\<lambda>item. py_upper (py_strip item)) (filter (\<lambda>item. py_strip item \<noteq> []) supported)"

definition ensure_supported_currency :: "string \<Rightarrow> string list \<Rightarrow> exn + string" where
  "ensure_supported_currency currency supported =
     (case normalize_text (Some currency) ''currency'' of
        Inl x \<Rightarrow> Inl x
      | Inr text \<Rightarrow>
          (let normalized = py_upper text in
           if length normalized \<noteq> CURRENCY_CODE_LENGTH
           then Inl (ValueError (''Invalid currency code length: '' @ normalized))
           else if normalized \<notin> set (supported_codes supported)
           then Inl (ValueError (''Unsupported currency: '' @ normalized))
           else Inr normalized))"

definition quoted :: "string \<Rightarrow> string" where
  "quoted s = CHR 0x27 # s @ [CHR 0x27]"

text \<open>Headers set by every response that does not set them itself.\<close>

definition SECURITY_HEADERS :: "(string \<times> string) list" where
  "SECURITY_HEADERS =
     [(''X-Content-Type-Options'', ''nosniff''),
      (''X-Frame-Options'', ''DENY''),
      (''Referrer-Policy'', ''no-referrer''),
      (''Permissions-Policy'', ''geolocation=(), microphone=(), camera=()''),
      (''Content-Security-Policy'',
       ''default-src '' @ quoted ''none'' @ ''; frame-ancestors '' @ quoted ''none'' @
       ''; base-uri '' @ quoted ''none''),
      (''Cross-Origin-Resource-Policy'', ''same-origin'')]"

definition set_default :: "string \<Rightarrow> string \<Rightarrow> (string \<rightharpoonup> string) \<Rightarrow> (string \<rightharpoonup> string)" where
  "set_default k v h = (case h k of None \<Rightarrow> h(k \<mapsto> v) | Some _ \<Rightarrow> h)"

definition apply_security_headers :: "(string \<rightharpoonup> string) \<Rightarrow> (string \<rightharpoonup> string)" where
  "apply_security_headers h = fold (\<lambda>(k, v). set_default k v) SECURITY_HEADERS h"

lemma require_header_Inr:
  "require_header headers key = Inr v \<longleftrightarrow>
     (\<exists>raw. headers key = Some raw \<and> v = py_strip raw \<and> v \<noteq> [] \<and> length v \<le> MAX_HEADER_LENGTH)"
  by (auto simp: require_header_def normalize_text_def Let_def split: option.splits if_splits)

lemma require_header_raises_ValueError:
  "require_header headers key = Inl x \<Longrightarrow> is_value_error x \<and> as_app_error x = None"
  by (auto simp: require_header_def normalize_text_def Let_def is_value_error_def
      split: option.splits if_splits)

lemma ensure_supported_currency_Inr:
  "ensure_supported_currency c supported = Inr v \<longleftrightarrow>
     v = py_upper (py_strip c) \<and> length v = CURRENCY_CODE_LENGTH \<and> v \<in> set (supported_codes supported)"
  by (auto simp: ensure_supported_currency_def normalize_text_def Let_def CURRENCY_CODE_LENGTH_def
      py_upper_def split: if_splits)

lemma upper_char_idem [simp]: "upper_char (upper_char c) = upper_char c"
proof (cases "97 \<le> code_of c \<and> code_of c \<le> 122")
  case True
  then have "code_of (char_of (code_of c - 32)) = code_of c - 32" by (intro code_of_char_of) linarith
  then show ?thesis using True by (auto simp: upper_char_def)
next
  case False
  then have "upper_char c = c" unfolding upper_char_def by (rule if_not_P)
  then show ?thesis by simp
qed

lemma py_upper_idem [simp]: "py_upper (py_upper s) = py_upper s"
  by (simp add: py_upper_def)

lemma set_default_get: "(set_default k v h) j = (if j = k \<and> h k = None then Some v else h j)"
  by (auto simp: set_default_def split: option.splits)

lemma fold_set_default:
  "(fold (\<lambda>(k, v). set_default k v) kvs h) j =
     (case h j of Some x \<Rightarrow> Some x | None \<Rightarrow> map_of kvs j)"
proof (induction kvs arbitrary: h)
  case (Cons kv kvs)
  obtain k v where kv: "kv = (k, v)" by (cases kv)
  have "(fold (\<lambda>(k, v). set_default k v) (kv # kvs) h) j =
        (fold (\<lambda>(k, v). set_default k v) kvs (set_default k v h)) j" by (simp add: kv)
  also have "\<dots> = (case set_default k v h j of Some x \<Rightarrow> Some x | None \<Rightarrow> map_of kvs j)"
    by (rule Cons.IH)
  also have "\<dots> = (case h j of Some x \<Rightarrow> Some x | None \<Rightarrow> map_of (kv # kvs) j)"
    by (simp add: kv set_default_get split: option.splits)
  finally show ?case .
qed (simp split: option.splits)

end
