(* ===== verification/Logging.thy ===== *)
theory Logging
  imports World
begin

text \<open>
  \<open>shared/logging\<close>: the correlation context of a request (\<open>logger.py\<close>, \<open>fields.py\<close>,
  \<open>middleware.py\<close>) and the sanitizer every log line passes (\<open>JsonFormatter\<close>): values under a
  sensitive field name are dropped, card-like digit runs are masked, deep values truncated.
\<close>

section \<open>Dictionaries in insertion order\<close>

fun dict_set :: "'k \<Rightarrow> 'v \<Rightarrow> ('k \<times> 'v) list \<Rightarrow> ('k \<times> 'v) list" where
  "dict_set k v [] = [(k, v)]"
| "dict_set k v ((j, u) # kvs) = (if j = k then (j, v) # kvs else (j, u) # dict_set k v kvs)"

definition dict_update :: "('k \<times> 'v) list \<Rightarrow> ('k \<times> 'v) list \<Rightarrow> ('k \<times> 'v) list" where
  "dict_update d values = fold (\<lambda>(k, v). dict_set k v) values d"

lemma map_of_dict_set [simp]: "map_of (dict_set k v d) = (map_of d)(k \<mapsto> v)"
  by (induction k v d rule: dict_set.induct) auto

lemma map_of_dict_update: "map_of (dict_update d vs) = map_of d ++ map_of (rev vs)"
proof (induction vs arbitrary: d)
  case Nil
  then show ?case by (simp add: dict_update_def)
next
  case (Cons kv vs)
  obtain k v where kv: "kv = (k, v)" by (cases kv)
  have "map_of (dict_update d (kv # vs)) = map_of (dict_update (dict_set k v d) vs)"
    by (simp add: dict_update_def kv)
  also have "\<dots> = map_of d ++ map_of (rev (kv # vs))" 
    by (rule ext) (simp add: Cons.IH kv map_add_def split: option.splits)
  finally show ?case .
qed

lemma keys_dict_set: "fst ` set (dict_set k v d) = insert k (fst ` set d)"
  by (induction k v d rule: dict_set.induct) auto

lemma distinct_dict_set: "distinct (map fst d) \<Longrightarrow> distinct (map fst (dict_set k v d))"
  by (induction k v d rule: dict_set.induct) (auto simp: keys_dict_set)

section \<open>The correlation context\<close>

definition TRACE_ID :: string where "TRACE_ID = ''trace_id''"
definition IDEMPOTENCY_KEY :: string where "IDEMPOTENCY_KEY = ''idempotency_key''"
definition MERCHANT_ID :: string where "MERCHANT_ID = ''merchant_id''"
definition CUSTOMER_ID :: string where "CUSTOMER_ID = ''customer_id''"
definition ACCOUNT_ID :: string where "ACCOUNT_ID = ''account_id''"
definition RAIL :: string where "RAIL = ''rail''"
definition PAYMENT_ID :: string where "PAYMENT_ID = ''payment_id''"
definition STATUS :: string where "STATUS = ''status''"
definition RISK_DECISION :: string where "RISK_DECISION = ''risk_decision''"
definition AML_DECISION :: string where "AML_DECISION = ''aml_decision''"
definition DESTINATION :: string where "DESTINATION = ''destination''"

lemmas field_defs = TRACE_ID_def IDEMPOTENCY_KEY_def MERCHANT_ID_def CUSTOMER_ID_def
  ACCOUNT_ID_def RAIL_def PAYMENT_ID_def STATUS_def RISK_DECISION_def AML_DECISION_def DESTINATION_def

definition set_correlation_context :: "(string \<times> string) list \<Rightarrow> ('e, 'm, unit) act" where
  "set_correlation_context values = modify (\<lambda>w. w\<lparr>w_correlation := values\<rparr>)"

definition update_correlation_context :: "(string \<times> string) list \<Rightarrow> ('e, 'm, unit) act" where
  "update_correlation_context values =
     modify (\<lambda>w. w\<lparr>w_correlation := dict_update (w_correlation w) values\<rparr>)"

definition clear_correlation_context :: "('e, 'm, unit) act" where
  "clear_correlation_context = modify (\<lambda>w. w\<lparr>w_correlation := []\<rparr>)"

text \<open>\<open>CorrelationMiddleware.dispatch\<close>: whatever the handler does, the context is cleared.\<close>

definition header_or_empty :: "(string \<rightharpoonup> string) \<Rightarrow> string \<Rightarrow> string" where
  "header_or_empty headers k = (case headers k of None \<Rightarrow> [] | Some v \<Rightarrow> v)"

definition correlation_middleware ::
  "'e outside \<Rightarrow> (string \<rightharpoonup> string) \<Rightarrow> ('e, 'm, 'a) act \<Rightarrow> ('e, 'm, 'a) act" where
  "correlation_middleware env headers call_next =
     bindM (outside (o_trace_id env)) (\<lambda>trace_id.
     bindM (set_correlation_context
       [(TRACE_ID, trace_id),
        (IDEMPOTENCY_KEY, header_or_empty headers ''Idempotency-Key''),
        (MERCHANT_ID, header_or_empty headers ''X-Merchant-Id''),
        (CUSTOMER_ID, header_or_empty headers ''X-Customer-Id''),
        (ACCOUNT_ID, header_or_empty headers ''X-Account-Id''),
        (RAIL, header_or_empty headers ''X-Rail'')]) (\<lambda>_.
     try_else call_next
       (\<lambda>x. bindM clear_correlation_context (\<lambda>_. raise x))
       (\<lambda>a. bindM clear_correlation_context (\<lambda>_. ret a))))"

lemma correlation_cleared: "w_correlation (snd (correlation_middleware env headers m w)) = []"
  by (auto simp: correlation_middleware_def set_correlation_context_def clear_correlation_context_def
      bindM_def try_else_def outside_def split: prod.splits sum.splits)

section \<open>Redaction\<close>

definition REDACTED :: string where "REDACTED = ''[REDACTED]''"

text \<open>\<open>\\w\<close> on Latin-1: letters, digits, the underscore and the numeric signs.\<close>

definition is_word :: "char \<Rightarrow> bool" where
  "is_word c = (let n = code_of c in
     is_digit c \<or> (65 \<le> n \<and> n \<le> 90) \<or> n = 95 \<or> (97 \<le> n \<and> n \<le> 122) \<or>
     n \<in> {170, 178, 179, 181, 185, 186, 188, 189, 190} \<or>
     (192 \<le> n \<and> n \<le> 214) \<or> (216 \<le> n \<and> n \<le> 246) \<or> 248 \<le> n)"

text \<open>
  \<open>\\b\\d{12,19}\\b\<close> at the front of \<open>s\<close>: the greatest length first, \<open>prev\<close> says whether the
  character before is a word character.
\<close>

definition card_match :: "bool \<Rightarrow> string \<Rightarrow> nat option" where
  "card_match prev s =
     (if prev then None
      else find (\<lambda>k. k \<le> length s \<and> list_all is_digit (take k s) \<and>
                     (k = length s \<or> \<not> is_word (s ! k)))
             [19, 18, 17, 16, 15, 14, 13, 12])"

lemma card_match_bounds: "card_match prev s = Some k \<Longrightarrow> 12 \<le> k \<and> k \<le> 19 \<and> k \<le> length s"
  by (auto simp: card_match_def split: if_splits)

function redact_from :: "bool \<Rightarrow> string \<Rightarrow> string" where
  "redact_from prev [] = []"
| "redact_from prev (c # cs) =
     (case card_match prev (c # cs) of
        Some k \<Rightarrow> REDACTED @ redact_from True (drop k (c # cs))
      | None \<Rightarrow> c # redact_from (is_word c) cs)"
  by pat_completeness auto
termination
proof (relation "measure (\<lambda>(p, s). length s)")
  fix prev c cs k assume "card_match prev (c # cs) = Some k"
  then show "((True, drop k (c # cs)), prev, c # cs) \<in> measure (\<lambda>(p, s). length s)"
    using card_match_bounds [of prev "c # cs" k] by auto
qed auto

definition redact_string :: "string \<Rightarrow> string" where
  "redact_string s = redact_from False s"

definition REDACTED_FIELDS :: "string list" where
  "REDACTED_FIELDS = [''destination'', ''pix_key'', ''beneficiary'', ''card_number'', ''pan'']"

definition MAX_SANITIZE_DEPTH :: nat where
  "MAX_SANITIZE_DEPTH = 6"

definition key_text :: "pykey \<Rightarrow> string" where
  "key_text k = (case k of KStr s \<Rightarrow> s | KInt i \<Rightarrow> show_int i)"

text \<open>
  \<open>_sanitize_value\<close> with what is left of the depth, so a depth of 6 is 0 left;
  \<open>_sanitize_mapping\<close> and \<open>_sanitize_sequence\<close> go one deeper.
\<close>

definition sanitize_mapping ::
  "(pyval \<Rightarrow> pyval) \<Rightarrow> (pykey \<times> pyval) list \<Rightarrow> (pykey \<times> pyval) list" where
  "sanitize_mapping deeper kvs =
     fold (\<lambda>(k, v). dict_set (KStr (key_text k))
             (if py_lower (key_text k) \<in> set REDACTED_FIELDS then PStr REDACTED else deeper v)) kvs []"

primrec sanitize_left :: "nat \<Rightarrow> pyval \<Rightarrow> pyval" where
  "sanitize_left 0 v = PStr ''[TRUNCATED]''"
| "sanitize_left (Suc left) v =
     (case v of
        PDict kvs \<Rightarrow> PDict (sanitize_mapping (sanitize_left left) kvs)
      | PList vs \<Rightarrow> PList (map (sanitize_left left) vs)
      | PTuple vs \<Rightarrow> PTuple (map (sanitize_left left) vs)
      | PStr s \<Rightarrow> PStr (redact_string s)
      | PDatetime t \<Rightarrow> PStr t
      | _ \<Rightarrow> v)"

definition sanitize_value :: "pyval \<Rightarrow> nat \<Rightarrow> pyval" where
  "sanitize_value v depth = sanitize_left (MAX_SANITIZE_DEPTH - depth) v"

text \<open>The dict \<open>JsonFormatter.format\<close> hands to \<open>json.dumps\<close>.\<close>

definition format_record ::
  "string \<Rightarrow> string \<Rightarrow> string \<Rightarrow> string \<Rightarrow> string option \<Rightarrow> (string \<times> string) list \<Rightarrow>
   (string \<times> pyval) list \<Rightarrow> pyval" where
  "format_record timestamp level logger message exception correlation extra_fields =
     (let base = [(''timestamp'', PStr timestamp), (''level'', PStr level), (''logger'', PStr logger),
                  (''message'', PStr (redact_string message))];
          base = (case exception of None \<Rightarrow> base | Some t \<Rightarrow> dict_set ''exception'' (PStr t) base);
          base = dict_update base (map (\<lambda>(k, v). (k, PStr v)) correlation);
          base = dict_update base extra_fields
      in sanitize_value (PDict (map (\<lambda>(k, v). (KStr k, v)) base)) 0)"

end
