(* ===== verification/CreatePayment.thy ===== *)
theory CreatePayment
  imports Kyc LimitsService RateLimiter Risk Aml Idempotency Validation Logging
begin

text \<open>
  \<open>payments_api/use_cases/create_payment.py\<close>, method by method.  Tracing spans have no effect
  in the model.  A use case is built per request from the settings (\<open>create_payment_use_case\<close>);
  the repositories of the bundle share the session, which is the state.
\<close>

record create_payment_use_case =
  uc_idempotency :: idempotency_service
  uc_rate_limiter :: rate_limiter
  uc_limits_cache_ttl :: int
  uc_risk :: risk_service
  uc_aml :: aml_engine
  uc_supported_currencies :: "string list"

record request_context =
  rx_merchant_id :: string
  rx_customer_id :: string
  rx_account_id :: string
  rx_idempotency_key :: string

record control_decision =
  cd_risk_score :: int
  cd_risk_decision :: risk_decision
  cd_aml_decision :: aml_decision
  cd_final_status :: payment_status

section \<open>The request\<close>

definition normalize_currency :: "create_payment_use_case \<Rightarrow> string \<Rightarrow> exn + string" where
  "normalize_currency uc currency =
     (case ensure_supported_currency currency (uc_supported_currencies uc) of
        Inr c \<Rightarrow> Inr c
      | Inl (ValueError m) \<Rightarrow> Inl (ValidationAppError m)
      | Inl x \<Rightarrow> Inl x)"

definition build_request_context ::
  "create_payment_use_case \<Rightarrow> (string \<rightharpoonup> string) \<Rightarrow> create_payment_request \<Rightarrow>
   ('e, 'm, request_context \<times> create_payment_request) act" where
  "build_request_context uc headers request =
     bindM (from_result (require_header headers ''X-Merchant-Id'')) (\<lambda>merchant_id.
     bindM (from_result (require_header headers ''X-Customer-Id'')) (\<lambda>customer_id.
     bindM (from_result (require_header headers ''X-Account-Id'')) (\<lambda>account_id.
     bindM (from_result (require_header headers ''Idempotency-Key'')) (\<lambda>idempotency_key.
     bindM (from_result (normalize_currency uc (rq_currency request))) (\<lambda>currency.
     bindM (update_correlation_context
              [(CUSTOMER_ID, customer_id), (ACCOUNT_ID, account_id),
               (RAIL, method_value (rq_method request))]) (\<lambda>_.
     ret (\<lparr>rx_merchant_id = merchant_id, rx_customer_id = customer_id,
           rx_account_id = account_id, rx_idempotency_key = idempotency_key\<rparr>,
          request\<lparr>rq_currency := currency\<rparr>)))))))"

section \<open>Responses\<close>

definition build_payment_response ::
  "'e outside \<Rightarrow> uuid \<Rightarrow> payment_status \<Rightarrow> risk_decision option \<Rightarrow> aml_decision option \<Rightarrow>
   ('e, 'm, payment_accepted_response) act" where
  "build_payment_response env payment_id status risk_decision aml_decision =
     bindM (outside (o_trace_id env)) (\<lambda>trace_id.
     ret \<lparr>ac_payment_id = payment_id, ac_status = status, ac_trace_id = trace_id,
          ac_risk_decision = risk_decision, ac_aml_decision = aml_decision\<rparr>)"

definition build_response_from_existing_payment ::
  "'e outside \<Rightarrow> payment_row \<Rightarrow> ('e, 'm, payment_accepted_response) act" where
  "build_response_from_existing_payment env payment =
     build_payment_response env (p_payment_id payment) (p_status payment)
       (p_risk_decision payment) (p_aml_decision payment)"

definition build_response_payload ::
  "'e outside \<Rightarrow> control_decision \<Rightarrow> ('e, 'm, payment_accepted_response) act" where
  "build_response_payload env decision =
     bindM (outside (o_uuid4 env)) (\<lambda>payment_id.
     build_payment_response env payment_id (cd_final_status decision)
       (Some (cd_risk_decision decision)) (Some (cd_aml_decision decision)))"

section \<open>Replays\<close>

definition try_return_replayed_response ::
  "'e outside \<Rightarrow> request_context \<Rightarrow> ('e, 'm, payment_accepted_response option) act" where
  "try_return_replayed_response env rx =
     bindM (get_snapshot env (rx_merchant_id rx) (rx_idempotency_key rx)) (\<lambda>snapshot.
     case snapshot of
       None \<Rightarrow> ret None
     | Some row \<Rightarrow>
         bindM (emit (CounterAdd ''idempotency_replay_total'' [])) (\<lambda>_.
         case validate_accepted (ir_response_payload row) of
           None \<Rightarrow> raise (PydanticValidationError ''PaymentAcceptedResponse'')
         | Some response \<Rightarrow> ret (Some response)))"

definition resolve_replayed_after_conflict ::
  "'e outside \<Rightarrow> request_context \<Rightarrow> ('e, 'm, payment_accepted_response option) act" where
  "resolve_replayed_after_conflict env rx =
     bindM (try_return_replayed_response env rx) (\<lambda>replayed.
     case replayed of
       Some response \<Rightarrow> ret (Some response)
     | None \<Rightarrow>
         bindM (get_by_merchant_and_idempotency env (rx_merchant_id rx) (rx_idempotency_key rx)) (\<lambda>existing.
         case existing of
           None \<Rightarrow> ret None
         | Some payment \<Rightarrow>
             bindM (build_response_from_existing_payment env payment) (\<lambda>response.
             ret (Some response))))"

text \<open>\<open>for _ in range(5)\<close>, sleeping 20 ms after each miss.\<close>

primrec poll_pending ::
  "'e outside \<Rightarrow> request_context \<Rightarrow> nat \<Rightarrow> ('e, 'm, payment_accepted_response) act" where
  "poll_pending env rx 0 = raise default_idempotency_conflict"
| "poll_pending env rx (Suc n) =
     bindM (try_return_replayed_response env rx) (\<lambda>replayed.
     case replayed of
       Some response \<Rightarrow> ret response
     | None \<Rightarrow>
         bindM (get_by_merchant_and_idempotency env (rx_merchant_id rx) (rx_idempotency_key rx)) (\<lambda>existing.
         case existing of
           Some payment \<Rightarrow> build_response_from_existing_payment env payment
         | None \<Rightarrow>
             bindM (outside (\<lambda>e. ((), o_sleep env (2 / 100) e))) (\<lambda>_.
             poll_pending env rx n)))"

definition resolve_pending_idempotent_request ::
  "'e outside \<Rightarrow> request_context \<Rightarrow> ('e, 'm, payment_accepted_response) act" where
  "resolve_pending_idempotent_request env rx = poll_pending env rx 5"

section \<open>Checks\<close>

definition rail_attributes :: "payment_method \<Rightarrow> (string \<times> string) list" where
  "rail_attributes rail = [(''rail'', method_value rail)]"

text \<open>The duration (in microseconds of the performance counter) is recorded on every exit.\<close>

definition timed_span ::
  "'e outside \<Rightarrow> string \<Rightarrow> (string \<times> string) list \<Rightarrow> ('e, 'm, 'a) act \<Rightarrow> ('e, 'm, 'a) act" where
  "timed_span env metric attributes body =
     bindM (outside (o_perf_counter env)) (\<lambda>start.
     let record_elapsed = bindM (outside (o_perf_counter env)) (\<lambda>stop.
           emit (HistogramRecord metric (stop - start) attributes))
     in try_else body
          (\<lambda>x. bindM record_elapsed (\<lambda>_. raise x))
          (\<lambda>a. bindM record_elapsed (\<lambda>_. ret a)))"

definition is_kyc_denied :: "exn \<Rightarrow> bool" where
  "is_kyc_denied x = (case x of KycDeniedError _ \<Rightarrow> True | _ \<Rightarrow> False)"

definition is_rate_limited :: "exn \<Rightarrow> bool" where
  "is_rate_limited x = (case x of RateLimitedError _ _ \<Rightarrow> True | _ \<Rightarrow> False)"

definition rate_limited_dimension :: "exn \<Rightarrow> rate_limit_dimension" where
  "rate_limited_dimension x = (case x of RateLimitedError _ d \<Rightarrow> d | _ \<Rightarrow> UNKNOWN_DIMENSION)"

definition load_customer_or_raise :: "'e outside \<Rightarrow> string \<Rightarrow> ('e, 'm, customer_row) act" where
  "load_customer_or_raise env customer_id =
     bindM (get_customer_by_id env customer_id) (\<lambda>customer.
     case customer of
       None \<Rightarrow> raise (ValidationAppError ''Customer not found'')
     | Some c \<Rightarrow> ret c)"

definition enforce_kyc :: "'e outside \<Rightarrow> customer_row \<Rightarrow> payment_method \<Rightarrow> ('e, 'm, unit) act" where
  "enforce_kyc env customer rail =
     catch_if is_kyc_denied
       (timed_span env ''kyc_check_duration'' (rail_attributes rail)
          (from_result (kyc_enforce customer rail)))
       (\<lambda>x. bindM (emit (CounterAdd ''kyc_denied_total'' (rail_attributes rail))) (\<lambda>_. raise x))"

definition enforce_limits ::
  "'e outside \<Rightarrow> create_payment_use_case \<Rightarrow> string \<Rightarrow> create_payment_request \<Rightarrow>
   ('e, 'm, limits_evaluation) act" where
  "enforce_limits env uc customer_id request =
     catch_if is_limit_exceeded
       (timed_span env ''limits_check_duration'' (rail_attributes (rq_method request))
          (limits_enforce env (uc_limits_cache_ttl uc) customer_id (rq_method request) (rq_amount request)))
       (\<lambda>x. bindM (emit (CounterAdd ''limits_exceeded_total'' (rail_attributes (rq_method request))))
              (\<lambda>_. raise x))"

definition enforce_rate_limit ::
  "'e outside \<Rightarrow> create_payment_use_case \<Rightarrow> request_context \<Rightarrow> ('e, 'm, unit) act" where
  "enforce_rate_limit env uc rx =
     catch_if is_rate_limited
       (rate_enforce env (uc_rate_limiter uc) (rx_merchant_id rx) (rx_customer_id rx) (rx_account_id rx))
       (\<lambda>x. bindM (emit (CounterAdd ''rate_limited_total''
                [(''dimension'', dimension_value (rate_limited_dimension x))])) (\<lambda>_. raise x))"

definition run_pre_checks ::
  "'e outside \<Rightarrow> create_payment_use_case \<Rightarrow> request_context \<Rightarrow> create_payment_request \<Rightarrow>
   customer_row \<Rightarrow> ('e, 'm, limits_evaluation) act" where
  "run_pre_checks env uc rx request customer =
     bindM (enforce_kyc env customer (rq_method request)) (\<lambda>_.
     bindM (enforce_limits env uc (rx_customer_id rx) request) (\<lambda>evaluation.
     bindM (enforce_rate_limit env uc rx) (\<lambda>_.
     ret evaluation)))"

section \<open>Controls\<close>

definition resolve_status_from_decisions :: "risk_decision \<Rightarrow> aml_decision \<Rightarrow> payment_status" where
  "resolve_status_from_decisions risk aml =
     (if risk = RISK_BLOCK \<or> aml = AML_BLOCK then BLOCKED
      else if risk = RISK_REVIEW \<or> aml = AML_REVIEW then IN_REVIEW
      else RECEIVED)"

definition evaluate_risk ::
  "'e outside \<Rightarrow> create_payment_use_case \<Rightarrow> customer_row \<Rightarrow> create_payment_request \<Rightarrow>
   limits_evaluation \<Rightarrow> ('e, 'm, int \<times> risk_decision) act" where
  "evaluate_risk env uc customer request evaluation =
     risk_evaluate env (uc_risk uc) customer (rq_amount request) (le_policy evaluation)
       (le_velocity_count evaluation) (rq_destination request)"

definition evaluate_aml ::
  "'e outside \<Rightarrow> create_payment_use_case \<Rightarrow> string \<Rightarrow> create_payment_request \<Rightarrow>
   limits_evaluation \<Rightarrow> ('e, 'm, aml_decision) act" where
  "evaluate_aml env uc customer_id request evaluation =
     aml_evaluate env (uc_aml uc) customer_id (rq_method request) (rq_amount request)
       (rq_destination request) (le_policy evaluation)"

definition evaluate_controls ::
  "'e outside \<Rightarrow> create_payment_use_case \<Rightarrow> customer_row \<Rightarrow> create_payment_request \<Rightarrow>
   limits_evaluation \<Rightarrow> string \<Rightarrow> ('e, 'm, control_decision) act" where
  "evaluate_controls env uc customer request evaluation customer_id =
     bindM (evaluate_risk env uc customer request evaluation) (\<lambda>(risk_score, risk_decision).
     bindM (evaluate_aml env uc customer_id request evaluation) (\<lambda>aml_decision.
     bindM (emit (CounterAdd ''risk_decisions_total'' [(''decision'', risk_value risk_decision)])) (\<lambda>_.
     bindM (emit (CounterAdd ''aml_decisions_total'' [(''decision'', aml_value aml_decision)])) (\<lambda>_.
     ret \<lparr>cd_risk_score = risk_score, cd_risk_decision = risk_decision,
          cd_aml_decision = aml_decision,
          cd_final_status = resolve_status_from_decisions risk_decision aml_decision\<rparr>))))"

definition update_decision_correlation_fields :: "control_decision \<Rightarrow> ('e, 'm, unit) act" where
  "update_decision_correlation_fields decision =
     update_correlation_context
       [(RISK_DECISION, risk_value (cd_risk_decision decision)),
        (AML_DECISION, aml_value (cd_aml_decision decision))]"

section \<open>The transaction\<close>

definition persist_outbox_events ::
  "'e outside \<Rightarrow> request_context \<Rightarrow> payment_accepted_response \<Rightarrow> ('e, 'm, unit) act" where
  "persist_outbox_events env rx response =
     (if ac_status response = RECEIVED
      then bindM (outside (o_trace_id env)) (\<lambda>trace_id.
           bindM (outside (o_traceparent env)) (\<lambda>traceparent.
           add_event env (ac_payment_id response) PAYMENT_REQUESTED
             (payment_requested_payload (ac_payment_id response) (rx_merchant_id rx) trace_id traceparent)))
      else if ac_status response = IN_REVIEW
      then add_event env (ac_payment_id response) PAYMENT_REVIEW_REQUIRED
             (payment_review_required_payload (ac_payment_id response) (rx_merchant_id rx)
                (review_reason_value RISK_OR_AML_REVIEW))
      else ret ())"

definition payment_data ::
  "request_context \<Rightarrow> create_payment_request \<Rightarrow> control_decision \<Rightarrow> payment_accepted_response \<Rightarrow>
   payment_create_data" where
  "payment_data rx request decision response =
     \<lparr>pc_payment_id = ac_payment_id response, pc_merchant_id = rx_merchant_id rx,
      pc_customer_id = rx_customer_id rx, pc_account_id = rx_account_id rx,
      pc_amount = rq_amount request, pc_currency = rq_currency request,
      pc_method = rq_method request, pc_destination = rq_destination request,
      pc_status = ac_status response, pc_idempotency_key = rx_idempotency_key rx,
      pc_risk_score = cd_risk_score decision, pc_risk_decision = cd_risk_decision decision,
      pc_aml_decision = cd_aml_decision decision, pc_metadata = rq_metadata request\<rparr>"

definition persist_payment_and_outbox ::
  "'e outside \<Rightarrow> request_context \<Rightarrow> create_payment_request \<Rightarrow> control_decision \<Rightarrow>
   payment_accepted_response \<Rightarrow> ('e, 'm, unit) act" where
  "persist_payment_and_outbox env rx request decision response =
     bindM (create_payment_row env (payment_data rx request decision response)) (\<lambda>_.
     persist_outbox_events env rx response)"

definition is_integrity_error :: "exn \<Rightarrow> bool" where
  "is_integrity_error x = (x = IntegrityError)"

definition persist_payment_transaction ::
  "'e outside \<Rightarrow> request_context \<Rightarrow> create_payment_request \<Rightarrow> control_decision \<Rightarrow>
   payment_accepted_response \<Rightarrow> ('e, 'm, payment_accepted_response option) act" where
  "persist_payment_transaction env rx request decision response =
     catch_if is_integrity_error
       (bindM (persist_payment_and_outbox env rx request decision response) (\<lambda>_.
        bindM (create_snapshot env (rx_merchant_id rx) (rx_idempotency_key rx)
                 (ac_payment_id response) 202 (dump_accepted response)) (\<lambda>_.
        bindM (db_commit env) (\<lambda>_.
        ret None))))
       (\<lambda>_. bindM db_rollback (\<lambda>_.
            bindM (resolve_replayed_after_conflict env rx) (\<lambda>replayed.
            case replayed of
              Some r \<Rightarrow> ret (Some r)
            | None \<Rightarrow> raise default_idempotency_conflict)))"

definition after_commit_observability ::
  "'e outside \<Rightarrow> create_payment_use_case \<Rightarrow> request_context \<Rightarrow> create_payment_request \<Rightarrow>
   payment_accepted_response \<Rightarrow> control_decision \<Rightarrow> ('e, 'm, unit) act" where
  "after_commit_observability env uc rx request response decision =
     bindM (if ac_status response \<noteq> BLOCKED
            then record_outgoing env (uc_aml uc) (rx_customer_id rx) (rq_method request) (rq_amount request)
            else ret ()) (\<lambda>_.
     bindM (count_in_review env) (\<lambda>queue_size.
     bindM (emit (HistogramRecord ''review_queue_size'' queue_size [])) (\<lambda>_.
     emit (LogLine ''payment_created''
       [(PAYMENT_ID, PStr (ac_payment_id response)),
        (STATUS, PStr (payment_status_value (ac_status response))),
        (RISK_DECISION, PStr (risk_value (cd_risk_decision decision))),
        (AML_DECISION, PStr (aml_value (cd_aml_decision decision))),
        (DESTINATION, opt_str (rq_destination request))]))))"

definition create_payment_with_controls ::
  "'e outside \<Rightarrow> create_payment_use_case \<Rightarrow> request_context \<Rightarrow> create_payment_request \<Rightarrow>
   ('e, 'm, payment_accepted_response) act" where
  "create_payment_with_controls env uc rx request =
     bindM (load_customer_or_raise env (rx_customer_id rx)) (\<lambda>customer.
     bindM (run_pre_checks env uc rx request customer) (\<lambda>evaluation.
     bindM (evaluate_controls env uc customer request evaluation (rx_customer_id rx)) (\<lambda>decision.
     bindM (build_response_payload env decision) (\<lambda>response.
     bindM (update_decision_correlation_fields decision) (\<lambda>_.
     bindM (persist_payment_transaction env rx request decision response) (\<lambda>replayed.
     case replayed of
       Some r \<Rightarrow> ret r
     | None \<Rightarrow>
         bindM (after_commit_observability env uc rx request response decision) (\<lambda>_.
         ret response)))))))"

definition acquire_idempotency_lock ::
  "'e outside \<Rightarrow> create_payment_use_case \<Rightarrow> request_context \<Rightarrow> ('e, 'm, bool) act" where
  "acquire_idempotency_lock env uc rx =
     acquire env (uc_idempotency uc) (rx_merchant_id rx) (rx_idempotency_key rx)"

definition create_execute ::
  "'e outside \<Rightarrow> create_payment_use_case \<Rightarrow> create_payment_request \<Rightarrow> (string \<rightharpoonup> string) \<Rightarrow>
   ('e, 'm, payment_accepted_response) act" where
  "create_execute env uc request headers =
     bindM (build_request_context uc headers request) (\<lambda>(rx, request).
     in_session
       (bindM (try_return_replayed_response env rx) (\<lambda>replayed.
        case replayed of
          Some r \<Rightarrow> ret r
        | None \<Rightarrow>
            bindM (acquire_idempotency_lock env uc rx) (\<lambda>acquired.
            if \<not> acquired then resolve_pending_idempotent_request env rx
            else create_payment_with_controls env uc rx request))))"

end
