(* ===== verification/ReviewPayment.thy ===== *)
theory ReviewPayment
  imports CreatePayment
begin

text \<open>
  \<open>payments_api/use_cases/review_payment.py\<close> and \<open>get_payment.py\<close>: a human approves or rejects a
  payment in review; a client reads a payment back.
\<close>

definition load_review_payment_or_raise :: "'e outside \<Rightarrow> uuid \<Rightarrow> ('e, 'm, payment_row) act" where
  "load_review_payment_or_raise env payment_id =
     bindM (get_by_payment_id env payment_id) (\<lambda>payment.
     case payment of
       None \<Rightarrow> raise (ValidationAppError ''Payment not found'')
     | Some p \<Rightarrow>
         if p_status p \<noteq> IN_REVIEW then raise (ValidationAppError ''Payment is not in review'')
         else ret p)"

definition record_review_queue_size :: "'e outside \<Rightarrow> ('e, 'm, unit) act" where
  "record_review_queue_size env =
     bindM (count_in_review env) (\<lambda>queue_size.
     emit (HistogramRecord ''review_queue_size'' queue_size []))"

definition build_review_response ::
  "'e outside \<Rightarrow> uuid \<Rightarrow> payment_status \<Rightarrow> payment_row \<Rightarrow> ('e, 'm, payment_accepted_response) act" where
  "build_review_response env payment_id status payment =
     build_payment_response env payment_id status (p_risk_decision payment) (p_aml_decision payment)"

definition enqueue_payment_requested :: "'e outside \<Rightarrow> uuid \<Rightarrow> string \<Rightarrow> ('e, 'm, unit) act" where
  "enqueue_payment_requested env payment_id merchant_id =
     bindM (outside (o_trace_id env)) (\<lambda>trace_id.
     bindM (outside (o_traceparent env)) (\<lambda>traceparent.
     add_event env payment_id PAYMENT_REQUESTED
       (payment_requested_payload payment_id merchant_id trace_id traceparent)))"

definition approve_execute :: "'e outside \<Rightarrow> uuid \<Rightarrow> ('e, 'm, payment_accepted_response) act" where
  "approve_execute env payment_id = in_session
     (bindM (load_review_payment_or_raise env payment_id) (\<lambda>payment.
      bindM (update_status env payment_id RECEIVED None) (\<lambda>_.
      bindM (enqueue_payment_requested env payment_id (p_merchant_id payment)) (\<lambda>_.
      bindM (db_commit env) (\<lambda>_.
      bindM (record_review_queue_size env) (\<lambda>_.
      build_review_response env payment_id RECEIVED payment))))))"

definition reject_execute :: "'e outside \<Rightarrow> uuid \<Rightarrow> ('e, 'm, payment_accepted_response) act" where
  "reject_execute env payment_id = in_session
     (bindM (load_review_payment_or_raise env payment_id) (\<lambda>payment.
      bindM (update_status env payment_id BLOCKED
               (Some (failure_reason_value MANUAL_REVIEW_REJECTED))) (\<lambda>_.
      bindM (db_commit env) (\<lambda>_.
      bindM (record_review_queue_size env) (\<lambda>_.
      build_review_response env payment_id BLOCKED payment)))))"

definition payment_status_view :: "payment_row \<Rightarrow> payment_status_response" where
  "payment_status_view p =
     \<lparr>sr_payment_id = p_payment_id p, sr_merchant_id = p_merchant_id p,
      sr_customer_id = p_customer_id p, sr_account_id = p_account_id p, sr_amount = p_amount p,
      sr_currency = p_currency p, sr_method = p_method p, sr_status = p_status p,
      sr_idempotency_key = p_idempotency_key p, sr_risk_score = p_risk_score p,
      sr_risk_decision = p_risk_decision p, sr_aml_decision = p_aml_decision p,
      sr_created_at = p_created_at p, sr_updated_at = p_updated_at p,
      sr_last_error = p_last_error p\<rparr>"

definition get_execute :: "'e outside \<Rightarrow> uuid \<Rightarrow> ('e, 'm, payment_status_response) act" where
  "get_execute env payment_id = in_session
     (bindM (get_by_payment_id env payment_id) (\<lambda>payment.
      case payment of
        None \<Rightarrow> raise (ValidationAppError ''Payment not found'')
      | Some p \<Rightarrow> ret (payment_status_view p)))"

end
