(* ===== verification/Api.thy ===== *)
theory Api
  imports ReviewPayment
begin

text \<open>
  The HTTP layer of the API: bearer authentication (\<open>api/dependencies.py\<close>), the routes
  (\<open>api/routes_payments.py\<close>), the exception handlers (\<open>core/error_handlers.py\<close>), the telemetry
  middleware (\<open>main.py\<close>), and the seeding of a local database (\<open>db/session.py\<close>).
\<close>

section \<open>Authentication\<close>

record auth_settings =
  au_enabled :: bool
  au_token :: "string option"

definition www_authenticate :: "(string \<times> string) list" where
  "www_authenticate = [(''WWW-Authenticate'', ''Bearer'')]"

definition unauthorized :: "string \<Rightarrow> exn" where
  "unauthorized detail = HTTPException 401 detail www_authenticate"

definition is_ascii :: "string \<Rightarrow> bool" where
  "is_ascii s = list_all (\<lambda>c. code_of c < 128) s"

text \<open>\<open>secrets.compare_digest\<close> on texts refuses characters outside ASCII.\<close>

definition compare_digest :: "string \<Rightarrow> string \<Rightarrow> exn + bool" where
  "compare_digest a b =
     (if is_ascii a \<and> is_ascii b then Inr (a = b)
      else Inl (TypeError ''comparing strings with non-ASCII characters is not supported''))"

definition non_empty :: "string option \<Rightarrow> string option" where
  "non_empty x = (case x of None \<Rightarrow> None | Some s \<Rightarrow> if s = [] then None else Some s)"

definition enforce_api_auth :: "auth_settings option \<Rightarrow> string option \<Rightarrow> exn + unit" where
  "enforce_api_auth app_settings authorization =
     (case app_settings of
        None \<Rightarrow> Inr ()
      | Some settings \<Rightarrow>
          if \<not> au_enabled settings then Inr ()
          else case non_empty (au_token settings) of
            None \<Rightarrow> Inl (HTTPException 500 ''Authentication is misconfigured'' [])
          | Some expected \<Rightarrow>
              (case non_empty authorization of
                 None \<Rightarrow> Inl (unauthorized ''Missing bearer token'')
               | Some header \<Rightarrow>
                   if \<not> py_starts_with ''Bearer '' header
                   then Inl (unauthorized ''Invalid authorization scheme'')
                   else (case compare_digest (py_strip (drop 7 header)) expected of
                           Inl x \<Rightarrow> Inl x
                         | Inr same \<Rightarrow> if \<not> same then Inl (unauthorized ''Invalid bearer token'')
                                       else Inr ())))"

section \<open>Responses\<close>

record http_response =
  hr_status_code :: int
  hr_content :: pyval
  hr_headers :: "string \<rightharpoonup> string"

definition error_content :: "string \<Rightarrow> string \<Rightarrow> pyval" where
  "error_content category message =
     PDict [(KStr ''error'', PDict [(KStr ''category'', PStr category), (KStr ''message'', PStr message)])]"

definition GENERIC_INTERNAL_ERROR_MESSAGE :: string where
  "GENERIC_INTERNAL_ERROR_MESSAGE = ''Internal server error''"

definition handle_app_error :: "error_category \<Rightarrow> string \<Rightarrow> int \<Rightarrow> ('e, 'm, http_response) act" where
  "handle_app_error category message http_status =
     bindM (emit (LogLine ''application_error'' [(''error_category'', PStr (error_category_value category))])) (\<lambda>_.
     ret \<lparr>hr_status_code = http_status,
          hr_content = error_content (error_category_value category) message, hr_headers = Map.empty\<rparr>)"

definition handle_unexpected :: "('e, 'm, http_response) act" where
  "handle_unexpected =
     bindM (emit (LogLine ''unexpected_error'' [(''error_category'', PStr ''unexpected'')])) (\<lambda>_.
     ret \<lparr>hr_status_code = 500,
          hr_content = error_content ''unexpected'' GENERIC_INTERNAL_ERROR_MESSAGE,
          hr_headers = Map.empty\<rparr>)"

text \<open>
  The handler of \<open>AppError\<close> runs inside the middleware; an \<open>HTTPException\<close> is answered there too.
  Any other exception leaves the middleware and reaches \<open>handle_unexpected\<close>.
\<close>

definition answer_app_errors :: "('e, 'm, http_response) act \<Rightarrow> ('e, 'm, http_response) act" where
  "answer_app_errors route =
     catch route (\<lambda>x. case as_app_error x of
         Some (category, message, http_status) \<Rightarrow> handle_app_error category message http_status
       | None \<Rightarrow>
           (case x of
              HTTPException code detail headers \<Rightarrow>
                ret \<lparr>hr_status_code = code, hr_content = PDict [(KStr ''detail'', PStr detail)],
                     hr_headers = map_of headers\<rparr>
            | _ \<Rightarrow> raise x))"

definition telemetry_middleware ::
  "'e outside \<Rightarrow> string \<Rightarrow> string \<Rightarrow> ('e, 'm, http_response) act \<Rightarrow> ('e, 'm, http_response) act" where
  "telemetry_middleware env path http_method call_next =
     bindM (outside (o_perf_counter env)) (\<lambda>start.
     bindM (emit (CounterAdd ''payments_api_request_total''
              [(''path'', path), (''method'', http_method)])) (\<lambda>_.
     bindM call_next (\<lambda>response.
     bindM (outside (o_perf_counter env)) (\<lambda>stop.
     bindM (emit (HistogramRecord ''payments_api_request_latency_ms'' (stop - start)
              [(''path'', path), (''method'', http_method)])) (\<lambda>_.
     bindM (if 400 \<le> hr_status_code response
            then emit (CounterAdd ''payments_api_error_total''
              [(''path'', path), (''method'', http_method),
               (''status_code'', show_int (hr_status_code response))])
            else ret ()) (\<lambda>_.
     bindM (outside (o_trace_id env)) (\<lambda>trace_id.
     ret (response\<lparr>hr_headers :=
            apply_security_headers ((hr_headers response)(''X-Trace-Id'' \<mapsto> trace_id))\<rparr>))))))))"

section \<open>Routes\<close>

definition create_headers ::
  "create_payment_request \<Rightarrow> string \<Rightarrow> string \<Rightarrow> string \<Rightarrow> string \<Rightarrow> (string \<rightharpoonup> string)" where
  "create_headers payload idempotency_key merchant_id customer_id account_id =
     [''Idempotency-Key'' \<mapsto> idempotency_key, ''X-Merchant-Id'' \<mapsto> merchant_id,
      ''X-Customer-Id'' \<mapsto> customer_id, ''X-Account-Id'' \<mapsto> account_id,
      ''X-Rail'' \<mapsto> method_value (rq_method payload)]"

definition accepted_response :: "int \<Rightarrow> payment_accepted_response \<Rightarrow> http_response" where
  "accepted_response code r =
     \<lparr>hr_status_code = code, hr_content = dump_accepted r, hr_headers = Map.empty\<rparr>"

definition route_create_payment ::
  "'e outside \<Rightarrow> create_payment_use_case \<Rightarrow> auth_settings option \<Rightarrow> string option \<Rightarrow>
   create_payment_request \<Rightarrow> string \<Rightarrow> string \<Rightarrow> string \<Rightarrow> string \<Rightarrow> ('e, 'm, http_response) act" where
  "route_create_payment env uc auth authorization payload idempotency_key merchant_id customer_id account_id =
     bindM (from_result (enforce_api_auth auth authorization)) (\<lambda>_.
     bindM (create_execute env uc payload
              (create_headers payload idempotency_key merchant_id customer_id account_id)) (\<lambda>r.
     ret (accepted_response 202 r)))"

definition route_approve_review ::
  "'e outside \<Rightarrow> auth_settings option \<Rightarrow> string option \<Rightarrow> uuid \<Rightarrow> ('e, 'm, http_response) act" where
  "route_approve_review env auth authorization payment_id =
     bindM (from_result (enforce_api_auth auth authorization)) (\<lambda>_.
     bindM (approve_execute env payment_id) (\<lambda>r. ret (accepted_response 200 r)))"

definition route_reject_review ::
  "'e outside \<Rightarrow> auth_settings option \<Rightarrow> string option \<Rightarrow> uuid \<Rightarrow> ('e, 'm, http_response) act" where
  "route_reject_review env auth authorization payment_id =
     bindM (from_result (enforce_api_auth auth authorization)) (\<lambda>_.
     bindM (reject_execute env payment_id) (\<lambda>r. ret (accepted_response 200 r)))"

text \<open>The whole stack around a route, outermost first.\<close>

definition serve ::
  "'e outside \<Rightarrow> string \<Rightarrow> string \<Rightarrow> (string \<rightharpoonup> string) \<Rightarrow> ('e, 'm, http_response) act \<Rightarrow>
   ('e, 'm, http_response) act" where
  "serve env path http_method headers route =
     catch
       (telemetry_middleware env path http_method
         (correlation_middleware env headers (answer_app_errors route)))
       (\<lambda>_. handle_unexpected)"

section \<open>Seeding\<close>

definition seed_customer :: "moment \<Rightarrow> string \<Rightarrow> kyc_level \<Rightarrow> customer_status \<Rightarrow> customer_row" where
  "seed_customer now cid level status =
     \<lparr>cu_customer_id = cid, cu_kyc_level = level, cu_status = status, cu_created_at = Some now\<rparr>"

definition seed_customers :: "moment \<Rightarrow> customer_row list" where
  "seed_customers now =
     [seed_customer now ''customer-basic-001'' KYC_BASIC ACTIVE,
      seed_customer now ''customer-full-001'' KYC_FULL ACTIVE,
      seed_customer now ''customer-suspended-001'' KYC_FULL SUSPENDED,
      seed_customer now ''customer-none-001'' KYC_NONE ACTIVE]"

definition seed_policy :: "payment_method \<Rightarrow> int \<Rightarrow> int \<Rightarrow> int \<Rightarrow> int \<Rightarrow> limits_policy_row" where
  "seed_policy rail min_cents max_cents daily_cents velocity =
     \<lparr>lr_rail = rail, lr_min_amount = Dec min_cents (-2), lr_max_amount = Dec max_cents (-2),
      lr_daily_limit_amount = Dec daily_cents (-2), lr_velocity_limit_count = velocity,
      lr_velocity_window_seconds = 60\<rparr>"

definition seed_limits_policies :: "limits_policy_row list" where
  "seed_limits_policies =
     [seed_policy PIX 100 500000 2000000 10, seed_policy BOLETO 500 1000000 3000000 5,
      seed_policy TED 5000 2000000 5000000 4, seed_policy CARD 100 800000 2500000 12]"

definition seed_customers_step :: "'e outside \<Rightarrow> ('e, 'm, unit) act" where
  "seed_customers_step env =
     bindM (db_select env (\<lambda>d. take 1 (map cu_customer_id (db_customers d)))) (\<lambda>rows.
     bindM (scalar_one_or_none rows) (\<lambda>existing.
     if non_empty existing \<noteq> None then ret ()
     else bindM (outside (o_db_now env)) (\<lambda>now.
          db_write (insert_customers (seed_customers now)))))"

definition seed_limits_step :: "'e outside \<Rightarrow> ('e, 'm, unit) act" where
  "seed_limits_step env =
     bindM (db_select env (\<lambda>d. take 1 (map lr_rail (db_limits d)))) (\<lambda>rows.
     bindM (scalar_one_or_none rows) (\<lambda>existing.
     if existing \<noteq> None then ret ()
     else db_write (insert_limits seed_limits_policies)))"

definition init_db :: "'e outside \<Rightarrow> ('e, 'm, unit) act" where
  "init_db env = in_session
     (bindM (seed_customers_step env) (\<lambda>_.
      bindM (seed_limits_step env) (\<lambda>_.
      db_commit env)))"

end
