(* ===== verification/Resilience.thy ===== *)
theory Resilience
  imports World PyTime
begin

text \<open>
  \<open>shared/resilience\<close>: the circuit breaker, the exponential backoff, the retry loop and the
  bulkhead.  Delays are rationals where the source computes with floats.
\<close>

section \<open>Circuit breaker\<close>

datatype circuit_state = CLOSED | OPEN | HALF_OPEN

primrec circuit_state_value :: "circuit_state \<Rightarrow> string" where
  "circuit_state_value CLOSED = ''closed''"
| "circuit_state_value OPEN = ''open''"
| "circuit_state_value HALF_OPEN = ''half_open''"

record circuit_breaker_config =
  cc_failure_threshold :: int
  cc_recovery_timeout_seconds :: int

record circuit_breaker =
  cb_config :: circuit_breaker_config
  cb_state :: circuit_state
  cb_failures :: int
  cb_opened_at :: "moment option"

definition new_breaker :: "circuit_breaker_config \<Rightarrow> circuit_breaker" where
  "new_breaker cfg = \<lparr>cb_config = cfg, cb_state = CLOSED, cb_failures = 0, cb_opened_at = None\<rparr>"

text \<open>The clock is the argument \<open>now\<close>; each operation reads it at most once.\<close>

definition can_half_open :: "circuit_breaker \<Rightarrow> moment \<Rightarrow> bool" where
  "can_half_open cb now = (case cb_opened_at cb of
       None \<Rightarrow> False
     | Some opened_at \<Rightarrow> opened_at + cc_recovery_timeout_seconds (cb_config cb) * second \<le> now)"

definition breaker_state :: "circuit_breaker \<Rightarrow> moment \<Rightarrow> string \<times> circuit_breaker" where
  "breaker_state cb now =
     (let cb' = (if cb_state cb = OPEN \<and> can_half_open cb now then cb\<lparr>cb_state := HALF_OPEN\<rparr> else cb)
      in (circuit_state_value (cb_state cb'), cb'))"

definition breaker_allow_call :: "circuit_breaker \<Rightarrow> moment \<Rightarrow> (exn + unit) \<times> circuit_breaker" where
  "breaker_allow_call cb now =
     (if cb_state cb = OPEN \<and> \<not> can_half_open cb now
      then (Inl (CircuitBreakerOpenError ''Circuit is open''), cb)
      else if cb_state cb = OPEN then (Inr (), cb\<lparr>cb_state := HALF_OPEN\<rparr>)
      else (Inr (), cb))"

definition breaker_on_success :: "circuit_breaker \<Rightarrow> circuit_breaker" where
  "breaker_on_success cb = cb\<lparr>cb_state := CLOSED, cb_failures := 0, cb_opened_at := None\<rparr>"

definition trip_open :: "circuit_breaker \<Rightarrow> moment \<Rightarrow> circuit_breaker" where
  "trip_open cb now = cb\<lparr>cb_state := OPEN, cb_opened_at := Some now\<rparr>"

definition breaker_on_failure :: "circuit_breaker \<Rightarrow> moment \<Rightarrow> circuit_breaker" where
  "breaker_on_failure cb now =
     (if cb_state cb = HALF_OPEN then trip_open cb now
      else let cb' = cb\<lparr>cb_failures := cb_failures cb + 1\<rparr>
           in if cc_failure_threshold (cb_config cb) \<le> cb_failures cb' then trip_open cb' now else cb')"

text \<open>The operations as steps, each at a time of its own.\<close>

datatype breaker_event = BAllow bool | BSuccess | BFailure | BState

inductive breaker_step :: "circuit_breaker \<Rightarrow> moment \<Rightarrow> breaker_event \<Rightarrow> circuit_breaker \<Rightarrow> bool" where
  step_allow: "breaker_allow_call cb now = (r, cb') \<Longrightarrow> breaker_step cb now (BAllow (r = Inr ())) cb'"
| step_success: "breaker_step cb now BSuccess (breaker_on_success cb)"
| step_failure: "breaker_step cb now BFailure (breaker_on_failure cb now)"
| step_state: "breaker_step cb now BState (snd (breaker_state cb now))"

inductive_cases breaker_step_allowE: "breaker_step cb now (BAllow b) cb'"
inductive_cases breaker_step_successE: "breaker_step cb now BSuccess cb'"
inductive_cases breaker_step_failureE: "breaker_step cb now BFailure cb'"
inductive_cases breaker_step_stateE: "breaker_step cb now BState cb'"

inductive breaker_run ::
  "circuit_breaker \<Rightarrow> (moment \<times> breaker_event) list \<Rightarrow> circuit_breaker \<Rightarrow> bool" where
  run_nil: "breaker_run cb [] cb"
| run_cons: "breaker_step cb now ev cb1 \<Longrightarrow> breaker_run cb1 tr cb2 \<Longrightarrow> breaker_run cb ((now, ev) # tr) cb2"

text \<open>
  What every reachable breaker satisfies: a tripped or probing breaker knows when it opened; a
  closed one has counted fewer failures than the threshold.
\<close>

definition breaker_ok :: "circuit_breaker \<Rightarrow> bool" where
  "breaker_ok cb \<longleftrightarrow>
     0 \<le> cb_failures cb \<and> 1 \<le> cc_failure_threshold (cb_config cb) \<and>
     (cb_state cb = CLOSED \<longrightarrow> cb_opened_at cb = None \<and> cb_failures cb < cc_failure_threshold (cb_config cb)) \<and>
     (cb_state cb \<noteq> CLOSED \<longrightarrow> cb_opened_at cb \<noteq> None \<and> cc_failure_threshold (cb_config cb) \<le> cb_failures cb)"

lemmas breaker_defs = breaker_allow_call_def breaker_on_success_def breaker_on_failure_def
  trip_open_def breaker_state_def can_half_open_def

lemma breaker_ok_new: "1 \<le> cc_failure_threshold cfg \<Longrightarrow> breaker_ok (new_breaker cfg)"
  by (simp add: breaker_ok_def new_breaker_def)

lemma breaker_ok_step: "breaker_step cb now ev cb' \<Longrightarrow> breaker_ok cb \<Longrightarrow> breaker_ok cb'"
  by (induction rule: breaker_step.induct)
     (auto simp: breaker_ok_def breaker_defs Let_def split: if_splits)

lemma breaker_ok_run: "breaker_run cb tr cb' \<Longrightarrow> breaker_ok cb \<Longrightarrow> breaker_ok cb'"
  by (induction rule: breaker_run.induct) (auto dest: breaker_ok_step)

lemma breaker_config_step: "breaker_step cb now ev cb' \<Longrightarrow> cb_config cb' = cb_config cb"
  by (induction rule: breaker_step.induct) (auto simp: breaker_defs Let_def split: if_splits)

text \<open>
  While open and before the recovery time every call is refused: an open breaker stays as it is
  under refused calls and reads of its state.
\<close>

lemma open_refuses:
  assumes "cb_state cb = OPEN" and "\<not> can_half_open cb now"
  shows "breaker_allow_call cb now = (Inl (CircuitBreakerOpenError ''Circuit is open''), cb)"
  using assms by (simp add: breaker_allow_call_def)

definition too_early :: "circuit_breaker \<Rightarrow> moment \<Rightarrow> bool" where
  "too_early cb now = (cb_state cb = OPEN \<and> \<not> can_half_open cb now)"

lemma open_run_refuses_all:
  assumes "breaker_run cb tr cb'" and "cb_state cb = OPEN"
    and "\<forall>(now, ev)\<in>set tr. (\<exists>b. ev = BAllow b) \<or> ev = BState"
    and "\<forall>(now, ev)\<in>set tr. \<not> can_half_open cb now"
  shows "cb' = cb \<and> (\<forall>(now, ev)\<in>set tr. ev \<noteq> BAllow True)"
  using assms
proof (induction rule: breaker_run.induct)
  case (run_cons cb now ev cb1 tr cb2)
  have e: "\<not> can_half_open cb now" "(\<exists>b. ev = BAllow b) \<or> ev = BState" using run_cons.prems by auto
  have "cb1 = cb \<and> ev \<noteq> BAllow True"
    using run_cons.hyps(1) e run_cons.prems(1)
    by (cases rule: breaker_step.cases) (auto simp: breaker_allow_call_def breaker_state_def)
  then show ?case using run_cons.IH run_cons.prems by auto
qed auto

text \<open>Failures in a row trip a closed breaker exactly when the threshold is reached.\<close>

lemma failures_trip:
  assumes "breaker_ok cb" and "cb_state cb = CLOSED"
    and "int (length ts) = cc_failure_threshold (cb_config cb) - cb_failures cb - 1"
  shows "cb_state (fold (\<lambda>t c. breaker_on_failure c t) ts cb) = CLOSED \<and>
         cb_state (breaker_on_failure (fold (\<lambda>t c. breaker_on_failure c t) ts cb) now) = OPEN"
  using assms
proof (induction ts arbitrary: cb)
  case Nil
  then show ?case by (auto simp: breaker_on_failure_def trip_open_def Let_def)
next
  case (Cons t ts)
  let ?cb = "breaker_on_failure cb t"
  have cb: "?cb = cb\<lparr>cb_failures := cb_failures cb + 1\<rparr>"
    using Cons.prems by (simp add: breaker_on_failure_def Let_def)
  have "breaker_ok ?cb" using breaker_ok_step [OF step_failure Cons.prems(1)] .
  moreover have "cb_state ?cb = CLOSED" using Cons.prems(2) cb by simp
  moreover have "int (length ts) = cc_failure_threshold (cb_config ?cb) - cb_failures ?cb - 1"
    using Cons.prems(3) cb by simp
  ultimately show ?case using Cons.IH [of ?cb] by simp
qed

section \<open>Backoff\<close>

definition backoff_raw :: "int \<Rightarrow> rat \<Rightarrow> rat \<Rightarrow> rat" where
  "backoff_raw attempt base_seconds cap_seconds =
     min cap_seconds (base_seconds * 2 ^ nat (max 0 (attempt - 1)))"

text \<open>\<open>random.uniform(a, b)\<close> is \<open>a + (b - a) * random()\<close>.\<close>

definition uniform :: "rat \<Rightarrow> rat \<Rightarrow> rat \<Rightarrow> rat" where
  "uniform a b u = a + (b - a) * u"

definition backoff_delay :: "int \<Rightarrow> rat \<Rightarrow> rat \<Rightarrow> rat \<Rightarrow> rat \<Rightarrow> rat" where
  "backoff_delay attempt base_seconds cap_seconds jitter u =
     (let raw = backoff_raw attempt base_seconds cap_seconds; spread = raw * jitter
      in max 0 (raw + uniform (- spread) spread u))"

definition exponential_backoff ::
  "'e outside \<Rightarrow> int \<Rightarrow> rat \<Rightarrow> rat \<Rightarrow> rat \<Rightarrow> ('e, 'm, rat) act" where
  "exponential_backoff env attempt base_seconds cap_seconds jitter =
     bindM (outside (o_random env)) (\<lambda>u.
     ret (backoff_delay attempt base_seconds cap_seconds jitter u))"

lemma backoff_raw_bounds:
  assumes "0 \<le> base" and "0 \<le> cap"
  shows "0 \<le> backoff_raw n base cap" and "backoff_raw n base cap \<le> cap"
  using assms by (simp_all add: backoff_raw_def)

lemma backoff_raw_mono:
  assumes "0 \<le> base" and "m \<le> n"
  shows "backoff_raw m base cap \<le> backoff_raw n base cap"
proof -
  have "nat (max 0 (m - 1)) \<le> nat (max 0 (n - 1))" using assms(2) by auto
  then have "(2::rat) ^ nat (max 0 (m - 1)) \<le> 2 ^ nat (max 0 (n - 1))"
    by (intro power_increasing) simp_all
  then have "base * 2 ^ nat (max 0 (m - 1)) \<le> base * 2 ^ nat (max 0 (n - 1))"
    using assms(1) by (rule mult_left_mono)
  then show ?thesis by (simp add: backoff_raw_def min.coboundedI2)
qed

lemma backoff_delay_bounds:
  assumes b: "0 \<le> base" "0 \<le> cap" and j: "0 \<le> j" "j \<le> 1" and u: "0 \<le> u" "u \<le> 1"
  shows "(1 - j) * backoff_raw n base cap \<le> backoff_delay n base cap j u"
    and "backoff_delay n base cap j u \<le> (1 + j) * backoff_raw n base cap"
    and "backoff_delay n base cap j u \<le> (1 + j) * cap"
proof -
  let ?r = "backoff_raw n base cap"
  have r: "0 \<le> ?r" "?r \<le> cap" using backoff_raw_bounds [OF b] by auto
  have s: "0 \<le> ?r * j" using r j by simp
  have e: "uniform (- (?r * j)) (?r * j) u = (?r * j) * (2 * u - 1)"
    by (simp add: uniform_def algebra_simps)
  have lo: "- (?r * j) \<le> (?r * j) * (2 * u - 1)"
    using mult_left_mono [of "-1" "2 * u - 1" "?r * j"] s u by simp
  have hi: "(?r * j) * (2 * u - 1) \<le> ?r * j"
    using mult_left_mono [of "2 * u - 1" 1 "?r * j"] s u by simp
  have p: "0 \<le> (1 - j) * ?r" using r j by simp
  have d: "backoff_delay n base cap j u = max 0 (?r + (?r * j) * (2 * u - 1))"
    by (simp only: backoff_delay_def Let_def e)
  have f: "(1 - j) * ?r = ?r - ?r * j" "(1 + j) * ?r = ?r + ?r * j" by (simp_all add: algebra_simps)
  show "(1 - j) * ?r \<le> backoff_delay n base cap j u"
    unfolding d f using lo by (intro max.coboundedI2) linarith
  show up: "backoff_delay n base cap j u \<le> (1 + j) * ?r"
    unfolding d f using hi r s by (intro max.boundedI) linarith+
  have "(1 + j) * ?r \<le> (1 + j) * cap" using r j by (intro mult_left_mono) simp_all
  then show "backoff_delay n base cap j u \<le> (1 + j) * cap" using up by simp
qed

section \<open>Retry\<close>

text \<open>
  \<open>for attempt in range(1, max_attempts + 1)\<close>: the list is what is left of the range.  After the
  loop the last error is raised again, or a \<open>RuntimeError\<close> when the range was empty.
\<close>

primrec retry_loop ::
  "'e outside \<Rightarrow> ('e, 'm, 'a) act \<Rightarrow> (exn \<Rightarrow> bool) \<Rightarrow> int \<Rightarrow> rat \<Rightarrow> int list \<Rightarrow> exn option \<Rightarrow>
   ('e, 'm, 'a) act" where
  "retry_loop env operation should_retry max_attempts base_seconds [] last_error =
     (case last_error of
        Some x \<Rightarrow> raise x
      | None \<Rightarrow> raise (RuntimeError ''retry_async reached an invalid state''))"
| "retry_loop env operation should_retry max_attempts base_seconds (attempt # attempts) last_error =
     try_else operation
       (\<lambda>x. if \<not> should_retry x \<or> attempt = max_attempts then raise x
            else bindM (exponential_backoff env attempt base_seconds 2 (1 / 4)) (\<lambda>delay.
                 bindM (outside (\<lambda>e. ((), o_sleep env delay e))) (\<lambda>_.
                 retry_loop env operation should_retry max_attempts base_seconds attempts (Some x))))
       ret"

definition retry_async ::
  "'e outside \<Rightarrow> ('e, 'm, 'a) act \<Rightarrow> (exn \<Rightarrow> bool) \<Rightarrow> int \<Rightarrow> rat \<Rightarrow> ('e, 'm, 'a) act" where
  "retry_async env operation should_retry max_attempts base_seconds =
     retry_loop env operation should_retry max_attempts base_seconds [1..max_attempts] None"

section \<open>Bulkhead\<close>

text \<open>
  One semaphore per key, made on first use with the limit; entering with no permit left waits,
  which is \<open>WouldBlock\<close> here.  Leaving gives the permit back, whatever the body did.
\<close>

record bulkhead =
  bh_limit :: int
  bh_permits :: "string \<rightharpoonup> int"

definition permits_of :: "bulkhead \<Rightarrow> string \<Rightarrow> int" where
  "permits_of bh key = (case bh_permits bh key of None \<Rightarrow> bh_limit bh | Some n \<Rightarrow> n)"

definition bulkhead_enter :: "bulkhead \<Rightarrow> string \<Rightarrow> bulkhead option" where
  "bulkhead_enter bh key =
     (if permits_of bh key \<le> 0 then None
      else Some (bh\<lparr>bh_permits := (bh_permits bh)(key \<mapsto> permits_of bh key - 1)\<rparr>))"

definition bulkhead_leave :: "bulkhead \<Rightarrow> string \<Rightarrow> bulkhead" where
  "bulkhead_leave bh key = bh\<lparr>bh_permits := (bh_permits bh)(key \<mapsto> permits_of bh key + 1)\<rparr>"

text \<open>Any interleaving of tasks: \<open>inside\<close> counts the bodies running under each key.\<close>

inductive bulkhead_step :: "bulkhead \<times> (string \<Rightarrow> int) \<Rightarrow> bulkhead \<times> (string \<Rightarrow> int) \<Rightarrow> bool" where
  enter: "bulkhead_enter bh k = Some bh' \<Longrightarrow> bulkhead_step (bh, inside) (bh', inside(k := inside k + 1))"
| leave: "0 < inside k \<Longrightarrow> bulkhead_step (bh, inside) (bulkhead_leave bh k, inside(k := inside k - 1))"

definition bulkhead_ok :: "int \<Rightarrow> bulkhead \<times> (string \<Rightarrow> int) \<Rightarrow> bool" where
  "bulkhead_ok limit s = (case s of (bh, inside) \<Rightarrow>
     bh_limit bh = limit \<and> (\<forall>k. 0 \<le> inside k \<and> 0 \<le> permits_of bh k \<and> inside k + permits_of bh k = limit))"

lemma bulkhead_ok_step: "bulkhead_step s t \<Longrightarrow> bulkhead_ok limit s \<Longrightarrow> bulkhead_ok limit t"
proof (induction rule: bulkhead_step.induct)
  case (enter bh k bh' inside)
  have p: "0 < permits_of bh k" "bh' = bh\<lparr>bh_permits := (bh_permits bh)(k \<mapsto> permits_of bh k - 1)\<rparr>"
    using enter.hyps by (auto simp: bulkhead_enter_def split: if_splits)
  have "permits_of bh' j = (if j = k then permits_of bh k - 1 else permits_of bh j)" for j
    by (simp add: p(2) permits_of_def split: option.split)
  then show ?case using enter.prems p by (auto simp: bulkhead_ok_def)
next
  case (leave inside k bh)
  have "permits_of (bulkhead_leave bh k) j = (if j = k then permits_of bh k + 1 else permits_of bh j)" for j
    by (simp add: bulkhead_leave_def permits_of_def split: option.split)
  then show ?case using leave by (auto simp: bulkhead_ok_def bulkhead_leave_def)
qed

lemma bulkhead_ok_steps: "bulkhead_step\<^sup>*\<^sup>* s t \<Longrightarrow> bulkhead_ok limit s \<Longrightarrow> bulkhead_ok limit t"
  by (induction rule: rtranclp_induct) (auto dest: bulkhead_ok_step)

end
