(* ===== verification/Processor.thy ===== *)
theory Processor
  imports Repositories Resilience
begin

text \<open>
  The payments processor: provider strategies and the HTTP adapter (\<open>providers/\<close>), the commands
  (\<open>commands/\<close>) and the outbox worker (\<open>workers/outbox_worker.py\<close>).  The breakers and the
  bulkhead live as long as the process, so they are part of its world.
\<close>

record 'e proc_world = "'e world" +
  pw_breakers :: "string \<rightharpoonup> circuit_breaker"
  pw_bulkhead :: bulkhead

type_synonym ('e, 'm, 'a) pact = "(('e, 'm) proc_world_scheme, exn, 'a) prog"

section \<open>Providers\<close>

record provider_strategy =
  ps_provider_name :: string
  ps_path :: string

definition for_method :: "payment_method \<Rightarrow> ('s, exn, provider_strategy) prog" where
  "for_method rail =
     bindM (the_key (provider_name_for_method rail)) (\<lambda>name.
     bindM (the_key (provider_confirm_path_for_method rail)) (\<lambda>path.
     ret \<lparr>ps_provider_name = name, ps_path = path\<rparr>))"

text \<open>What the adapter makes of the outcome of the HTTP call.\<close>

definition classify_reply :: "exn + http_reply \<Rightarrow> exn + provider_response" where
  "classify_reply outcome =
     (case outcome of
        Inl (HttpxTimeoutException _) \<Rightarrow> Inl default_provider_timeout
      | Inl x \<Rightarrow> Inl x
      | Inr (HttpReply code body) \<Rightarrow>
          if 500 \<le> code then Inl (Provider5xxError (''Provider returned '' @ show_int code))
          else if code < 200 \<or> 300 \<le> code then Inl (HttpxError ''HTTPStatusError'')
          else (case body of
                  None \<Rightarrow> Inl (PydanticValidationError ''ProviderResponse'')
                | Some response \<Rightarrow> Inr response))"

definition adapter_confirm ::
  "'e outside \<Rightarrow> provider_strategy \<Rightarrow> provider_request \<Rightarrow> ('e, 'm, provider_response) act" where
  "adapter_confirm env strategy payload =
     bindM (outside (o_http_post env (ps_path strategy) payload)) (\<lambda>outcome.
     from_result (classify_reply outcome))"

section \<open>The provider call\<close>

definition provider_request_of :: "payment_row \<Rightarrow> provider_request" where
  "provider_request_of p =
     \<lparr>pr_payment_id = p_payment_id p, pr_merchant_id = p_merchant_id p, pr_amount = p_amount p,
      pr_currency = p_currency p, pr_method = p_method p\<rparr>"

definition call_once ::
  "'e outside \<Rightarrow> provider_strategy \<Rightarrow> payment_row \<Rightarrow> ('e, 'm, provider_response) act" where
  "call_once env strategy payment = adapter_confirm env strategy (provider_request_of payment)"

definition is_transient :: "exn \<Rightarrow> bool" where
  "is_transient x = (case x of
       ProviderTimeoutError _ \<Rightarrow> True
     | Provider5xxError _ \<Rightarrow> True
     | CircuitBreakerOpenError _ \<Rightarrow> True
     | _ \<Rightarrow> False)"

text \<open>\<open>type(exc).__name__\<close>; an HTTP or broker failure carries the name of its class.\<close>

definition exception_name :: "exn \<Rightarrow> string" where
  "exception_name x = (case x of
       ProviderTimeoutError _ \<Rightarrow> ''ProviderTimeoutError''
     | Provider5xxError _ \<Rightarrow> ''Provider5xxError''
     | CircuitBreakerOpenError _ \<Rightarrow> ''CircuitBreakerOpenError''
     | ValidationAppError _ \<Rightarrow> ''ValidationAppError''
     | IdempotencyConflictError _ \<Rightarrow> ''IdempotencyConflictError''
     | ConcurrencyConflictError _ \<Rightarrow> ''ConcurrencyConflictError''
     | KycDeniedError _ \<Rightarrow> ''KycDeniedError''
     | LimitExceededError _ \<Rightarrow> ''LimitExceededError''
     | RateLimitedError _ _ \<Rightarrow> ''RateLimitedError''
     | ValueError _ \<Rightarrow> ''ValueError''
     | PydanticValidationError _ \<Rightarrow> ''ValidationError''
     | TypeError _ \<Rightarrow> ''TypeError''
     | KeyError _ \<Rightarrow> ''KeyError''
     | TimeoutError _ \<Rightarrow> ''TimeoutError''
     | RuntimeError _ \<Rightarrow> ''RuntimeError''
     | RedisError _ \<Rightarrow> ''RedisError''
     | IntegrityError \<Rightarrow> ''IntegrityError''
     | DatabaseError _ \<Rightarrow> ''DBAPIError''
     | MultipleResultsFound \<Rightarrow> ''MultipleResultsFound''
     | HttpxTimeoutException _ \<Rightarrow> ''TimeoutException''
     | HttpxError name \<Rightarrow> name
     | PublishError name \<Rightarrow> name
     | WouldBlock \<Rightarrow> ''WouldBlock''
     | HTTPException _ _ _ \<Rightarrow> ''HTTPException'')"

definition clock_if :: "'e outside \<Rightarrow> bool \<Rightarrow> ('e, 'm, moment) act" where
  "clock_if env b = (if b then outside (o_now env) else ret 0)"

definition set_breaker :: "string \<Rightarrow> circuit_breaker \<Rightarrow> ('e, 'm, unit) pact" where
  "set_breaker name cb = modify (\<lambda>w. w\<lparr>pw_breakers := (pw_breakers w)(name \<mapsto> cb)\<rparr>)"

definition get_breaker :: "string \<Rightarrow> ('e, 'm, circuit_breaker) pact" where
  "get_breaker name = bindM (gets (\<lambda>w. pw_breakers w name)) the_key"

definition allow_call :: "'e outside \<Rightarrow> string \<Rightarrow> ('e, 'm, unit) pact" where
  "allow_call env name =
     bindM (get_breaker name) (\<lambda>cb.
     bindM (clock_if env (cb_state cb = OPEN \<and> cb_opened_at cb \<noteq> None)) (\<lambda>now.
     case breaker_allow_call cb now of (r, cb') \<Rightarrow>
       bindM (set_breaker name cb') (\<lambda>_. from_result r)))"

definition on_success :: "string \<Rightarrow> ('e, 'm, unit) pact" where
  "on_success name = bindM (get_breaker name) (\<lambda>cb. set_breaker name (breaker_on_success cb))"

definition on_failure :: "'e outside \<Rightarrow> string \<Rightarrow> ('e, 'm, unit) pact" where
  "on_failure env name =
     bindM (get_breaker name) (\<lambda>cb.
     bindM (clock_if env (cb_state cb = HALF_OPEN \<or>
              cc_failure_threshold (cb_config cb) \<le> cb_failures cb + 1)) (\<lambda>now.
     set_breaker name (breaker_on_failure cb now)))"

definition with_bulkhead :: "string \<Rightarrow> ('e, 'm, 'a) pact \<Rightarrow> ('e, 'm, 'a) pact" where
  "with_bulkhead key body =
     bindM (gets (\<lambda>w. bulkhead_enter (pw_bulkhead w) key)) (\<lambda>entered.
     case entered of
       None \<Rightarrow> raise WouldBlock
     | Some bh \<Rightarrow>
         bindM (modify (\<lambda>w. w\<lparr>pw_bulkhead := bh\<rparr>)) (\<lambda>_.
         let leave = modify (\<lambda>w. w\<lparr>pw_bulkhead := bulkhead_leave (pw_bulkhead w) key\<rparr>)
         in try_else body (\<lambda>x. bindM leave (\<lambda>_. raise x)) (\<lambda>a. bindM leave (\<lambda>_. ret a))))"

definition provider_execute :: "'e outside \<Rightarrow> payment_row \<Rightarrow> ('e, 'm, provider_response) pact" where
  "provider_execute env payment =
     bindM (for_method (p_method payment)) (\<lambda>strategy.
     let provider = ps_provider_name strategy in
     bindM (allow_call env provider) (\<lambda>_.
     bindM (with_bulkhead provider
       (bindM (outside (o_perf_counter env)) (\<lambda>start.
        try_else
          (retry_async env (call_once env strategy payment) is_transient 3 (5 / 100))
          (\<lambda>x. bindM (on_failure env provider) (\<lambda>_.
               bindM (emit (CounterAdd ''payments_processor_provider_errors''
                        [(''provider'', provider), (''error'', exception_name x)])) (\<lambda>_.
               raise x)))
          (\<lambda>response. ret (start, response))))) (\<lambda>(start, response).
     bindM (on_success provider) (\<lambda>_.
     bindM (outside (o_perf_counter env)) (\<lambda>stop.
     bindM (emit (HistogramRecord ''payments_processor_provider_latency_ms'' (stop - start) [(''provider'', provider)])) (\<lambda>_.
     ret response))))))"

section \<open>Finalizing\<close>

definition finalize_confirm :: "'e outside \<Rightarrow> payment_row \<Rightarrow> string \<Rightarrow> string \<Rightarrow> ('e, 'm, unit) act" where
  "finalize_confirm env payment provider reference =
     bindM (mark_confirmed env payment) (\<lambda>_.
     emit_event env (p_payment_id payment) PAYMENT_CONFIRMED
       (payment_confirmed_payload (p_payment_id payment) (p_merchant_id payment) provider reference))"

definition finalize_fail ::
  "'e outside \<Rightarrow> payment_row \<Rightarrow> string \<Rightarrow> string \<Rightarrow> string \<Rightarrow> ('e, 'm, unit) act" where
  "finalize_fail env payment provider category reason =
     bindM (mark_payment_failed env payment reason) (\<lambda>_.
     emit_event env (p_payment_id payment) PAYMENT_FAILED
       (payment_failed_payload (p_payment_id payment) (p_merchant_id payment) provider category reason))"

text \<open>
  The ORM object of the payment after \<open>mark_processing\<close>: the session brings loaded objects in
  line with an \<open>UPDATE\<close> when \<open>o_orm_sync\<close> holds.
\<close>

definition synced_payment :: "'e outside \<Rightarrow> payment_row \<Rightarrow> payment_row" where
  "synced_payment env p =
     (if o_orm_sync env then p\<lparr>p_status := PROCESSING, p_version := p_version p + 1\<rparr> else p)"

definition mark_processing_execute :: "'e outside \<Rightarrow> payment_row \<Rightarrow> ('e, 'm, bool) act" where
  "mark_processing_execute env payment = mark_processing env payment"

section \<open>The worker\<close>

record worker_settings =
  ws_batch_size :: nat
  ws_max_event_attempts :: int
  ws_poll_interval_seconds :: rat
  ws_publisher_enabled :: bool

definition handle_processor_error ::
  "'e outside \<Rightarrow> worker_settings \<Rightarrow> outbox_row \<Rightarrow> payment_row \<Rightarrow> error_category \<Rightarrow> string \<Rightarrow>
   ('e, 'm, unit) act" where
  "handle_processor_error env ws event payment category message =
     (let attempts = ob_attempts event + 1 in
      bindM (for_method (p_method payment)) (\<lambda>strategy.
      if ws_max_event_attempts ws \<le> attempts
      then bindM (finalize_fail env payment (ps_provider_name strategy)
                    (error_category_value category) message) (\<lambda>_.
           mark_event_failed env (ob_event_id event) attempts)
      else bindM (exponential_backoff env attempts (1 / 2) 5 (1 / 4)) (\<lambda>delay.
           reschedule env (ob_event_id event) attempts delay)))"

definition process_payment_event ::
  "'e outside \<Rightarrow> worker_settings \<Rightarrow> outbox_row \<Rightarrow> payment_row \<Rightarrow> ('e, 'm, unit) pact" where
  "process_payment_event env ws event payment =
     bindM
       (catch
          (bindM (provider_execute env payment) (\<lambda>response.
           bindM (if rs_confirmed response \<and> \<not> rs_partial_failure response
                  then finalize_confirm env payment (rs_provider response) (rs_provider_reference response)
                  else finalize_fail env payment (rs_provider response)
                         (failure_reason_value PROVIDER_PARTIAL_FAILURE) ''Partial failure'') (\<lambda>_.
           mark_sent env (ob_event_id event))))
          (\<lambda>x. case as_processor_error x of
               Some (category, message) \<Rightarrow>
                 handle_processor_error env ws event payment category message
             | None \<Rightarrow>
                 bindM (emit (LogLine ''unexpected_processor_error''
                   [(''payment_id'', PStr (p_payment_id payment)),
                    (''error_type'', PStr (exception_name x))])) (\<lambda>_.
                 bindM (finalize_fail env payment (provider_name_value PROVIDER_UNKNOWN)
                   (failure_reason_value UNEXPECTED) ''Unexpected processor failure'') (\<lambda>_.
                 mark_event_failed env (ob_event_id event) (ob_attempts event + 1)))))
       (\<lambda>_. db_commit env)"

definition process_event :: "'e outside \<Rightarrow> worker_settings \<Rightarrow> outbox_row \<Rightarrow> ('e, 'm, unit) pact" where
  "process_event env ws event =
     bindM (get_by_id env (ob_aggregate_id event)) (\<lambda>found.
     case found of
       None \<Rightarrow>
         bindM (mark_event_failed env (ob_event_id event) (ob_attempts event + 1)) (\<lambda>_.
         db_commit env)
     | Some payment \<Rightarrow>
         bindM (mark_processing_execute env payment) (\<lambda>marked.
         if \<not> marked
         then bindM (mark_sent env (ob_event_id event)) (\<lambda>_. db_commit env)
         else process_payment_event env ws event (synced_payment env payment)))"

definition handle_fanout_failure ::
  "'e outside \<Rightarrow> worker_settings \<Rightarrow> outbox_row \<Rightarrow> exn \<Rightarrow> ('e, 'm, unit) act" where
  "handle_fanout_failure env ws event error =
     (let attempts = ob_attempts event + 1 in
      bindM (emit (LogLine ''event_fanout_publish_failed''
        [(''event_id'', PStr (ob_event_id event)),
         (''event_type'', PStr (event_type_value (ob_event_type event))),
         (''error_type'', PStr (exception_name error))])) (\<lambda>_.
      if ws_max_event_attempts ws \<le> attempts then mark_event_failed env (ob_event_id event) attempts
      else bindM (exponential_backoff env attempts (1 / 2) 5 (1 / 4)) (\<lambda>delay.
           reschedule env (ob_event_id event) attempts delay)))"

definition publish :: "'e outside \<Rightarrow> outbox_row \<Rightarrow> ('e, 'm, unit) act" where
  "publish env event =
     bindM (outside (o_publish env event)) (\<lambda>r.
     case r of Inl msg \<Rightarrow> raise (PublishError msg) | Inr u \<Rightarrow> ret ())"

definition publish_fanout_event ::
  "'e outside \<Rightarrow> worker_settings \<Rightarrow> outbox_row \<Rightarrow> ('e, 'm, unit) act" where
  "publish_fanout_event env ws event =
     bindM (outside (o_perf_counter env)) (\<lambda>start.
     let attributes = [(''event_type'', event_type_value (ob_event_type event))];
         record_latency = bindM (outside (o_perf_counter env)) (\<lambda>stop.
           emit (HistogramRecord ''payments_processor_fanout_publish_latency_ms'' (stop - start) attributes))
     in bindM
          (try_else
             (catch
                (bindM (publish env event) (\<lambda>_. mark_sent env (ob_event_id event)))
                (\<lambda>x. bindM (emit (CounterAdd ''payments_processor_fanout_publish_errors'' attributes)) (\<lambda>_.
                     handle_fanout_failure env ws event x)))
             (\<lambda>x. bindM record_latency (\<lambda>_. raise x))
             (\<lambda>a. bindM record_latency (\<lambda>_. ret a)))
          (\<lambda>_. db_commit env))"

definition publish_fanout_events :: "'e outside \<Rightarrow> worker_settings \<Rightarrow> ('e, 'm, unit) act" where
  "publish_fanout_events env ws =
     (if \<not> ws_publisher_enabled ws then ret ()
      else bindM (fetch_pending_fanout_events env (ws_batch_size ws)) (\<lambda>events.
           bindM (emit (HistogramRecord ''payments_processor_fanout_backlog'' (int (length events)) [])) (\<lambda>_.
           forM events (publish_fanout_event env ws))))"

definition run_once :: "'e outside \<Rightarrow> worker_settings \<Rightarrow> ('e, 'm, unit) pact" where
  "run_once env ws = in_session
     (bindM (backlog_size env) (\<lambda>backlog.
      bindM (emit (HistogramRecord ''payments_processor_outbox_backlog'' backlog [])) (\<lambda>_.
      bindM (oldest_pending_lag env) (\<lambda>lag.
      bindM (emit (HistogramRecord ''payments_processor_outbox_lag_seconds'' lag [])) (\<lambda>_.
      bindM (fetch_pending_requested env (ws_batch_size ws)) (\<lambda>events.
      bindM (forM events (process_event env ws)) (\<lambda>_.
      publish_fanout_events env ws)))))))"

text \<open>One round of \<open>run_forever\<close>, and any number of rounds.\<close>

definition worker_iteration :: "'e outside \<Rightarrow> worker_settings \<Rightarrow> ('e, 'm, unit) pact" where
  "worker_iteration env ws =
     bindM (catch (run_once env ws)
       (\<lambda>x. emit (LogLine ''worker_iteration_failed'' [(''error_type'', PStr (exception_name x))]))) (\<lambda>_.
     outside (\<lambda>e. ((), o_sleep env (ws_poll_interval_seconds ws) e)))"

primrec run_rounds :: "nat \<Rightarrow> 'e outside \<Rightarrow> worker_settings \<Rightarrow> ('e, 'm, unit) pact" where
  "run_rounds 0 env ws = ret ()"
| "run_rounds (Suc n) env ws = bindM (worker_iteration env ws) (\<lambda>_. run_rounds n env ws)"

definition build_provider_breakers :: "string \<rightharpoonup> circuit_breaker" where
  "build_provider_breakers =
     map_of (map (\<lambda>name. (name, new_breaker \<lparr>cc_failure_threshold = 3, cc_recovery_timeout_seconds = 5\<rparr>))
       supported_provider_names)"

end
