(* ===== verification/Guarantee.thy ===== *)
theory Guarantee
  imports Growth Api Processor
begin

text \<open>
  Runs in the presence of other sessions.  \<open>well_behaved env\<close>: between two statements the others
  take consistent tables to consistent tables that extend them.  A part of a handler that only
  reads keeps its pending writes and lets the tables grow (\<open>reads_only\<close>); both guarantees are
  instances of the contract of \<open>Prelude\<close>, so they compose by its rules.
\<close>

definition well_behaved :: "'e outside \<Rightarrow> bool" where
  "well_behaved env \<longleftrightarrow> (\<forall>d e. grows d (fst (o_interfere env d e)))"

lemma well_behavedD: "well_behaved env \<Longrightarrow> o_interfere env d e = (d', e') \<Longrightarrow> grows d d'"
  by (metis fst_conv well_behaved_def)

text \<open>
  \<open>g\<close> is an observation of the outside, such as the calls a provider has received.  \<open>lawful g env\<close>:
  the other sessions behave, and only the provider call can change what \<open>g\<close> observes.
\<close>

definition preserves :: "('e \<Rightarrow> 'g) \<Rightarrow> ('e \<Rightarrow> 'a \<times> 'e) \<Rightarrow> bool" where
  "preserves g f \<longleftrightarrow> (\<forall>e. g (snd (f e)) = g e)"

definition lawful :: "('e \<Rightarrow> 'g) \<Rightarrow> 'e outside \<Rightarrow> bool" where
  "lawful g env \<longleftrightarrow>
     well_behaved env \<and> (\<forall>d. preserves g (o_interfere env d)) \<and>
     preserves g (o_now env) \<and> preserves g (o_db_now env) \<and> preserves g (o_uuid4 env) \<and>
     preserves g (o_perf_counter env) \<and> preserves g (o_random env) \<and>
     (\<forall>t. preserves g (\<lambda>e. ((), o_sleep env t e))) \<and>
     preserves g (o_trace_id env) \<and> preserves g (o_traceparent env) \<and>
     (\<forall>k. preserves g (o_get env k)) \<and> (\<forall>k v t. preserves g (o_set env k v t)) \<and>
     (\<forall>k v t. preserves g (o_set_nx env k v t)) \<and> (\<forall>k. preserves g (o_incr env k)) \<and>
     (\<forall>k t. preserves g (o_expire env k t)) \<and> (\<forall>k v. preserves g (o_lpush env k v)) \<and>
     (\<forall>k i j. preserves g (o_ltrim env k i j)) \<and> (\<forall>k i j. preserves g (o_lrange env k i j)) \<and>
     (\<forall>k i j. preserves g (o_zremrangebyscore env k i j)) \<and> (\<forall>k. preserves g (o_zcard env k)) \<and>
     (\<forall>k m t. preserves g (o_zadd env k m t)) \<and> (\<forall>ev. preserves g (o_publish env ev))"

lemma lawful_trivial: "lawful (\<lambda>_. ()) env \<longleftrightarrow> well_behaved env"
  by (simp add: lawful_def preserves_def)

definition reads_only :: "('e \<Rightarrow> 'g) \<Rightarrow> ('e, 'm) world_scheme \<Rightarrow> ('e, 'm) world_scheme \<Rightarrow> bool" where
  "reads_only g w w' \<longleftrightarrow>
     grows (w_db w) (w_db w') \<and> w_pending w' = w_pending w \<and> g (w_out w') = g (w_out w)"

interpretation reading: preorder_guarantee "reads_only g" for g :: "'e \<Rightarrow> 'g"
  by unfold_locales (auto simp: reads_only_def intro: grows_trans)

named_theorems reading_intros "programs that only read the tables"

declare reading.guar_intros [reading_intros]

lemmas lawfulD = lawful_def [THEN iffD1]

lemma lawful_well_behaved: "lawful g env \<Longrightarrow> well_behaved env"
  by (simp add: lawful_def)

lemma well_behaved_lawful [reading_intros]: "well_behaved env \<Longrightarrow> lawful (\<lambda>_. ()) env"
  by (simp add: lawful_trivial)

lemma lawful_preserves [reading_intros]:
  assumes "lawful g env"
  shows "preserves g (o_now env)" "preserves g (o_db_now env)" "preserves g (o_uuid4 env)"
    "preserves g (o_perf_counter env)" "preserves g (o_random env)"
    "preserves g (\<lambda>e. ((), o_sleep env t e))" "preserves g (o_trace_id env)"
    "preserves g (o_traceparent env)" "preserves g (o_get env k)" "preserves g (o_set env k v ttl)"
    "preserves g (o_set_nx env k v ttl)" "preserves g (o_incr env k)" "preserves g (o_expire env k ttl)"
    "preserves g (o_lpush env k v)" "preserves g (o_ltrim env k i j)" "preserves g (o_lrange env k i j)"
    "preserves g (o_zremrangebyscore env k i j)" "preserves g (o_zcard env k)"
    "preserves g (o_zadd env k v i)" "preserves g (o_publish env ev)"
  using assms by (simp_all add: lawful_def)

lemma preservesD: "preserves g f \<Longrightarrow> f e = (x, e') \<Longrightarrow> g e' = g e"
  by (metis preserves_def snd_conv)

lemma reading_outside [reading_intros]: "preserves g f \<Longrightarrow> guar (reads_only g) (outside f)"
  by (auto simp: guar_def outside_def reads_only_def dest: preservesD split: prod.splits)

lemma reading_redis [reading_intros]: "preserves g f \<Longrightarrow> guar (reads_only g) (redis f)"
  by (auto simp: guar_def redis_def reads_only_def dest: preservesD split: prod.splits sum.splits)

lemma reading_emit [reading_intros]: "guar (reads_only g) (emit t)"
  by (auto simp: guar_def reads_only_def)

lemma reading_correlation [reading_intros]:
  "guar (reads_only g) (update_correlation_context vs)" "guar (reads_only g) (set_correlation_context vs)"
  "guar (reads_only g) clear_correlation_context"
  by (auto simp: guar_def reads_only_def update_correlation_context_def set_correlation_context_def
      clear_correlation_context_def)

lemma reading_the_key [reading_intros]: "guar (reads_only g) (the_key x)"
  by (auto simp: guar_def reads_only_def the_key_def split: option.splits)

lemma reading_from_result [reading_intros]: "guar (reads_only g) (from_result r)"
  by (auto simp: guar_def reads_only_def from_result_def split: sum.splits)

lemma reading_scalar [reading_intros]: "guar (reads_only g) (scalar_one_or_none rows)"
  by (auto simp: guar_def reads_only_def scalar_one_or_none_def split: list.splits)

lemma reading_sum [reading_intros]:
  "(\<And>a. guar (reads_only g) (f a)) \<Longrightarrow> (\<And>b. guar (reads_only g) (g b)) \<Longrightarrow>
   guar (reads_only g) (case x of Inl a \<Rightarrow> f a | Inr b \<Rightarrow> g b)"
  by (simp split: sum.splits)

lemma reading_catch_if [reading_intros]:
  "guar (reads_only g) m \<Longrightarrow> (\<And>x. guar (reads_only g) (h x)) \<Longrightarrow> guar (reads_only g) (catch_if c m h)"
  unfolding catch_if_def by (intro reading_intros)

lemma reading_interfere: "lawful g env \<Longrightarrow> guar (reads_only g) (interfere env)"
  by (auto simp: guar_def interfere_def reads_only_def lawful_def split: prod.splits
      intro: well_behavedD dest: preservesD)

lemma reading_select [reading_intros]: "lawful g env \<Longrightarrow> guar (reads_only g) (db_select env q)"
  unfolding db_select_def by (intro reading_intros reading_interfere)

section \<open>The parts of the API that only read\<close>

lemma reading_repositories [reading_intros]:
  assumes "lawful g env"
  shows "guar (reads_only g) (get_customer_by_id env cid)" "guar (reads_only g) (get_by_rail env rail)"
    "guar (reads_only g) (get_snapshot env m k)" "guar (reads_only g) (get_by_payment_id env pid)"
    "guar (reads_only g) (get_by_merchant_and_idempotency env m k)"
    "guar (reads_only g) (sum_outgoing_since env cid rail since)"
    "guar (reads_only g) (count_outgoing_since env cid rail since)"
    "guar (reads_only g) (count_failures_since env cid since)"
    "guar (reads_only g) (destination_seen env cid dest)"
    "guar (reads_only g) (count_near_threshold_since env cid rail since low high)"
    "guar (reads_only g) (count_in_review env)" "guar (reads_only g) (get_by_id env pid)"
    "guar (reads_only g) (backlog_size env)" "guar (reads_only g) (oldest_pending_lag env)"
    "guar (reads_only g) (fetch_pending_requested env n)" "guar (reads_only g) (fetch_pending_fanout_events env n)"
  unfolding api_repository_defs processor_repository_defs
  by (intro reading_intros assms)+

lemma reading_services [reading_intros]:
  assumes "lawful g env"
  shows "guar (reads_only g) (limits_enforce env ttl cid rail amount)"
    "guar (reads_only g) (rate_enforce env rl m c a)"
    "guar (reads_only g) (risk_evaluate env svc customer amount policy n dest)"
    "guar (reads_only g) (aml_evaluate env ae cid rail amount dest policy)"
    "guar (reads_only g) (record_outgoing env ae cid rail amount)"
    "guar (reads_only g) (acquire env is m k)"
  unfolding limits_defs rate_enforce_def rate_allow_def risk_evaluate_def aml_evaluate_def
    total_outgoing_recent_def near_threshold_count_def read_history_entries_def record_outgoing_def
    acquire_def
  by (intro reading_intros assms)+

lemma reading_timed_span [reading_intros]: "lawful g env \<Longrightarrow> guar (reads_only g) m \<Longrightarrow> guar (reads_only g) (timed_span env metric attrs m)"
  unfolding timed_span_def Let_def by (intro reading_intros)

lemma reading_poll: "lawful g env \<Longrightarrow> guar (reads_only g) (poll_pending env rx n)"
  by (induction n)
     (auto intro!: reading_intros simp: try_return_replayed_response_def
       build_response_from_existing_payment_def build_payment_response_def)

lemma reading_use_case [reading_intros]:
  assumes "lawful g env"
  shows "guar (reads_only g) (build_request_context uc headers request)"
    "guar (reads_only g) (build_payment_response env pid st rd ad)"
    "guar (reads_only g) (build_response_from_existing_payment env p)"
    "guar (reads_only g) (build_response_payload env decision)"
    "guar (reads_only g) (try_return_replayed_response env rx)"
    "guar (reads_only g) (resolve_replayed_after_conflict env rx)"
    "guar (reads_only g) (resolve_pending_idempotent_request env rx)"
    "guar (reads_only g) (load_customer_or_raise env cid)"
    "guar (reads_only g) (run_pre_checks env uc rx request customer)"
    "guar (reads_only g) (evaluate_controls env uc customer request evaluation cid)"
    "guar (reads_only g) (update_decision_correlation_fields decision)"
    "guar (reads_only g) (after_commit_observability env uc rx request response decision)"
    "guar (reads_only g) (load_review_payment_or_raise env pid)"
    "guar (reads_only g) (record_review_queue_size env)"
    "guar (reads_only g) (build_review_response env pid st p)"
  unfolding build_request_context_def build_payment_response_def
    build_response_from_existing_payment_def build_response_payload_def
    try_return_replayed_response_def resolve_replayed_after_conflict_def
    resolve_pending_idempotent_request_def load_customer_or_raise_def run_pre_checks_def
    enforce_kyc_def enforce_limits_def enforce_rate_limit_def evaluate_controls_def evaluate_risk_def evaluate_aml_def
    update_decision_correlation_fields_def after_commit_observability_def
    load_review_payment_or_raise_def record_review_queue_size_def build_review_response_def
  by (intro reading_intros assms reading_poll)+

section \<open>Assertions about the committed tables\<close>

text \<open>
  Outside a transaction: the tables are consistent, extend \<open>d0\<close> and satisfy \<open>T\<close>, nothing is
  pending.
\<close>

definition holds :: "database \<Rightarrow> (database \<Rightarrow> bool) \<Rightarrow> ('e, 'm) world_scheme \<Rightarrow> bool" where
  "holds d0 T w \<longleftrightarrow> consistent (w_db w) \<and> w_pending w = [] \<and> extends d0 (w_db w) \<and> T (w_db w)"

lemma holdsD:
  assumes "holds d0 T w"
  shows "consistent (w_db w)" and "w_pending w = []" and "extends d0 (w_db w)" and "T (w_db w)"
  using assms by (auto simp: holds_def)

lemma holds_mono: "holds d0 S w \<Longrightarrow> (S (w_db w) \<Longrightarrow> T (w_db w)) \<Longrightarrow> holds d0 T w"
  by (auto simp: holds_def)

lemma reads_keep:
  assumes "guar (reads_only g) m" and "persistent T"
  shows "triple (holds d0 T) m (\<lambda>_. holds d0 T) (\<lambda>_. holds d0 T)"
proof -
  have "holds d0 T t" if "holds d0 T s" "m s = (r, t)" for s r t
  proof -
    have "reads_only g s t" using guarD [OF assms(1) that(2)] .
    then show ?thesis using that(1) assms(2)
      by (auto simp: holds_def reads_only_def grows_def intro: extends_trans persistentD)
  qed
  then show ?thesis by (intro tripleI) blast+
qed

lemma triple_post: "triple P m Q X \<Longrightarrow> (\<And>a w. Q a w \<Longrightarrow> R a w) \<Longrightarrow> triple P m R X"
  by (erule triple_weaken) auto

lemma triple_pre: "triple P m Q X \<Longrightarrow> (\<And>w. R w \<Longrightarrow> P w) \<Longrightarrow> triple R m Q X"
  by (erule triple_weaken) auto

text \<open>A step whose result does not matter.\<close>

lemma step_reads:
  assumes "guar (reads_only (\<lambda>_. ())) m" and "persistent T"
    and "\<And>a. triple (holds d0 T) (f a) Q (\<lambda>_. holds d0 (\<lambda>_. True))"
  shows "triple (holds d0 T) (bindM m f) Q (\<lambda>_. holds d0 (\<lambda>_. True))"
  by (rule triple_bindM [where R = "\<lambda>_. holds d0 T"])
     (auto intro!: triple_weaken [OF reads_keep [OF assms(1,2)]] assms(3) elim: holds_mono)

end
