(* ===== verification/CreateSafety.thy ===== *)
theory CreateSafety
  imports Guarantee
begin

text \<open>
  The create-payment use case among other sessions: every response names the one payment of the
  request's scope, the tables stay consistent, and nothing is left pending.
\<close>

definition rx_scope :: "request_context \<Rightarrow> string \<times> string" where
  "rx_scope rx = (rx_merchant_id rx, rx_idempotency_key rx)"

abbreviation answers :: "database \<Rightarrow> request_context \<Rightarrow> payment_accepted_response \<Rightarrow> ('e, 'm) world_scheme \<Rightarrow> bool"
  where "answers d0 rx r \<equiv> holds d0 (scope_owned (rx_scope rx) (ac_payment_id r))"

abbreviation maybe_answers ::
  "database \<Rightarrow> request_context \<Rightarrow> payment_accepted_response option \<Rightarrow> ('e, 'm) world_scheme \<Rightarrow> bool"
  where "maybe_answers d0 rx x \<equiv>
    holds d0 (\<lambda>d. \<forall>r. x = Some r \<longrightarrow> scope_owned (rx_scope rx) (ac_payment_id r) d)"

abbreviation unanswered :: "database \<Rightarrow> ('e, 'm) world_scheme \<Rightarrow> bool"
  where "unanswered d0 \<equiv> holds d0 (\<lambda>_. True)"

section \<open>Replays\<close>

lemma db_select_clean:
  assumes "well_behaved env" and "holds d0 (\<lambda>_. True) w" and "db_select env q w = (r, w')"
  shows "r = Inr (q (w_db w')) \<and> holds d0 (\<lambda>_. True) w'"
proof -
  have "guar (reads_only (\<lambda>_. ())) (db_select env q)" using assms(1) by (intro reading_intros)
  then have "reads_only (\<lambda>_. ()) w w'" using assms(3) by (rule guarD)
  then have p: "holds d0 (\<lambda>_. True) w'" using assms(2)
    by (auto simp: holds_def reads_only_def grows_def intro: extends_trans)
  show ?thesis using assms(3) p
    by (auto simp: db_select_def interfere_def bindM_def db_view_def holds_def split: prod.splits)
qed

lemma snapshot_found:
  assumes "well_behaved env"
  shows "triple (unanswered d0) (get_snapshot env m k)
    (\<lambda>r w. unanswered d0 w \<and> (\<forall>row. r = Some row \<longrightarrow>
        row \<in> set (db_idempotency (w_db w)) \<and> idempotency_scope row = (m, k)))
    (\<lambda>_. unanswered d0)"
proof (rule tripleI)
  fix w :: "('a, 'b) world_scheme" and r w'
  assume "unanswered d0 w" and "get_snapshot env m k w = (Inr r, w')"
  then obtain rows w1 where s: "db_select env (snapshots_for m k) w = (Inr rows, w1)"
    and sc: "scalar_one_or_none rows w1 = (Inr r, w')"
    unfolding get_snapshot_def by (elim bindM_elim)
  from db_select_clean [OF assms \<open>unanswered d0 w\<close> s] sc
  show "unanswered d0 w' \<and> (\<forall>row. r = Some row \<longrightarrow>
        row \<in> set (db_idempotency (w_db w')) \<and> idempotency_scope row = (m, k))"
    by (auto simp: scalar_one_or_none_def snapshots_for_alt split: list.splits
        dest: Cons_eq_filterD [OF sym])
next
  fix w :: "('a, 'b) world_scheme" and x w'
  assume w: "unanswered d0 w" and r: "get_snapshot env m k w = (Inl x, w')"
  have "guar (reads_only (\<lambda>_. ())) (get_snapshot env m k)" using assms by (intro reading_intros)
  from tripleD_Inl [OF reads_keep [OF this persistent_const] w r] show "unanswered d0 w'" .
qed

lemma replay_answers:
  assumes "well_behaved env"
  shows "triple (unanswered d0) (try_return_replayed_response env rx) (maybe_answers d0 rx)
    (\<lambda>_. unanswered d0)"
  unfolding try_return_replayed_response_def
proof (rule triple_bindM [OF snapshot_found [OF assms]], goal_cases)
  case (1 snapshot)
  have "scope_owned (rx_scope rx) (ac_payment_id a) d"
    if "consistent d" "row \<in> set (db_idempotency d)"
      "idempotency_scope row = (rx_merchant_id rx, rx_idempotency_key rx)"
      "validate_accepted (ir_response_payload row) = Some a" for d row a
    using snapshot_owner [OF that(1,2,4)] that(3) by (simp add: rx_scope_def)
  then show ?case
    by (auto simp: triple_def bindM_def holds_def split: option.splits)
qed

lemma existing_found:
  assumes "well_behaved env"
  shows "triple (unanswered d0) (get_by_merchant_and_idempotency env m k)
    (\<lambda>r. holds d0 (\<lambda>d. \<forall>p. r = Some p \<longrightarrow> scope_owned (m, k) (p_payment_id p) d))
    (\<lambda>_. unanswered d0)"
proof (rule tripleI)
  fix w :: "('a, 'b) world_scheme" and r w'
  assume "unanswered d0 w" and "get_by_merchant_and_idempotency env m k w = (Inr r, w')"
  then obtain rows w1 where s: "db_select env (payments_by_scope m k) w = (Inr rows, w1)"
    and sc: "scalar_one_or_none rows w1 = (Inr r, w')"
    unfolding get_by_merchant_and_idempotency_def by (elim bindM_elim)
  from db_select_clean [OF assms \<open>unanswered d0 w\<close> s] sc
  show "holds d0 (\<lambda>d. \<forall>p. r = Some p \<longrightarrow> scope_owned (m, k) (p_payment_id p) d) w'"
    by (auto simp: scalar_one_or_none_def payments_by_scope_alt holds_def scope_owned_def
        split: list.splits dest!: Cons_eq_filterD [OF sym])
next
  fix w :: "('a, 'b) world_scheme" and x w'
  assume w: "unanswered d0 w" and r: "get_by_merchant_and_idempotency env m k w = (Inl x, w')"
  have "guar (reads_only (\<lambda>_. ())) (get_by_merchant_and_idempotency env m k)" using assms by (intro reading_intros)
  from tripleD_Inl [OF reads_keep [OF this persistent_const] w r] show "unanswered d0 w'" .
qed

lemma existing_answers:
  assumes "well_behaved env"
  shows "triple (holds d0 (scope_owned (rx_scope rx) (p_payment_id p)))
    (build_response_from_existing_payment env p) (answers d0 rx) (\<lambda>_. unanswered d0)"
  unfolding build_response_from_existing_payment_def build_payment_response_def
  by (auto simp: triple_def bindM_def outside_def holds_def split: prod.splits)

lemma replay_or_existing:
  assumes "well_behaved env"
    and some: "\<And>r. triple (answers d0 rx r) (f r) Q (\<lambda>_. unanswered d0)"
    and existing: "\<And>p. triple (holds d0 (scope_owned (rx_scope rx) (p_payment_id p))) (g p) Q (\<lambda>_. unanswered d0)"
    and none: "triple (unanswered d0) h Q (\<lambda>_. unanswered d0)"
  shows "triple (unanswered d0)
    (bindM (try_return_replayed_response env rx) (\<lambda>x. case x of
       Some r \<Rightarrow> f r
     | None \<Rightarrow> bindM (get_by_merchant_and_idempotency env (rx_merchant_id rx) (rx_idempotency_key rx))
         (\<lambda>y. case y of Some p \<Rightarrow> g p | None \<Rightarrow> h)))
    Q (\<lambda>_. unanswered d0)"
proof (rule triple_bindM [OF replay_answers [OF assms(1)]], goal_cases)
  case (1 x)
  show ?case
  proof (cases x)
    case (Some r)
    then show ?thesis using some [of r] by (auto elim: triple_pre simp: holds_def)
  next
    case None
    have "triple (unanswered d0)
      (bindM (get_by_merchant_and_idempotency env (rx_merchant_id rx) (rx_idempotency_key rx))
         (\<lambda>y. case y of Some p \<Rightarrow> g p | None \<Rightarrow> h)) Q (\<lambda>_. unanswered d0)"
    proof (rule triple_bindM [OF existing_found [OF assms(1)]], goal_cases)
      case (1 y)
      then show ?case using existing none
        by (cases y) (auto elim: triple_pre simp: holds_def rx_scope_def)
    qed
    then show ?thesis using None by (auto elim: triple_pre simp: holds_def)
  qed
qed

lemma poll_answers:
  assumes "well_behaved env"
  shows "triple (unanswered d0) (poll_pending env rx n) (answers d0 rx) (\<lambda>_. unanswered d0)"
proof (induction n)
  case 0
  show ?case unfolding poll_pending.simps by (intro triple_raise)
next
  case (Suc n)
  show ?case unfolding poll_pending.simps
    by (rule replay_or_existing [OF assms _ existing_answers [OF assms]])
       (intro triple_ret step_reads reading_intros persistent_intros Suc.IH assms, assumption?)+
qed

lemma conflict_answers:
  assumes "well_behaved env"
  shows "triple (unanswered d0) (resolve_replayed_after_conflict env rx) (maybe_answers d0 rx)
    (\<lambda>_. unanswered d0)"
  unfolding resolve_replayed_after_conflict_def
proof (intro replay_or_existing assms(1))
  show "triple (answers d0 rx r) (ret (Some r)) (maybe_answers d0 rx) (\<lambda>_. unanswered d0)" for r
    by (auto intro!: triple_intros simp: holds_def)
  show "triple (unanswered d0) (ret None) (maybe_answers d0 rx) (\<lambda>_. unanswered d0)"
    by (auto intro!: triple_intros simp: holds_def)
  show "triple (holds d0 (scope_owned (rx_scope rx) (p_payment_id p)))
      (bindM (build_response_from_existing_payment env p) (\<lambda>response. ret (Some response)))
      (maybe_answers d0 rx) (\<lambda>_. unanswered d0)" for p
    by (rule triple_bindM [OF existing_answers [OF assms(1)]]) (auto intro!: triple_intros simp: holds_def)
qed

section \<open>The transaction\<close>

definition row_ok :: "request_context \<Rightarrow> payment_accepted_response \<Rightarrow> payment_row \<Rightarrow> bool" where
  "row_ok rx response p \<longleftrightarrow>
     payment_scope p = rx_scope rx \<and> p_payment_id p = ac_payment_id response \<and>
     p_status p = ac_status response \<and> (blocked_by_controls p \<longleftrightarrow> p_status p = BLOCKED) \<and>
     (p_status p \<noteq> BLOCKED \<longrightarrow>
        p_status p = (if accepted_event p = PAYMENT_REQUESTED then RECEIVED else IN_REVIEW))"

text \<open>The pending writes: the payment, its events, and at last the idempotency record.\<close>

definition staged ::
  "database \<Rightarrow> request_context \<Rightarrow> payment_accepted_response \<Rightarrow> payment_row \<Rightarrow> outbox_row list \<Rightarrow>
   idempotency_row list \<Rightarrow> ('e, 'm) world_scheme \<Rightarrow> bool" where
  "staged d0 rx response p es rs w \<longleftrightarrow>
     consistent (w_db w) \<and> extends d0 (w_db w) \<and>
     w_pending w = insert_payment p # map insert_event es @ map insert_snapshot rs \<and>
     row_ok rx response p \<and> created_events_ok p es \<and> (\<forall>r\<in>set rs. snapshot_of p r)"

definition complete :: "payment_row \<Rightarrow> outbox_row list \<Rightarrow> bool" where
  "complete p es \<longleftrightarrow> (\<not> blocked_by_controls p \<longrightarrow> has_event es p)"

lemma fold_insert_events:
  "fold (\<lambda>f d. f d) (map insert_event es) d = d\<lparr>db_outbox := db_outbox d @ es\<rparr>"
  by (induction es arbitrary: d) (simp_all add: insert_event_def)

text \<open>The stored decisions of the row give its status.\<close>

definition decided :: "control_decision \<Rightarrow> payment_accepted_response \<Rightarrow> bool" where
  "decided decision response \<longleftrightarrow>
     ac_status response = resolve_status_from_decisions (cd_risk_decision decision) (cd_aml_decision decision)"

lemma resolve_blocked_iff:
  "resolve_status_from_decisions r a = BLOCKED \<longleftrightarrow> r = RISK_BLOCK \<or> a = AML_BLOCK"
  by (auto simp: resolve_status_from_decisions_def)

lemma new_row_ok:
  assumes "decided decision response"
  shows "row_ok rx response (new_payment_row (payment_data rx request decision response) amount now)"
    (is "row_ok rx response ?p")
proof -
  have f: "payment_scope ?p = rx_scope rx" "p_payment_id ?p = ac_payment_id response"
    "p_status ?p = ac_status response" "p_risk_decision ?p = Some (cd_risk_decision decision)"
    "p_aml_decision ?p = Some (cd_aml_decision decision)"
    by (simp_all add: new_payment_row_def payment_data_def payment_scope_def rx_scope_def)
  show ?thesis
    using assms
    unfolding row_ok_def blocked_by_controls_def accepted_event_def f decided_def
      resolve_status_from_decisions_def
    by (cases "cd_risk_decision decision"; cases "cd_aml_decision decision") simp_all
qed

lemma stage_payment:
  assumes "decided decision response"
  shows "triple (unanswered d0) (create_payment_row env (payment_data rx request decision response))
    (\<lambda>_ w. \<exists>p. staged d0 rx response p [] [] w) (\<lambda>x w. x \<noteq> IntegrityError \<and> unanswered d0 w)"
  unfolding triple_def
proof (intro allI impI)
  fix w :: "('a, 'b) world_scheme"
  assume w: "unanswered d0 w"
  let ?c = "payment_data rx request decision response"
  obtain now e where t: "o_db_now env (w_out w) = (now, e)" by (cases "o_db_now env (w_out w)")
  show "case create_payment_row env ?c w of (Inl x, t) \<Rightarrow> x \<noteq> IntegrityError \<and> unanswered d0 t
      | (Inr a, t) \<Rightarrow> \<exists>p. staged d0 rx response p [] [] t"
  proof (cases "o_numeric_18_2 env (pc_amount ?c)")
    case None
    then show ?thesis using w t by (simp add: create_payment_row_def bindM_def outside_def holds_def)
  next
    case (Some amount)
    have "staged d0 rx response (new_payment_row ?c amount now) [] []
        (w\<lparr>w_out := e, w_pending := [insert_payment (new_payment_row ?c amount now)]\<rparr>)"
      using w new_row_ok [OF assms] by (simp add: staged_def holds_def created_events_ok_def)
    then show ?thesis using Some w t
      by (auto simp: create_payment_row_def bindM_def outside_def db_write_def holds_def)
  qed
qed

lemma stage_event:
  assumes "etype = PAYMENT_REQUESTED \<Longrightarrow> ac_status response \<noteq> BLOCKED"
    and "\<And>p. row_ok rx response p \<Longrightarrow> accepted_event p = etype"
  shows "triple (\<lambda>w. \<exists>p. staged d0 rx response p [] [] w) (add_event env (ac_payment_id response) etype payload)
    (\<lambda>_ w. \<exists>p es. staged d0 rx response p es [] w \<and> complete p es) (\<lambda>x w. False)"
  unfolding triple_def
proof (intro allI impI)
  fix w :: "('a, 'b) world_scheme"
  assume "\<exists>p. staged d0 rx response p [] [] w"
  then obtain p where p: "staged d0 rx response p [] [] w" by blast
  obtain e x where e: "add_event env (ac_payment_id response) etype payload w =
      (Inr (), w\<lparr>w_out := x, w_pending := w_pending w @ [insert_event e]\<rparr>)"
    "ob_event_type e = etype" "ob_aggregate_id e = ac_payment_id response"
    using add_event_run [of env "ac_payment_id response" etype payload w] by blast
  have "staged d0 rx response p [e] [] (w\<lparr>w_out := x, w_pending := w_pending w @ [insert_event e]\<rparr>)"
    using p e(2,3) assms(1) by (auto simp: staged_def created_events_ok_def row_ok_def)
  moreover have "complete p [e]"
  proof -
    have row: "row_ok rx response p" using p by (simp add: staged_def)
    have "p_payment_id p = ac_payment_id response" using row by (simp add: row_ok_def)
    then show ?thesis using assms(2) [OF row] e(2,3) by (simp add: complete_def has_event_def)
  qed
  ultimately show "case add_event env (ac_payment_id response) etype payload w of
      (Inl x, t) \<Rightarrow> False | (Inr a, t) \<Rightarrow> \<exists>p es. staged d0 rx response p es [] t \<and> complete p es"
    using e(1) by auto
qed

lemma outside_keeps_staged:
  "triple (\<lambda>w. \<exists>p. staged d0 rx response p [] [] w) (outside f)
    (\<lambda>_ w. \<exists>p. staged d0 rx response p [] [] w) (\<lambda>x w. False)"
  by (auto simp: triple_def outside_def staged_def split: prod.splits)

lemma stage_events:
  "triple (\<lambda>w. \<exists>p. staged d0 rx response p [] [] w) (persist_outbox_events env rx response)
    (\<lambda>_ w. \<exists>p es. staged d0 rx response p es [] w \<and> complete p es) (\<lambda>x w. False)"
  unfolding persist_outbox_events_def
proof (intro triple_if triple_bindM [OF outside_keeps_staged] stage_event triple_ret)
  fix p assume "ac_status response = RECEIVED" "row_ok rx response p"
  then show "accepted_event p = PAYMENT_REQUESTED" by (auto simp: row_ok_def split: if_splits)
next
  fix p assume "ac_status response = IN_REVIEW" "row_ok rx response p"
  then show "accepted_event p = PAYMENT_REVIEW_REQUIRED"
    by (auto simp: row_ok_def accepted_event_def split: if_splits)
next
  fix w :: "('a, 'b) world_scheme"
  assume s: "ac_status response \<noteq> RECEIVED" "ac_status response \<noteq> IN_REVIEW"
    and "\<exists>p. staged d0 rx response p [] [] w"
  then obtain p where p: "staged d0 rx response p [] [] w" by blast
  then have "row_ok rx response p" by (simp add: staged_def)
  then have "complete p []" using s by (auto simp: complete_def row_ok_def split: if_splits)
  then show "\<exists>p es. staged d0 rx response p es [] w \<and> complete p es" using p by blast
qed auto

lemma stage_snapshot:
  "triple (\<lambda>w. \<exists>p es. staged d0 rx response p es [] w \<and> complete p es)
    (create_snapshot env (rx_merchant_id rx) (rx_idempotency_key rx) (ac_payment_id response) code
       (dump_accepted response))
    (\<lambda>_ w. \<exists>p es r. staged d0 rx response p es [r] w \<and> complete p es) (\<lambda>x w. False)"
proof -
  have "snapshot_of p \<lparr>ir_merchant_id = rx_merchant_id rx, ir_idempotency_key = rx_idempotency_key rx,
      ir_payment_id = ac_payment_id response, ir_status_code = code,
      ir_response_payload = dump_accepted response, ir_created_at = t\<rparr>" if "row_ok rx response p" for p t
    using that by (auto simp: snapshot_of_def idempotency_scope_def row_ok_def rx_scope_def)
  then show ?thesis
    by (fastforce simp: triple_def create_snapshot_def bindM_def outside_def db_write_def staged_def
        split: prod.splits)
qed

lemma commit_staged:
  assumes "well_behaved env"
  shows "triple (\<lambda>w. \<exists>p es r. staged d0 rx response p es [r] w \<and> complete p es) (db_commit env)
    (\<lambda>_. answers d0 rx response)
    (\<lambda>x w. x = IntegrityError \<and> consistent (w_db w) \<and> extends d0 (w_db w))"
  unfolding triple_def
proof (intro allI impI)
  fix w :: "('a, 'b) world_scheme"
  assume "\<exists>p es r. staged d0 rx response p es [r] w \<and> complete p es"
  then obtain p es r where s: "staged d0 rx response p es [r] w" and cm: "complete p es" by blast
  obtain d e where i: "o_interfere env (w_db w) (w_out w) = (d, e)"
    by (cases "o_interfere env (w_db w) (w_out w)")
  have d: "consistent d" "extends d0 d"
    using s well_behavedD [OF assms i] by (auto simp: staged_def grows_def intro: extends_trans)
  let ?w = "w\<lparr>w_db := d, w_out := e\<rparr>" and ?d = "insert_snapshot r ((insert_payment p d)\<lparr>db_outbox := db_outbox d @ es\<rparr>)"
  have v: "db_view ?w = ?d"
    using s by (simp add: db_view_def staged_def fold_insert_events)
  have run: "db_commit env w =
      (if constraints_ok ?d then (Inr (), ?w\<lparr>w_db := ?d, w_pending := []\<rparr>) else (Inl IntegrityError, ?w))"
    using i v by (simp add: db_commit_def interfere_def bindM_def)
  have ok: "created_events_ok p es" "snapshot_of p r" "row_ok rx response p" using s by (auto simp: staged_def)
  have fields: "db_payments ?d = db_payments d @ [p]" "db_outbox ?d = db_outbox d @ es"
    "db_idempotency ?d = db_idempotency d @ [r]" "db_customers ?d = db_customers d" "db_limits ?d = db_limits d"
    by simp_all
  have "answers d0 rx response (?w\<lparr>w_db := ?d, w_pending := []\<rparr>)" if c: "constraints_ok ?d"
  proof -
    note created_consistent [OF d(1) fields c ok(1,2)]
    then have "consistent ?d" "extends d ?d" "scope_owned (payment_scope p) (p_payment_id p) ?d"
      using ok(3) cm by (auto simp: row_ok_def complete_def)
    then show ?thesis using d(2) ok(3) extends_trans by (auto simp: holds_def row_ok_def)
  qed
  then show "case db_commit env w of (Inl x, t) \<Rightarrow> x = IntegrityError \<and> consistent (w_db t) \<and> extends d0 (w_db t)
      | (Inr a, t) \<Rightarrow> answers d0 rx response t"
    unfolding run using d by auto
qed

lemma transaction_answers:
  assumes env: "well_behaved env" and dec: "decided decision response"
  shows "triple (unanswered d0) (persist_payment_transaction env rx request decision response)
    (\<lambda>x. holds d0 (\<lambda>d. case x of
        None \<Rightarrow> scope_owned (rx_scope rx) (ac_payment_id response) d
      | Some r \<Rightarrow> scope_owned (rx_scope rx) (ac_payment_id r) d))
    (\<lambda>_. unanswered d0)" (is "triple _ _ ?Q _")
  unfolding persist_payment_transaction_def catch_if_def
proof (rule triple_catch [where Y = "\<lambda>x w. (x \<noteq> IntegrityError \<longrightarrow> unanswered d0 w) \<and>
      consistent (w_db w) \<and> extends d0 (w_db w)"])
  let ?Y = "\<lambda>x w. (x \<noteq> IntegrityError \<longrightarrow> unanswered d0 w) \<and> consistent (w_db w) \<and> extends d0 (w_db w)"
  have stage: "triple (unanswered d0) (persist_payment_and_outbox env rx request decision response)
      (\<lambda>_ w. \<exists>p es. staged d0 rx response p es [] w \<and> complete p es) ?Y"
    unfolding persist_payment_and_outbox_def
    by (rule triple_bindM [where R = "\<lambda>_ w. \<exists>p. staged d0 rx response p [] [] w"])
       (auto intro!: triple_weaken [OF stage_payment [OF dec]] triple_weaken [OF stage_events] simp: holds_def)
  show "triple (unanswered d0)
     (bindM (persist_payment_and_outbox env rx request decision response) (\<lambda>_.
      bindM (create_snapshot env (rx_merchant_id rx) (rx_idempotency_key rx)
               (ac_payment_id response) 202 (dump_accepted response)) (\<lambda>_.
      bindM (db_commit env) (\<lambda>_. ret None)))) ?Q ?Y"
    by (intro triple_bindM [OF stage] triple_bindM [OF triple_weaken [OF stage_snapshot]]
        triple_bindM [OF triple_weaken [OF commit_staged [OF env]]] triple_ret)
       (auto simp: holds_def)
  show "triple (?Y x)
     (if is_integrity_error x
      then bindM db_rollback (\<lambda>_. bindM (resolve_replayed_after_conflict env rx) (\<lambda>replayed.
           case replayed of Some r \<Rightarrow> ret (Some r) | None \<Rightarrow> raise default_idempotency_conflict))
      else raise x) ?Q (\<lambda>_. unanswered d0)" for x
  proof (rule triple_if)
    have "triple (?Y x) db_rollback (\<lambda>_. unanswered d0) (\<lambda>_. unanswered d0)"
      by (auto simp: triple_def db_rollback_def holds_def)
    then show "triple (?Y x) (bindM db_rollback (\<lambda>_. bindM (resolve_replayed_after_conflict env rx) (\<lambda>replayed.
           case replayed of Some r \<Rightarrow> ret (Some r) | None \<Rightarrow> raise default_idempotency_conflict)))
      ?Q (\<lambda>_. unanswered d0)"
      by (rule triple_bindM, intro triple_bindM [OF conflict_answers [OF env]])
         (auto intro!: triple_option triple_ret triple_raise simp: holds_def)
    show "\<not> is_integrity_error x \<Longrightarrow> triple (?Y x) (raise x) ?Q (\<lambda>_. unanswered d0)"
      by (intro triple_raise) (simp add: is_integrity_error_def)
  qed
qed

section \<open>The use case\<close>

lemma controls_decided:
  assumes "evaluate_controls env uc customer request evaluation cid w = (Inr decision, w')"
  shows "cd_final_status decision =
    resolve_status_from_decisions (cd_risk_decision decision) (cd_aml_decision decision)"
  using assms unfolding evaluate_controls_def evaluate_risk_def evaluate_aml_def
  by (auto elim!: bindM_elim split: prod.splits)

lemma response_decided:
  assumes "build_response_payload env decision w = (Inr response, w')"
    and "cd_final_status decision =
      resolve_status_from_decisions (cd_risk_decision decision) (cd_aml_decision decision)"
  shows "decided decision response"
  using assms unfolding build_response_payload_def build_payment_response_def
  by (auto elim!: bindM_elim simp: decided_def)

text \<open>A reading step whose result satisfies \<open>V\<close>.\<close>

lemma step_value:
  assumes "guar (reads_only (\<lambda>_. ())) m" and "persistent T" and "\<And>w a w'. m w = (Inr a, w') \<Longrightarrow> V a"
    and "\<And>a. V a \<Longrightarrow> triple (holds d0 T) (f a) Q (\<lambda>_. holds d0 (\<lambda>_. True))"
  shows "triple (holds d0 T) (bindM m f) Q (\<lambda>_. holds d0 (\<lambda>_. True))"
proof (rule triple_bindM [where R = "\<lambda>a w. V a \<and> holds d0 T w"])
  show "triple (holds d0 T) m (\<lambda>a w. V a \<and> holds d0 T w) (\<lambda>_. holds d0 (\<lambda>_. True))"
  proof (rule tripleI)
    fix w a w' assume w: "holds d0 T w" "m w = (Inr a, w')"
    show "V a \<and> holds d0 T w'"
      using tripleD_Inr [OF reads_keep [OF assms(1,2)] w] assms(3) [OF w(2)] by simp
  next
    fix w x w' assume w: "holds d0 T w" "m w = (Inl x, w')"
    show "holds d0 (\<lambda>_. True) w'"
      using tripleD_Inl [OF reads_keep [OF assms(1,2)] w] by (rule holds_mono) simp
  qed
  show "triple (\<lambda>w. V a \<and> holds d0 T w) (f a) Q (\<lambda>_. holds d0 (\<lambda>_. True))" for a
    using assms(4) [of a] by (auto simp: triple_def)
qed

lemma controls_answer:
  assumes env: "well_behaved env"
  shows "triple (unanswered d0) (create_payment_with_controls env uc rx request) (answers d0 rx)
    (\<lambda>_. unanswered d0)"
proof -
  let ?V = "\<lambda>d :: control_decision. cd_final_status d = resolve_status_from_decisions (cd_risk_decision d) (cd_aml_decision d)"
  let ?finish = "\<lambda>decision response replayed. case replayed of
       Some r \<Rightarrow> ret r
     | None \<Rightarrow> bindM (after_commit_observability env uc rx request response decision) (\<lambda>_. ret response)"
  have fin: "triple (answers d0 rx response) (?finish decision response None) (answers d0 rx) (\<lambda>_. unanswered d0)"
    for decision response
    by (simp, rule step_reads) (intro reading_intros persistent_intros triple_ret env, assumption?)+
  have fin': "triple (answers d0 rx r) (?finish decision response (Some r)) (answers d0 rx) (\<lambda>_. unanswered d0)"
    for decision response r
    by (simp add: triple_ret)
  have persist: "triple (unanswered d0)
      (bindM (persist_payment_transaction env rx request decision response) (?finish decision response))
      (answers d0 rx) (\<lambda>_. unanswered d0)" if "decided decision response" for decision response
  proof (rule triple_bindM [OF transaction_answers [OF env that]], goal_cases)
    case (1 x)
    then show ?case using fin fin' by (cases x) (simp_all only: option.case)
  qed
  have main: "triple (unanswered d0)
     (bindM (evaluate_controls env uc customer request evaluation (rx_customer_id rx)) (\<lambda>decision.
      bindM (build_response_payload env decision) (\<lambda>response.
      bindM (update_decision_correlation_fields decision) (\<lambda>_.
      bindM (persist_payment_transaction env rx request decision response) (?finish decision response)))))
     (answers d0 rx) (\<lambda>_. unanswered d0)" for customer evaluation
  proof (rule step_value [where V = ?V])
    fix decision assume v: "?V decision"
    show "triple (unanswered d0)
      (bindM (build_response_payload env decision) (\<lambda>response.
       bindM (update_decision_correlation_fields decision) (\<lambda>_.
       bindM (persist_payment_transaction env rx request decision response) (?finish decision response))))
      (answers d0 rx) (\<lambda>_. unanswered d0)"
      by (rule step_value [where V = "decided decision"])
         (auto intro!: reading_intros persistent_intros env step_reads persist intro: response_decided [OF _ v])
  qed (auto intro!: reading_intros persistent_intros env intro: controls_decided)
  show ?thesis
    unfolding create_payment_with_controls_def
    by (intro step_reads [OF _ persistent_const step_reads [OF _ persistent_const main]]
        reading_intros env)
qed

text \<open>Inside the session, from its first statement to its end.\<close>

lemma session_answers:
  assumes env: "well_behaved env"
  shows "triple (unanswered d0)
    (bindM (try_return_replayed_response env rx) (\<lambda>replayed.
        case replayed of
          Some r \<Rightarrow> ret r
        | None \<Rightarrow>
            bindM (acquire_idempotency_lock env uc rx) (\<lambda>acquired.
            if \<not> acquired then resolve_pending_idempotent_request env rx
            else create_payment_with_controls env uc rx request)))
    (answers d0 rx) (\<lambda>_. unanswered d0)"
proof (rule triple_bindM [OF replay_answers [OF env]], goal_cases)
  case (1 x)
  show ?case
  proof (cases x)
    case None
    have "triple (unanswered d0)
       (bindM (acquire_idempotency_lock env uc rx) (\<lambda>acquired.
            if \<not> acquired then resolve_pending_idempotent_request env rx
            else create_payment_with_controls env uc rx request)) (answers d0 rx) (\<lambda>_. unanswered d0)"
      unfolding resolve_pending_idempotent_request_def acquire_idempotency_lock_def
      by (intro step_reads reading_intros persistent_intros triple_if poll_answers controls_answer env)
    then show ?thesis using None by (auto elim: triple_pre simp: holds_def)
  next
    case (Some r)
    then show ?thesis by (auto intro: triple_ret simp: holds_def)
  qed
qed

lemma context_scope:
  assumes "build_request_context uc headers request w = (Inr (rx, rq), w')"
  shows "require_header headers ''X-Merchant-Id'' = Inr (rx_merchant_id rx) \<and>
    require_header headers ''Idempotency-Key'' = Inr (rx_idempotency_key rx) \<and> w_db w' = w_db w"
  using assms unfolding build_request_context_def
  by (auto elim!: bindM_elim simp: from_result_def update_correlation_context_def split: sum.splits)

lemma context_keeps_db:
  fixes w :: "('e, 'm) world_scheme"
  shows "w_db (snd (build_request_context uc headers request w)) = w_db w"
proof -
  have "keeps (\<lambda>v :: ('e, 'm) world_scheme. w_db v = w_db w) (build_request_context uc headers request)"
    unfolding build_request_context_def update_correlation_context_def from_result_def
    by (intro keeps_intros) (simp add: keeps_def)
  then show ?thesis by (simp add: keeps_def)
qed

lemma create_execute_safe:
  assumes env: "well_behaved env" and c: "consistent (w_db w)"
    and run: "create_execute env uc request headers w = (r, w')"
  shows "consistent (w_db w') \<and> extends (w_db w) (w_db w') \<and>
    (\<forall>a. r = Inr a \<longrightarrow> (\<exists>m k. require_header headers ''X-Merchant-Id'' = Inr m \<and>
       require_header headers ''Idempotency-Key'' = Inr k \<and> scope_owned (m, k) (ac_payment_id a) (w_db w')))"
proof -
  obtain q w1 where b: "build_request_context uc headers request w = (q, w1)"
    by (cases "build_request_context uc headers request w")
  have db: "w_db w1 = w_db w" using context_keeps_db [of uc headers request w] b by simp
  show ?thesis
  proof (cases q)
    case (Inl x)
    then have "r = Inl x \<and> w' = w1" using run b by (auto simp: create_execute_def bindM_def)
    then show ?thesis using c db by simp
  next
    case (Inr ab)
    obtain rx rq where ab: "ab = (rx, rq)" by (cases ab)
    let ?body = "bindM (try_return_replayed_response env rx) (\<lambda>replayed.
        case replayed of
          Some r \<Rightarrow> ret r
        | None \<Rightarrow>
            bindM (acquire_idempotency_lock env uc rx) (\<lambda>acquired.
            if \<not> acquired then resolve_pending_idempotent_request env rx
            else create_payment_with_controls env uc rx rq))"
    obtain w2 where s: "?body (w1\<lparr>w_pending := []\<rparr>) = (r, w2)" "w' = w2\<lparr>w_pending := []\<rparr>"
      using run b Inr ab by (auto simp: create_execute_def bindM_def in_session_def split: prod.splits)
    have start: "unanswered (w_db w) (w1\<lparr>w_pending := []\<rparr>)" using c db by (simp add: holds_def)
    note t = session_answers [OF env, of "w_db w" rx uc rq]
    show ?thesis
    proof (cases r)
      case (Inl x)
      then show ?thesis using tripleD_Inl [OF t start] s by (auto simp: holds_def)
    next
      case (Inr a)
      then have "answers (w_db w) rx a w2" using tripleD_Inr [OF t start] s by auto
      moreover have "require_header headers ''X-Merchant-Id'' = Inr (rx_merchant_id rx)"
        "require_header headers ''Idempotency-Key'' = Inr (rx_idempotency_key rx)"
        using context_scope [of uc headers request w rx rq w1] b \<open>q = Inr ab\<close> ab by simp_all
      ultimately show ?thesis using s(2) Inr by (simp add: holds_def rx_scope_def)
    qed
  qed
qed

end
