(* ===== verification/TransactionSafety.thy ===== *)
theory TransactionSafety
  imports Guarantee
begin

text \<open>
  Transactions that update rows and add events: the review use cases, the seeding and the worker.
  \<open>txn\<close> holds at every point of such a run, inside a transaction too: the committed tables are
  consistent and extend the first ones, whatever is pending can be committed on any extension of
  them, and a provider has been sent only payments that controls did not block.
\<close>

definition pending_sound :: "('e, 'm) world_scheme \<Rightarrow> bool" where
  "pending_sound w \<longleftrightarrow>
     (\<forall>d. consistent d \<longrightarrow> extends (w_db w) d \<longrightarrow> sound d (fold (\<lambda>f d. f d) (w_pending w) d))"

definition log_ok :: "('e \<Rightarrow> provider_request set) \<Rightarrow> provider_request set \<Rightarrow> ('e, 'm) world_scheme \<Rightarrow> bool" where
  "log_ok g g0 w \<longleftrightarrow> g (w_out w) \<subseteq> g0 \<union> {rq. payable (pr_payment_id rq) (w_db w)}"

definition txn ::
  "('e \<Rightarrow> provider_request set) \<Rightarrow> provider_request set \<Rightarrow> database \<Rightarrow> (database \<Rightarrow> bool) \<Rightarrow>
   ('e, 'm) world_scheme \<Rightarrow> bool" where
  "txn g g0 d0 T w \<longleftrightarrow>
     consistent (w_db w) \<and> extends d0 (w_db w) \<and> T (w_db w) \<and> pending_sound w \<and> log_ok g g0 w"

lemma pending_sound_nil [simp]: "consistent (w_db w) \<Longrightarrow> w_pending w = [] \<Longrightarrow> pending_sound w"
  by (simp add: pending_sound_def sound_refl consistent_def)

lemma pending_sound_cong: "w_db v = w_db w \<Longrightarrow> w_pending v = w_pending w \<Longrightarrow> pending_sound v = pending_sound w"
  by (simp add: pending_sound_def)

lemma txn_weaken: "txn g g0 d0 S w \<Longrightarrow> (S (w_db w) \<Longrightarrow> T (w_db w)) \<Longrightarrow> txn g g0 d0 T w"
  by (auto simp: txn_def)

text \<open>Other sessions and the parts that only read keep it.\<close>

lemma txn_reads:
  fixes m :: "('e, 'm, 'a) act"
  assumes "guar (reads_only g) m" and T: "persistent T"
  shows "keeps (txn g g0 d0 T) m"
  unfolding keeps_def
proof (intro allI impI)
  fix w :: "('e, 'm) world_scheme" assume t: "txn g g0 d0 T w"
  let ?w = "snd (m w)"
  have r: "grows (w_db w) (w_db ?w)" "w_pending ?w = w_pending w" "g (w_out ?w) = g (w_out w)"
    using assms(1) by (auto simp: guar_def reads_only_def)
  have c: "consistent (w_db w)" "extends d0 (w_db w)" "pending_sound w" "log_ok g g0 w" "T (w_db w)"
    using t by (auto simp: txn_def)
  have d: "consistent (w_db ?w)" "extends (w_db w) (w_db ?w)" using r(1) c(1) by (auto simp: grows_def)
  have "pending_sound ?w" using c(3) d(2) r(2) by (auto simp: pending_sound_def intro: extends_trans)
  moreover have "log_ok g g0 ?w" using c(4) r(3) d(2) by (auto simp: log_ok_def intro: payable_extends)
  ultimately show "txn g g0 d0 T ?w"
    using c(2) d extends_trans persistentD [OF T c(1) d c(5)] by (auto simp: txn_def)
qed

text \<open>A write that stays sound can be added to what is pending.\<close>

lemma txn_write:
  assumes f: "\<And>d d'. consistent d \<Longrightarrow> T d \<Longrightarrow> sound d d' \<Longrightarrow> sound d (f d')" and T: "persistent T"
  shows "keeps (txn g g0 d0 T) (db_write f)"
  unfolding keeps_def
proof (intro allI impI)
  fix w assume t: "txn g g0 d0 T w"
  have "sound d (f (fold (\<lambda>f d. f d) (w_pending w) d))" if "consistent d" "extends (w_db w) d" for d
    using t that f persistentD [OF T _ that(1,2)] by (auto simp: txn_def pending_sound_def)
  then show "txn g g0 d0 T (snd (db_write f w))"
    using t by (simp add: db_write_def txn_def pending_sound_def log_ok_def)
qed

text \<open>A commit publishes the pending writes or, when a constraint fails, nothing.\<close>

lemma txn_commit:
  assumes "lawful g env" and T: "persistent T"
  shows "keeps (txn g g0 d0 T) (db_commit env)"
proof -
  have publish: "keeps (txn g g0 d0 T) (\<lambda>w. if constraints_ok (db_view w)
      then (Inr (), w\<lparr>w_db := db_view w, w_pending := []\<rparr>) else (Inl IntegrityError, w))"
    unfolding keeps_def
  proof (intro allI impI)
    fix w assume t: "txn g g0 d0 T w"
    have s: "sound (w_db w) (db_view w)"
      using t by (auto simp: txn_def pending_sound_def db_view_def)
    have e: "extends (w_db w) (db_view w)" using s by (simp add: sound_def)
    have "txn g g0 d0 T (w\<lparr>w_db := db_view w, w_pending := []\<rparr>)" if ok: "constraints_ok (db_view w)"
    proof -
      have c: "consistent (db_view w)" using s ok by (simp add: consistent_def sound_def)
      have "T (db_view w)" using t persistentD [OF T _ c e] by (auto simp: txn_def)
      moreover have "log_ok g g0 (w\<lparr>w_db := db_view w, w_pending := []\<rparr>)"
        using t payable_extends [OF e] by (auto simp: txn_def log_ok_def)
      ultimately show ?thesis using t c e extends_trans by (auto simp: txn_def)
    qed
    then show "txn g g0 d0 T (snd (if constraints_ok (db_view w)
      then (Inr (), w\<lparr>w_db := db_view w, w_pending := []\<rparr>) else (Inl IntegrityError, w)))"
      using t by simp
  qed
  have "guar (reads_only g) (interfere env)" using assms(1) by (rule reading_interfere)
  then show ?thesis unfolding db_commit_def
    by (intro keeps_bindM txn_reads T publish)
qed

text \<open>A call of the provider, for a payment that was not blocked.\<close>

lemma txn_post:
  assumes "\<And>e r e'. o_http_post env url rq e = (r, e') \<Longrightarrow> g e' \<subseteq> insert rq (g e)"
    and "\<And>d. T d \<Longrightarrow> payable (pr_payment_id rq) d"
  shows "keeps (txn g g0 d0 T) (outside (o_http_post env url rq))"
  unfolding keeps_def
proof (intro allI impI)
  fix w assume t: "txn g g0 d0 T w"
  obtain r e where p: "o_http_post env url rq (w_out w) = (r, e)" by (cases "o_http_post env url rq (w_out w)")
  have "log_ok g g0 (w\<lparr>w_out := e\<rparr>)"
    using t assms(1) [OF p] assms(2) by (auto simp: txn_def log_ok_def)
  then show "txn g g0 d0 T (snd (outside (o_http_post env url rq) w))"
    using t p by (simp add: outside_def txn_def pending_sound_def)
qed

lemma keeps_value:
  assumes "keeps P m" and "\<And>w a w'. m w = (Inr a, w') \<Longrightarrow> V a" and "\<And>a. V a \<Longrightarrow> keeps P (f a)"
  shows "keeps P (bindM m f)"
  using assms by (fastforce simp: keeps_def bindM_def split: prod.splits sum.splits)

text \<open>Leaving or entering a session drops what is pending.\<close>

lemma txn_drop_pending: "txn g g0 d0 T w \<Longrightarrow> txn g g0 d0 T (w\<lparr>w_pending := []\<rparr>)"
  by (auto simp: txn_def log_ok_def)

lemma txn_session:
  fixes m :: "('e, 'm, 'a) act"
  assumes "\<And>w. txn g g0 d0 T w \<Longrightarrow> w_pending w = [] \<Longrightarrow> txn g g0 d0 S (snd (m w))"
    and "\<And>d. S d \<Longrightarrow> T d"
  shows "keeps (txn g g0 d0 T) (in_session m)"
  unfolding keeps_def
proof (intro allI impI)
  fix w :: "('e, 'm) world_scheme" assume "txn g g0 d0 T w"
  then have "txn g g0 d0 S (snd (m (w\<lparr>w_pending := []\<rparr>)))"
    by (intro assms(1) txn_drop_pending) simp_all
  then show "txn g g0 d0 T (snd (in_session m w))"
    using assms(2) txn_drop_pending
    by (fastforce simp: in_session_def split: prod.splits elim: txn_weaken)
qed

section \<open>The writes of the repositories\<close>

lemma txn_update_payments:
  assumes "lawful g env" and "persistent T" and "\<And>d. T d \<Longrightarrow> payable pid d"
    and "\<And>p. p_core (f p) = p_core p" and "\<And>p. v p \<Longrightarrow> p_payment_id p = pid"
  shows "keeps (txn g g0 d0 T) (db_update_payments env v f)"
  unfolding db_update_payments_def
  by (intro keeps_bindM keeps_ret txn_reads [OF reading_select] txn_write
      sound_update_payment [where pid = pid] assms)

lemma txn_update_outbox:
  assumes "lawful g env" and "persistent T" and "\<And>e. ob_core (f e) = ob_core e"
  shows "keeps (txn g g0 d0 T) (db_update_outbox env v f)"
  unfolding db_update_outbox_def
  by (intro keeps_bindM txn_reads [OF reading_interfere] txn_write sound_update_outbox assms)

lemma txn_add_event:
  assumes "lawful g env" and "persistent T"
    and "\<And>d. T d \<Longrightarrow> etype = PAYMENT_REQUESTED \<Longrightarrow> payable aid d"
  shows "keeps (txn g g0 d0 T) (add_event env aid etype payload)"
  unfolding add_event_def
  by (intro keeps_bindM txn_reads [OF reading_outside] lawful_preserves txn_write sound_insert_event)
     (simp_all add: assms)

named_theorems txn_intros "what keeps the transaction invariant"

declare keeps_intros [txn_intros]

lemma txn_payment_writes [txn_intros]:
  assumes "lawful g env" and "persistent T" and "\<And>d. T d \<Longrightarrow> payable (p_payment_id p) d"
  shows "keeps (txn g g0 d0 T) (update_status env (p_payment_id p) st err)"
    "keeps (txn g g0 d0 T) (mark_processing env p)"
    "keeps (txn g g0 d0 T) (mark_confirmed env p)"
    "keeps (txn g g0 d0 T) (mark_payment_failed env p reason)"
  unfolding update_status_def mark_processing_def mark_confirmed_def mark_payment_failed_def
  by (intro keeps_bindM keeps_ret txn_reads [OF reading_outside] lawful_preserves
      txn_update_payments [where pid = "p_payment_id p"] assms; simp add: p_core_def)+

lemma txn_outbox_writes [txn_intros]:
  assumes "lawful g env" and "persistent T"
  shows "keeps (txn g g0 d0 T) (mark_sent env eid)"
    "keeps (txn g g0 d0 T) (mark_event_failed env eid n)"
    "keeps (txn g g0 d0 T) (reschedule env eid n delay)"
  unfolding mark_sent_def mark_event_failed_def reschedule_def
  by (intro keeps_bindM txn_reads [OF reading_outside] lawful_preserves txn_update_outbox assms;
      simp add: ob_core_def)+

lemma txn_events [txn_intros]:
  assumes "lawful g env" and "persistent T"
  shows "etype \<noteq> PAYMENT_REQUESTED \<Longrightarrow> keeps (txn g g0 d0 T) (emit_event env aid etype payload)"
    "(\<And>d. T d \<Longrightarrow> payable aid d) \<Longrightarrow> keeps (txn g g0 d0 T) (add_event env aid etype payload)"
  unfolding emit_event_add by (intro txn_add_event assms; simp)+

section \<open>Reviews\<close>

text \<open>A payment read in review was not blocked by the controls.\<close>

lemma review_load_payable:
  assumes "well_behaved env" and "txn g g0 d0 T w" and "w_pending w = []"
    and "load_review_payment_or_raise env pid w = (Inr p, w')" and "lawful g env" and "persistent T"
  shows "txn g g0 d0 (\<lambda>d. T d \<and> payable pid d) w' \<and> p_payment_id p = pid"
proof -
  have l: "guar (reads_only g) (load_review_payment_or_raise env pid)" using assms(5) by (intro reading_intros)
  have t: "txn g g0 d0 T w'"
    using keepsD [OF txn_reads [OF l assms(6)] assms(2,4)] .
  have pend: "w_pending w' = []" using guarD [OF l assms(4)] assms(3) by (simp add: reads_only_def)
  obtain x w1 where g: "get_by_payment_id env pid w = (Inr x, w1)"
    and x: "x = Some p" "p_status p = IN_REVIEW" "w1 = w'"
    using assms(4) unfolding load_review_payment_or_raise_def
    by (auto elim!: bindM_elim split: option.splits if_splits)
  obtain rows where rows: "db_select env (payments_by_id pid) w = (Inr rows, w')" and s: "scalar_one_or_none rows w' = (Inr (Some p), w')"
    using g x unfolding get_by_payment_id_def
    by (auto elim!: bindM_elim simp: scalar_one_or_none_def split: list.splits)
  have v: "rows = payments_by_id pid (w_db w')"
    using rows pend by (auto simp: db_select_def interfere_def bindM_def db_view_def split: prod.splits)
  have p: "p \<in> set (db_payments (w_db w'))" "p_payment_id p = pid"
    using s v by (auto simp: scalar_one_or_none_def payments_by_id_def split: list.splits
        dest: Cons_eq_filterD [OF sym])
  have "\<not> blocked_by_controls p"
    using t p(1) x(2) by (auto simp: txn_def consistent_def coherent_def)
  then have "payable pid (w_db w')" using p by (auto simp: payable_def)
  then show ?thesis using t p(2) by (auto simp: txn_def)
qed

lemma txn_review:
  assumes env: "lawful g env" and T: "persistent T"
    and rest: "\<And>payment. p_payment_id payment = pid \<Longrightarrow>
      keeps (txn g g0 d0 (\<lambda>d. T d \<and> payable pid d)) (rest payment)"
  shows "keeps (txn g g0 d0 T) (in_session (bindM (load_review_payment_or_raise env pid) rest))"
proof (rule txn_session)
  fix w :: "('a, 'b) world_scheme"
  assume w: "txn g g0 d0 T w" "w_pending w = []"
  obtain r w' where l: "load_review_payment_or_raise env pid w = (r, w')"
    by (cases "load_review_payment_or_raise env pid w")
  show "txn g g0 d0 T (snd (bindM (load_review_payment_or_raise env pid) rest w))"
  proof (cases r)
    case (Inl x)
    have "txn g g0 d0 T w'" using keepsD [OF txn_reads [OF reading_use_case(13) [OF env] T] w(1) l] .
    then show ?thesis using l Inl by (simp add: bindM_def)
  next
    case (Inr payment)
    have p: "txn g g0 d0 (\<lambda>d. T d \<and> payable pid d) w'" "p_payment_id payment = pid"
      using review_load_payable [OF lawful_well_behaved [OF env] w _ env T] l Inr by auto
    have "txn g g0 d0 (\<lambda>d. T d \<and> payable pid d) (snd (rest payment w'))"
      using rest [OF p(2)] p(1) by (simp add: keeps_def)
    then show ?thesis using l Inr by (auto simp: bindM_def elim: txn_weaken)
  qed
qed simp

lemma txn_approve:
  assumes env: "lawful g env" and T: "persistent T"
  shows "keeps (txn g g0 d0 T) (approve_execute env pid)"
  unfolding approve_execute_def
proof (rule txn_review [OF env T], goal_cases)
  case (1 payment)
  have p: "persistent (\<lambda>d. T d \<and> payable pid d)" using T by (intro persistent_intros)
  note u = txn_payment_writes(1) [OF env p, where p = payment, unfolded 1]
  show ?case
    unfolding enqueue_payment_requested_def
    by (intro keeps_bindM u txn_events(2) [OF env p] txn_commit [OF env p] txn_reads [OF reading_outside p]
        txn_reads [OF reading_use_case(14) p] txn_reads [OF reading_use_case(15) p] lawful_preserves env)
       simp_all
qed

lemma txn_reject:
  assumes env: "lawful g env" and T: "persistent T"
  shows "keeps (txn g g0 d0 T) (reject_execute env pid)"
  unfolding reject_execute_def
proof (rule txn_review [OF env T], goal_cases)
  case (1 payment)
  have p: "persistent (\<lambda>d. T d \<and> payable pid d)" using T by (intro persistent_intros)
  note u = txn_payment_writes(1) [OF env p, where p = payment, unfolded 1]
  show ?case
    by (intro keeps_bindM u txn_commit [OF env p]
        txn_reads [OF reading_use_case(14) p] txn_reads [OF reading_use_case(15) p] env) simp_all
qed

lemma txn_in_session:
  assumes "keeps (txn g g0 d0 T) m"
  shows "keeps (txn g g0 d0 T) (in_session m)"
  using assms by (intro txn_session) (simp_all add: keeps_def)

lemma txn_init_db:
  assumes env: "lawful g env" and T: "persistent T"
  shows "keeps (txn g g0 d0 T) (init_db env)"
  unfolding init_db_def seed_customers_step_def seed_limits_step_def
  by (intro txn_in_session keeps_bindM keeps_if keeps_ret txn_reads [OF reading_select T]
      txn_reads [OF reading_scalar T] txn_reads [OF reading_outside T] lawful_preserves env
      txn_commit [OF env T] txn_write [OF _ T] sound_insert_customers sound_insert_limits)

section \<open>The worker\<close>

text \<open>\<open>calls_logged g env\<close>: \<open>g\<close> sees at most the requests posted to providers.\<close>

definition calls_logged :: "('e \<Rightarrow> provider_request set) \<Rightarrow> 'e outside \<Rightarrow> bool" where
  "calls_logged g env \<longleftrightarrow>
     lawful g env \<and>
     (\<forall>url rq e r e'. o_http_post env url rq e = (r, e') \<longrightarrow> g e' \<subseteq> insert rq (g e))"

lemma calls_lawful: "calls_logged g env \<Longrightarrow> lawful g env"
  by (simp add: calls_logged_def)

lemma txn_retry:
  assumes "lawful g env" and "persistent T" and op: "keeps (txn g g0 d0 T) op"
  shows "keeps (txn g g0 d0 T) (retry_loop env op sr n b attempts le)"
proof (induction attempts arbitrary: le)
  case Nil
  show ?case by (simp, intro keeps_intros)
next
  case (Cons a as)
  show ?case unfolding retry_loop.simps exponential_backoff_def
    by (intro keeps_try_else keeps_bindM keeps_if keeps_ret keeps_raise op Cons.IH
        txn_reads [OF reading_outside assms(2)] lawful_preserves assms(1))
qed

lemma reading_breakers [reading_intros]:
  "guar (reads_only g) (get_breaker name)" "guar (reads_only g) (set_breaker name cb)"
  "guar (reads_only g) (on_success name)" "guar (reads_only g) (for_method rail)"
proof -
  show set: "guar (reads_only g) (set_breaker name cb)" for name cb
    by (auto simp: set_breaker_def guar_def reads_only_def)
  show get: "guar (reads_only g) (get_breaker name)" for name
    unfolding get_breaker_def by (intro reading_intros)
  show "guar (reads_only g) (on_success name)" "guar (reads_only g) (for_method rail)"
    unfolding on_success_def for_method_def by (intro reading_intros get set)+
qed

lemma reading_breaker_ops [reading_intros]:
  assumes "lawful g env"
  shows "guar (reads_only g) (clock_if env b)" "guar (reads_only g) (allow_call env name)"
    "guar (reads_only g) (on_failure env name)"
proof -
  show clock: "guar (reads_only g) (clock_if env b)" for b
    unfolding clock_if_def by (intro reading_intros assms)
  show "guar (reads_only g) (allow_call env name)" "guar (reads_only g) (on_failure env name)"
    unfolding allow_call_def on_failure_def by (intro reading_intros clock)+
qed

lemma txn_bulkhead:
  assumes "keeps (txn g g0 d0 T) m"
  shows "keeps (txn g g0 d0 T) (with_bulkhead key m)"
proof -
  have q: "keeps (txn g g0 d0 T) (modify (\<lambda>w. w\<lparr>pw_bulkhead := f w\<rparr>))" for f
    by (auto simp: keeps_def txn_def pending_sound_def log_ok_def)
  show ?thesis unfolding with_bulkhead_def Let_def
    by (intro keeps_bindM keeps_gets keeps_option keeps_raise keeps_try_else keeps_ret q assms)
qed

lemma txn_provider_execute:
  assumes log: "calls_logged g env" and T: "persistent T" and p: "\<And>d. T d \<Longrightarrow> payable (p_payment_id p) d"
  shows "keeps (txn g g0 d0 T) (provider_execute env p)"
proof -
  note env = calls_lawful [OF log]
  have once: "keeps (txn g g0 d0 T) (call_once env strategy p)" for strategy
    unfolding call_once_def adapter_confirm_def
    using log p
    by (intro keeps_bindM txn_post txn_reads [OF reading_from_result T])
       (auto simp: calls_logged_def provider_request_of_def)
  show ?thesis
    unfolding provider_execute_def retry_async_def Let_def
    by (intro keeps_bindM keeps_prod keeps_try_else keeps_ret keeps_raise txn_bulkhead
        txn_retry [OF env T once] txn_reads [OF reading_breakers(3) T] txn_reads [OF reading_breakers(4) T]
        txn_reads [OF reading_breaker_ops(2) T] txn_reads [OF reading_breaker_ops(3) T]
        txn_reads [OF reading_outside T] txn_reads [OF reading_emit T] lawful_preserves env)
qed

lemma txn_finalize:
  assumes env: "lawful g env" and T: "persistent T" and p: "\<And>d. T d \<Longrightarrow> payable (p_payment_id p) d"
  shows "keeps (txn g g0 d0 T) (finalize_confirm env p provider reference)"
    "keeps (txn g g0 d0 T) (finalize_fail env p provider category reason)"
  unfolding finalize_confirm_def finalize_fail_def
  by (intro keeps_bindM txn_payment_writes [OF env T p] txn_events(1) [OF env T]; simp)+

lemma txn_process_payment_event:
  assumes log: "calls_logged g env" and T: "persistent T" and p: "\<And>d. T d \<Longrightarrow> payable (p_payment_id p) d"
  shows "keeps (txn g g0 d0 T) (process_payment_event env ws event p)"
proof -
  note env = calls_lawful [OF log]
  show ?thesis
    unfolding process_payment_event_def handle_processor_error_def exponential_backoff_def Let_def
    by (intro keeps_bindM keeps_catch keeps_if keeps_option keeps_prod keeps_ret
        txn_provider_execute [OF log T p] txn_finalize [OF env T p] txn_outbox_writes [OF env T]
        txn_commit [OF env T] txn_reads [OF reading_emit T] txn_reads [OF reading_outside T]
        txn_reads [OF reading_breakers(4) T] lawful_preserves env)
qed

lemma get_by_id_value: "get_by_id env pid w = (Inr x, w') \<Longrightarrow> \<forall>p. x = Some p \<longrightarrow> p_payment_id p = pid"
  unfolding get_by_id_def db_select_def
  by (auto elim!: bindM_elim simp: interfere_def scalar_one_or_none_def payments_by_id_def
      split: prod.splits list.splits dest: Cons_eq_filterD [OF sym])

lemma txn_process_event:
  assumes log: "calls_logged g env" and T: "persistent T" and p: "\<And>d. T d \<Longrightarrow> payable (ob_aggregate_id event) d"
  shows "keeps (txn g g0 d0 T) (process_event env ws event)"
  unfolding process_event_def mark_processing_execute_def
proof (rule keeps_value [where V = "\<lambda>x. \<forall>p. x = Some p \<longrightarrow> p_payment_id p = ob_aggregate_id event"], goal_cases)
  case 1
  show ?case using calls_lawful [OF log] by (intro txn_reads [OF _ T] reading_intros)
next
  case (2 w x w')
  then show ?case by (rule get_by_id_value)
next
  case (3 x)
  note env = calls_lawful [OF log]
  have "keeps (txn g g0 d0 T) (bindM (mark_processing env pay) (\<lambda>marked.
         if \<not> marked
         then bindM (mark_sent env (ob_event_id event)) (\<lambda>_. db_commit env)
         else process_payment_event env ws event (synced_payment env pay)))"
    if "x = Some pay" for pay
  proof -
    have "p_payment_id pay = ob_aggregate_id event" using 3 that by simp
    then have q: "\<And>d. T d \<Longrightarrow> payable (p_payment_id pay) d"
      "\<And>d. T d \<Longrightarrow> payable (p_payment_id (synced_payment env pay)) d"
      using p by (simp_all add: synced_payment_def)
    show ?thesis
      by (intro keeps_bindM keeps_if txn_payment_writes(2) [OF env T q(1)] txn_outbox_writes [OF env T]
          txn_commit [OF env T] txn_process_payment_event [OF log T q(2)])
  qed
  then show ?case
    by (cases x) (auto intro!: keeps_bindM txn_outbox_writes [OF env T] txn_commit [OF env T])
qed

lemma txn_fanout:
  assumes env: "lawful g env" and T: "persistent T"
  shows "keeps (txn g g0 d0 T) (publish_fanout_events env ws)"
proof -
  have pub: "keeps (txn g g0 d0 T) (publish env event)" for event
    unfolding publish_def
    by (intro keeps_bindM keeps_sum keeps_raise keeps_ret txn_reads [OF reading_outside T] lawful_preserves env)
  show ?thesis
    unfolding publish_fanout_events_def publish_fanout_event_def handle_fanout_failure_def
      exponential_backoff_def Let_def
    by (intro keeps_bindM keeps_if keeps_ret keeps_forM keeps_try_else keeps_catch keeps_raise pub
        txn_outbox_writes [OF env T] txn_commit [OF env T] txn_reads [OF reading_emit T]
        txn_reads [OF reading_outside T] txn_reads [OF reading_repositories(16) T] lawful_preserves env)
qed

text \<open>The requests the worker fetches are for payments that were not blocked.\<close>

lemma fetch_payable:
  assumes env: "lawful g env" and T: "persistent T" and w: "txn g g0 d0 T w" "w_pending w = []"
    and run: "fetch_pending_requested env n w = (Inr events, w')"
  shows "txn g g0 d0 (\<lambda>d. T d \<and> (\<forall>e\<in>set events. payable (ob_aggregate_id e) d)) w'"
proof -
  have l: "guar (reads_only g) (fetch_pending_requested env n)" using env by (intro reading_intros)
  have t: "txn g g0 d0 T w'" using keepsD [OF txn_reads [OF l T] w(1) run] .
  have pend: "w_pending w' = []" using guarD [OF l run] w(2) by (simp add: reads_only_def)
  obtain now where ev: "events = pending_requested_stmt now n (w_db w')"
    using run pend
    by (auto simp: fetch_pending_requested_def db_select_def interfere_def bindM_def outside_def db_view_def
        split: prod.splits)
  have "payable (ob_aggregate_id e) (w_db w')" if "e \<in> set events" for e
  proof -
    have e: "e \<in> set (db_outbox (w_db w'))" "ob_event_type e = PAYMENT_REQUESTED"
      using that ev by (auto simp: pending_requested_stmt_def pending_of_def dest!: in_set_takeD)
    have "coherent (w_db w')" using t by (simp add: txn_def consistent_def)
    then show ?thesis using e unfolding coherent_def payable_def by blast
  qed
  then show ?thesis using t by (auto simp: txn_def)
qed

lemma txn_session_triple:
  fixes m :: "('e, 'm, 'a) act"
  assumes "triple (\<lambda>w. txn g g0 d0 T w \<and> w_pending w = []) m (\<lambda>_. txn g g0 d0 T) (\<lambda>_. txn g g0 d0 T)"
  shows "keeps (txn g g0 d0 T) (in_session m)"
proof (rule txn_session)
  fix w :: "('e, 'm) world_scheme" assume "txn g g0 d0 T w" "w_pending w = []"
  then show "txn g g0 d0 T (snd (m w))"
    using assms by (cases "m w"; cases "fst (m w)") (auto simp: triple_def)
qed simp

lemma txn_run_once:
  fixes env :: "'e outside"
  assumes log: "calls_logged g env" and T: "persistent T"
  shows "keeps (txn g g0 d0 T) (run_once env ws :: ('e, 'm, unit) pact)"
proof -
  note env = calls_lawful [OF log]
  let ?P = "\<lambda>T w. txn g g0 d0 T w \<and> w_pending w = []"
  have reads: "triple (?P T) m (\<lambda>_. ?P T) (\<lambda>_. txn g g0 d0 T)"
    if m: "guar (reads_only g) m" for m :: "('e, 'm, 'c) pact"
  proof -
    have "?P T (snd (m w))" if "?P T w" for w
      using that txn_reads [OF m T, of g0 d0] m by (auto simp: keeps_def guar_def reads_only_def)
    then show ?thesis by (fastforce simp: triple_def split: prod.splits sum.splits)
  qed
  have fetch: "triple (?P T) (fetch_pending_requested env (ws_batch_size ws) :: ('e, 'm, outbox_row list) pact)
      (\<lambda>events. txn g g0 d0 (\<lambda>d. T d \<and> (\<forall>e\<in>set events. payable (ob_aggregate_id e) d)))
      (\<lambda>_. txn g g0 d0 T)"
  proof (rule tripleI)
    fix v :: "('e, 'm) proc_world_scheme" and events v'
    assume "?P T v" "fetch_pending_requested env (ws_batch_size ws) v = (Inr events, v')"
    then show "txn g g0 d0 (\<lambda>d. T d \<and> (\<forall>e\<in>set events. payable (ob_aggregate_id e) d)) v'"
      using fetch_payable [OF env T] by blast
  next
    fix v :: "('e, 'm) proc_world_scheme" and x v'
    assume v: "?P T v" "fetch_pending_requested env (ws_batch_size ws) v = (Inl x, v')"
    show "txn g g0 d0 T v'"
      using keepsD [OF txn_reads [OF reading_repositories(15) [OF env] T]] v by blast
  qed
  have work: "triple (txn g g0 d0 (\<lambda>d. T d \<and> (\<forall>e\<in>set events. payable (ob_aggregate_id e) d)))
      (bindM (forM events (process_event env ws :: outbox_row \<Rightarrow> ('e, 'm, unit) pact)) (\<lambda>_. publish_fanout_events env ws))
      (\<lambda>_. txn g g0 d0 T) (\<lambda>_. txn g g0 d0 T)" (is "triple (txn g g0 d0 ?T) _ _ _") for events
  proof -
    have p: "persistent ?T" using T by (intro persistent_intros)
    have "keeps (txn g g0 d0 ?T) (forM es (process_event env ws :: outbox_row \<Rightarrow> ('e, 'm, unit) pact))" if "set es \<subseteq> set events" for es
      using that
      by (induction es) (auto intro!: keeps_ret keeps_bindM txn_process_event [OF log p])
    then have "keeps (txn g g0 d0 ?T) (bindM (forM events (process_event env ws :: outbox_row \<Rightarrow> ('e, 'm, unit) pact)) (\<lambda>_. publish_fanout_events env ws))"
      by (intro keeps_bindM txn_fanout [OF env p]) simp
    then show ?thesis by (rule triple_weaken [OF triple_keeps]) (auto elim: txn_weaken)
  qed
  show ?thesis
    unfolding run_once_def
    by (intro txn_session_triple triple_bindM [OF reads [OF reading_repositories(13) [OF env]]]
        triple_bindM [OF reads [OF reading_emit]]
        triple_bindM [OF reads [OF reading_repositories(14) [OF env]]] triple_bindM [OF fetch] work)
qed

lemma txn_rounds:
  assumes log: "calls_logged g env" and T: "persistent T"
  shows "keeps (txn g g0 d0 T) (run_rounds n env ws)"
proof (induction n)
  case 0
  show ?case unfolding run_rounds.simps by (rule keeps_ret)
next
  case (Suc n)
  show ?case unfolding run_rounds.simps worker_iteration_def
    by (intro keeps_bindM keeps_catch txn_run_once [OF log T] txn_reads [OF reading_emit T]
        txn_reads [OF reading_outside T] lawful_preserves calls_lawful [OF log] Suc.IH)
qed

end
