(* ===== verification/System.thy ===== *)
theory System
  imports CreateSafety TransactionSafety
begin

text \<open>
  The whole system over the shared tables: any sequence of runs of the API's use cases, the
  seeding and the worker, each in the presence of other sessions that behave.  Every reachable
  state of the tables is consistent, and every step only extends them.
\<close>

definition empty_tables :: database where
  "empty_tables = \<lparr>db_customers = [], db_limits = [], db_payments = [], db_outbox = [], db_idempotency = []\<rparr>"

inductive system_step :: "'e outside \<Rightarrow> database \<Rightarrow> database \<Rightarrow> bool" for env where
  create: "snd (create_execute env uc request headers (w :: 'e world)) = w' \<Longrightarrow>
     system_step env (w_db w) (w_db w')"
| approve: "snd (approve_execute env pid (w :: 'e world)) = w' \<Longrightarrow> system_step env (w_db w) (w_db w')"
| reject: "snd (reject_execute env pid (w :: 'e world)) = w' \<Longrightarrow> system_step env (w_db w) (w_db w')"
| get: "snd (get_execute env pid (w :: 'e world)) = w' \<Longrightarrow> system_step env (w_db w) (w_db w')"
| seed: "snd (init_db env (w :: 'e world)) = w' \<Longrightarrow> system_step env (w_db w) (w_db w')"
| work: "snd (run_once env ws (w :: 'e proc_world)) = w' \<Longrightarrow> system_step env (w_db w) (w_db w')"

inductive reachable :: "'e outside \<Rightarrow> database \<Rightarrow> bool" for env where
  start: "reachable env empty_tables"
| step: "reachable env d \<Longrightarrow> system_step env d d' \<Longrightarrow> reachable env d'"

lemma empty_consistent: "consistent empty_tables"
  by (simp add: empty_tables_def consistent_def constraints_ok_def coherent_def)

text \<open>A handler that keeps \<open>txn\<close> from any start lets the tables grow.\<close>

lemma txn_grows:
  fixes m :: "('e, 'm, 'a) act"
  assumes k: "\<And>d0. keeps (txn (\<lambda>_. {}) {} d0 (\<lambda>_. True)) (in_session m)"
    and c: "consistent (w_db w)"
  shows "consistent (w_db (snd (in_session m w))) \<and> extends (w_db w) (w_db (snd (in_session m w)))"
proof -
  let ?w = "w\<lparr>w_pending := []\<rparr>"
  have "txn (\<lambda>_. {}) {} (w_db w) (\<lambda>_. True) ?w" using c by (simp add: txn_def log_ok_def)
  then have "txn (\<lambda>_. {}) {} (w_db w) (\<lambda>_. True) (snd (in_session m ?w))"
    using k [of "w_db w"] by (simp add: keeps_def)
  then show ?thesis by (simp add: txn_def in_session_def)
qed

lemma no_log: "well_behaved env \<Longrightarrow> calls_logged (\<lambda>_. {}) env"
  by (simp add: calls_logged_def lawful_def preserves_def)

lemma reading_get: "lawful g env \<Longrightarrow> keeps (txn g g0 d0 (\<lambda>_. True)) (get_execute env pid)"
  unfolding get_execute_def
  by (intro txn_in_session txn_reads reading_intros persistent_intros)

lemma step_grows:
  assumes "system_step env d d'" and env: "well_behaved env" and "consistent d"
  shows "consistent d' \<and> extends d d'"
  using assms(1,3)
proof (induction rule: system_step.induct)
  case (create uc request headers w w')
  then have "create_execute env uc request headers w = (fst (create_execute env uc request headers w), w')"
    by (simp add: prod_eq_iff)
  from create_execute_safe [OF env create.prems this] show ?case by blast
next
  case (approve pid w w')
  have "keeps (txn (\<lambda>_. {}) {} d0 (\<lambda>_. True)) (approve_execute env pid :: ('a, unit, _) act)" for d0
    using calls_lawful [OF no_log [OF env]] by (intro txn_approve persistent_intros)
  from txn_grows [OF this [unfolded approve_execute_def] approve.prems] approve.hyps
  show ?case unfolding approve_execute_def by simp
next
  case (reject pid w w')
  have "keeps (txn (\<lambda>_. {}) {} d0 (\<lambda>_. True)) (reject_execute env pid :: ('a, unit, _) act)" for d0
    using calls_lawful [OF no_log [OF env]] by (intro txn_reject persistent_intros)
  from txn_grows [OF this [unfolded reject_execute_def] reject.prems] reject.hyps
  show ?case unfolding reject_execute_def by simp
next
  case (get pid w w')
  have "keeps (txn (\<lambda>_. {}) {} d0 (\<lambda>_. True)) (get_execute env pid :: ('a, unit, _) act)" for d0
    using calls_lawful [OF no_log [OF env]] by (rule reading_get)
  from txn_grows [OF this [unfolded get_execute_def] get.prems] get.hyps
  show ?case unfolding get_execute_def by simp
next
  case (seed w w')
  have "keeps (txn (\<lambda>_. {}) {} d0 (\<lambda>_. True)) (init_db env :: ('a, unit, _) act)" for d0
    using calls_lawful [OF no_log [OF env]] by (intro txn_init_db persistent_intros)
  from txn_grows [OF this [unfolded init_db_def] seed.prems] seed.hyps
  show ?case unfolding init_db_def by simp
next
  case (work ws w w')
  have "keeps (txn (\<lambda>_. {}) {} d0 (\<lambda>_. True)) (run_once env ws :: ('a, unit, _) pact)" for d0
    by (intro txn_run_once no_log env persistent_intros)
  from txn_grows [OF this [unfolded run_once_def] work.prems] work.hyps
  show ?case unfolding run_once_def by simp
qed

lemma steps_grow:
  assumes "(system_step env)\<^sup>*\<^sup>* d d'" and env: "well_behaved env" and "consistent d"
  shows "consistent d' \<and> extends d d'"
  using assms(1,3)
proof (induction rule: rtranclp_induct)
  case (step y z)
  then show ?case using step_grows [OF step.hyps(2) env] extends_trans by blast
qed simp

lemma reachable_consistent: "reachable env d \<Longrightarrow> well_behaved env \<Longrightarrow> consistent d"
  by (induction rule: reachable.induct) (auto simp: empty_consistent dest: step_grows)

lemma worker_never_posts_blocked:
  fixes w :: "('e, 'm) proc_world_scheme"
  assumes log: "calls_logged g env" and c: "consistent (w_db w)" "w_pending w = []"
  shows "consistent (w_db (snd (run_rounds n env ws w))) \<and>
    extends (w_db w) (w_db (snd (run_rounds n env ws w))) \<and>
    g (w_out (snd (run_rounds n env ws w))) \<subseteq>
      g (w_out w) \<union> {rq. payable (pr_payment_id rq) (w_db (snd (run_rounds n env ws w)))}"
proof -
  have "txn g (g (w_out w)) (w_db w) (\<lambda>_. True) w" using c by (simp add: txn_def log_ok_def)
  moreover have "keeps (txn g (g (w_out w)) (w_db w) (\<lambda>_. True)) (run_rounds n env ws :: ('e, 'm, unit) pact)"
    by (rule txn_rounds [OF log persistent_const])
  ultimately have "txn g (g (w_out w)) (w_db w) (\<lambda>_. True) (snd (run_rounds n env ws w))"
    by (simp add: keeps_def)
  then show ?thesis by (simp add: txn_def log_ok_def)
qed

end
