(* ===== verification/MemoryOutside.thy ===== *)
theory MemoryOutside
  imports LimitsService RateLimiter Aml Idempotency TransactionSafety
    "HOL-Library.Code_Target_Nat"
begin

text \<open>
  An outside in memory: a Redis that keeps strings, lists and sorted sets, a clock that only a
  sleep moves, a supply of identifiers, a script of provider replies, and no other sessions.  It
  shows that the contracts the services rely on can be met, by interpreting each of them, and it
  runs the witnesses.  A Redis that is down answers every command with an error.
\<close>

record memory =
  mm_now :: moment
  mm_fresh :: nat
  mm_redis_down :: bool
  mm_strings :: "string \<rightharpoonup> string"
  mm_lists :: "string \<Rightarrow> string list"
  mm_zsets :: "string \<Rightarrow> (string \<times> moment) list"
  mm_replies :: "(exn + http_reply) list"
  mm_calls :: "provider_request list"
  mm_published :: "outbox_row list"

definition up :: "('a \<times> memory) \<Rightarrow> memory \<Rightarrow> (string + 'a) \<times> memory" where
  "up r e = (if mm_redis_down e then (Inl ''connection refused'', e) else (Inr (fst r), snd r))"

definition mem_count :: "string \<Rightarrow> memory \<Rightarrow> int" where
  "mem_count k e = (case mm_strings e k of
       None \<Rightarrow> 0
     | Some s \<Rightarrow> (case py_int s of None \<Rightarrow> 0 | Some n \<Rightarrow> n))"

definition zset_add :: "string \<Rightarrow> moment \<Rightarrow> (string \<times> moment) list \<Rightarrow> (string \<times> moment) list" where
  "zset_add m score z = (m, score) # filter (\<lambda>(x, s). x \<noteq> m) z"

text \<open>Amounts are stored with two decimals, the last one rounded half up.\<close>

definition two_decimals :: "decimal \<Rightarrow> decimal option" where
  "two_decimals d =
     (let cents = (if - 2 \<le> exponent d then coefficient d * 10 ^ nat (exponent d + 2)
                   else (2 * coefficient d + 10 ^ nat (- 2 - exponent d)) div (2 * 10 ^ nat (- 2 - exponent d)))
      in if \<bar>cents\<bar> < 10 ^ 18 then Some (Dec cents (- 2)) else None)"

definition mem_slice :: "int \<Rightarrow> int \<Rightarrow> 'a list \<Rightarrow> 'a list" where
  "mem_slice i j xs = drop (nat i) (take (nat j + 1) xs)"

definition memory_outside :: "memory outside" where
  "memory_outside =
     \<lparr>o_now = (\<lambda>e. (mm_now e, e)), o_db_now = (\<lambda>e. (mm_now e, e)),
      o_uuid4 = (\<lambda>e. (''uuid-'' @ show_nat (mm_fresh e), e\<lparr>mm_fresh := mm_fresh e + 1\<rparr>)),
      o_perf_counter = (\<lambda>e. (mm_now e, e)),
      o_random = (\<lambda>e. (1 / 2, e)),
      o_sleep = (\<lambda>t e. e\<lparr>mm_now := mm_now e + micros t\<rparr>),
      o_trace_id = (\<lambda>e. (''trace'', e)), o_traceparent = (\<lambda>e. (None, e)),
      o_float_text = show_int, o_numeric_18_2 = two_decimals, o_orm_sync = True,
      o_policy_to_json = (\<lambda>p. method_value (lp_rail p)), o_policy_of_json = (\<lambda>t. None),
      o_interfere = (\<lambda>d e. (d, e)),
      o_get = (\<lambda>k e. up (mm_strings e k, e) e),
      o_set = (\<lambda>k v ttl e. up ((), e\<lparr>mm_strings := (mm_strings e)(k \<mapsto> v)\<rparr>) e),
      o_set_nx = (\<lambda>k v ttl e. up (if mm_strings e k = None
          then (True, e\<lparr>mm_strings := (mm_strings e)(k \<mapsto> v)\<rparr>) else (False, e)) e),
      o_incr = (\<lambda>k e. up (mem_count k e + 1,
          e\<lparr>mm_strings := (mm_strings e)(k \<mapsto> show_int (mem_count k e + 1))\<rparr>) e),
      o_expire = (\<lambda>k ttl e. up ((), e) e),
      o_lpush = (\<lambda>k v e. up ((), e\<lparr>mm_lists := (mm_lists e)(k := v # mm_lists e k)\<rparr>) e),
      o_ltrim = (\<lambda>k i j e. up ((), e\<lparr>mm_lists := (mm_lists e)(k := mem_slice i j (mm_lists e k))\<rparr>) e),
      o_lrange = (\<lambda>k i j e. up (mem_slice i j (mm_lists e k), e) e),
      o_zremrangebyscore = (\<lambda>k lo hi e. up ((), e\<lparr>mm_zsets := (mm_zsets e)(k :=
          filter (\<lambda>(m, s). s < lo \<or> hi < s) (mm_zsets e k))\<rparr>) e),
      o_zcard = (\<lambda>k e. up (int (length (mm_zsets e k)), e) e),
      o_zadd = (\<lambda>k m s e. up ((), e\<lparr>mm_zsets := (mm_zsets e)(k := zset_add m s (mm_zsets e k))\<rparr>) e),
      o_http_post = (\<lambda>url rq e. let e' = e\<lparr>mm_calls := mm_calls e @ [rq]\<rparr> in
          (case mm_replies e of
             [] \<Rightarrow> (Inl (HttpxTimeoutException ''no reply''), e')
           | r # rs \<Rightarrow> (r, e'\<lparr>mm_replies := rs\<rparr>))),
      o_publish = (\<lambda>ev e. (Inr (), e\<lparr>mm_published := mm_published e @ [ev]\<rparr>))\<rparr>"

lemma memory_outside_simps [simp]:
  "o_now memory_outside e = (mm_now e, e)" "o_db_now memory_outside e = (mm_now e, e)"
  "o_get memory_outside k e = up (mm_strings e k, e) e"
  "o_set memory_outside k v ttl e = up ((), e\<lparr>mm_strings := (mm_strings e)(k \<mapsto> v)\<rparr>) e"
  "o_set_nx memory_outside k v ttl e = up (if mm_strings e k = None
      then (True, e\<lparr>mm_strings := (mm_strings e)(k \<mapsto> v)\<rparr>) else (False, e)) e"
  "o_incr memory_outside k e = up (mem_count k e + 1,
      e\<lparr>mm_strings := (mm_strings e)(k \<mapsto> show_int (mem_count k e + 1))\<rparr>) e"
  "o_expire memory_outside k ttl e = up ((), e) e"
  "o_lpush memory_outside k v e = up ((), e\<lparr>mm_lists := (mm_lists e)(k := v # mm_lists e k)\<rparr>) e"
  "o_ltrim memory_outside k i j e =
     up ((), e\<lparr>mm_lists := (mm_lists e)(k := mem_slice i j (mm_lists e k))\<rparr>) e"
  "o_lrange memory_outside k i j e = up (mem_slice i j (mm_lists e k), e) e"
  "o_interfere memory_outside d e = (d, e)"
  by (simp_all add: memory_outside_def)

definition mem_live :: "memory \<Rightarrow> bool" where
  "mem_live e \<longleftrightarrow> \<not> mm_redis_down e"

lemma up_live: "mem_live e \<Longrightarrow> up r e = (Inr (fst r), snd r)"
  by (simp add: up_def mem_live_def)

section \<open>The contracts of the services\<close>

definition mem_in_window :: "int \<Rightarrow> int \<Rightarrow> memory \<Rightarrow> bool" where
  "mem_in_window width bucket e \<longleftrightarrow> mem_live e \<and> mm_now e div (width * second) = bucket"

interpretation mem_window: window_counter memory_outside "mem_in_window width bucket" mem_count
  for width bucket
proof unfold_locales
  fix e k r e'
  assume "mem_in_window width bucket e" and "o_incr memory_outside k e = (r, e')"
  then show "r = Inr (mem_count k e + 1) \<and> mem_in_window width bucket e' \<and>
      (\<forall>j. mem_count j e' = (if j = k then mem_count k e + 1 else mem_count j e))"
    by (auto simp: mem_in_window_def up_live mem_count_def) (auto simp: mem_live_def)
next
  fix e k ttl q e'
  assume "mem_in_window width bucket e" and "o_expire memory_outside k ttl e = (q, e')"
  then show "q = Inr () \<and> mem_in_window width bucket e' \<and> (\<forall>j. mem_count j e' = mem_count j e)"
    by (auto simp: mem_in_window_def up_live)
qed

interpretation mem_lock: lock_store memory_outside mem_live "\<lambda>e k. mm_strings e k \<noteq> None"
proof unfold_locales
  fix e k v ttl r e'
  assume "mem_live e" and "o_set_nx memory_outside k v ttl e = (r, e')"
  then show "r = Inr (\<not> mm_strings e k \<noteq> None) \<and> mem_live e' \<and>
      (\<lambda>j. mm_strings e' j \<noteq> None) = (\<lambda>j. mm_strings e j \<noteq> None)(k := True)"
    by (auto simp: up_live fun_eq_iff split: if_splits) (auto simp: mem_live_def)
qed

interpretation mem_history: history_store memory_outside mem_live "\<lambda>k e. mm_lists e k"
  by unfold_locales (auto simp: up_live mem_slice_def, (simp_all add: mem_live_def)?)

definition mem_on_day :: "string \<Rightarrow> memory \<Rightarrow> bool" where
  "mem_on_day today e \<longleftrightarrow> mem_live e \<and> date_text (mm_now e) = today"

interpretation mem_daily: daily_store memory_outside "mem_on_day today" today "\<lambda>k e. mm_strings e k"
  for today
  by unfold_locales (auto simp: mem_on_day_def up_live, (simp_all add: mem_live_def)?)

section \<open>No interference, and a log of the provider calls\<close>

lemma memory_well_behaved: "well_behaved memory_outside"
  by (simp add: well_behaved_def)

lemma memory_calls_logged: "calls_logged (\<lambda>e. set (mm_calls e)) memory_outside"
proof -
  have "preserves (\<lambda>e. set (mm_calls e)) (\<lambda>e. up (f e) e)"
    if "\<And>e. mm_calls (snd (f e)) = mm_calls e" for f :: "memory \<Rightarrow> 'a \<times> memory"
    using that by (simp add: preserves_def up_def)
  then show ?thesis
    using memory_well_behaved
    by (auto simp: calls_logged_def lawful_def preserves_def memory_outside_def up_def Let_def
        split: list.splits)
qed

end
