(* ===== verification/Scenario.thy ===== *)
theory Scenario
  imports CreateSafety MemoryOutside
begin

text \<open>
  Concrete tables, a concrete outside and concrete requests, on which the witnesses evaluate the
  model: the seeded customers and limits, one payment in review with its idempotency record, and
  the outside of \<open>MemoryOutside\<close>.
\<close>

definition idle_memory :: memory where
  "idle_memory = \<lparr>mm_now = 5000000, mm_fresh = 0, mm_redis_down = False, mm_strings = Map.empty,
     mm_lists = (\<lambda>_. []), mm_zsets = (\<lambda>_. []), mm_replies = [], mm_calls = [], mm_published = []\<rparr>"

definition review_payment :: payment_row where
  "review_payment =
     \<lparr>p_payment_id = ''pay-1'', p_merchant_id = ''m1'', p_customer_id = ''customer-full-001'',
      p_account_id = ''a1'', p_amount = Dec 1000 (- 2), p_currency = ''BRL'', p_method = PIX,
      p_destination = Some ''d1'', p_status = IN_REVIEW, p_idempotency_key = ''k1'',
      p_risk_score = Some 55, p_risk_decision = Some RISK_REVIEW, p_aml_decision = Some AML_ALLOW,
      p_metadata = None, p_last_error = None, p_created_at = 1000000, p_updated_at = 1000000,
      p_version = 1\<rparr>"

definition review_response :: payment_accepted_response where
  "review_response = \<lparr>ac_payment_id = ''pay-1'', ac_status = IN_REVIEW, ac_trace_id = ''t'',
     ac_risk_decision = Some RISK_REVIEW, ac_aml_decision = Some AML_ALLOW\<rparr>"

definition review_snapshot :: idempotency_row where
  "review_snapshot = \<lparr>ir_merchant_id = ''m1'', ir_idempotency_key = ''k1'', ir_payment_id = ''pay-1'',
     ir_status_code = 202, ir_response_payload = dump_accepted review_response, ir_created_at = 1000000\<rparr>"

definition review_event :: outbox_row where
  "review_event = \<lparr>ob_event_id = ''ev-1'', ob_aggregate_id = ''pay-1'',
     ob_event_type = PAYMENT_REVIEW_REQUIRED,
     ob_payload = payment_review_required_payload ''pay-1'' ''m1'' ''risk_or_aml_review'',
     ob_status = OB_PENDING, ob_created_at = 1000000, ob_attempts = 0, ob_next_attempt_at = 1000000\<rparr>"

definition review_tables :: database where
  "review_tables = \<lparr>db_customers = seed_customers 0, db_limits = seed_limits_policies,
     db_payments = [review_payment], db_outbox = [review_event], db_idempotency = [review_snapshot]\<rparr>"

definition review_world :: "memory world" where
  "review_world = \<lparr>w_out = idle_memory, w_db = review_tables, w_pending = [], w_telemetry = [],
     w_correlation = []\<rparr>"

definition example_use_case :: create_payment_use_case where
  "example_use_case =
     \<lparr>uc_idempotency = \<lparr>is_ttl_seconds = 300\<rparr>,
      uc_rate_limiter = \<lparr>rl_merchant_limit = 120, rl_customer_limit = 80, rl_account_limit = 80,
                         rl_window_seconds = 60\<rparr>,
      uc_limits_cache_ttl = 60,
      uc_risk = \<lparr>ri_review_threshold = 50, ri_block_threshold = 80\<rparr>,
      uc_aml = \<lparr>ae_blocklist_destinations = [''dest-blocked-001'', ''dest-blocked-002''],
                ae_total_window_seconds = 600, ae_total_threshold_amount = Dec 50000 (- 1),
                ae_structuring_window_seconds = 900, ae_structuring_count_threshold = 3\<rparr>,
      uc_supported_currencies = [''BRL'', ''USD'']\<rparr>"

definition example_request :: create_payment_request where
  "example_request = \<lparr>rq_amount = Dec 1000 (- 2), rq_currency = ''brl'', rq_method = PIX,
     rq_destination = Some ''d1'', rq_metadata = None\<rparr>"

definition example_headers :: "string \<rightharpoonup> string" where
  "example_headers = create_headers example_request '' k1'' ''m1 '' ''customer-full-001'' ''a1''"

lemma review_consistent: "consistent (w_db review_world)"
  by (simp add: review_world_def review_tables_def consistent_def constraints_ok_def coherent_def
      seed_customers_def seed_customer_def seed_limits_policies_def seed_policy_def
      review_payment_def review_event_def has_event_def accepted_event_def review_snapshot_def review_response_def payment_scope_def
      idempotency_scope_def blocked_by_controls_def del: validate_dump_accepted)
     (simp add: validate_dump_accepted)

lemma example_scope:
  "require_header example_headers ''X-Merchant-Id'' = Inr ''m1''"
  "require_header example_headers ''Idempotency-Key'' = Inr ''k1''"
  by code_simp+

text \<open>The request is answered from its record.\<close>

lemma example_replay:
  "fst (create_execute memory_outside example_use_case example_request example_headers review_world) =
     Inr review_response"
  by code_simp

end
