(* ===== verification/Alone.thy ===== *)
theory Alone
  imports Scenario
begin

text \<open>
  Runs with no other session.  \<open>alone env\<close>: nothing is committed between two statements, so a
  statement sees the tables as the handler left them.  The lemmas run the sessions of a review
  and of the worker step by step; \<open>Concurrency\<close> is dealt with in \<open>Guarantee\<close>.
\<close>

definition alone :: "'e outside \<Rightarrow> bool" where
  "alone env \<longleftrightarrow> (\<forall>d e. o_interfere env d e = (d, e))"

lemma alone_memory: "alone memory_outside"
  by (simp add: alone_def)

lemma alone_well_behaved: "alone env \<Longrightarrow> well_behaved env"
  by (simp add: alone_def well_behaved_def)

named_theorems alone_runs "runs of statements with no other session"

lemma alone_interfere [alone_runs]: "alone env \<Longrightarrow> interfere env w = (Inr (), w)"
  by (simp add: alone_def interfere_def)

lemma alone_select [alone_runs]: "alone env \<Longrightarrow> db_select env q w = (Inr (q (db_view w)), w)"
  by (simp add: db_select_def bindM_def alone_interfere)

lemma alone_commit [alone_runs]:
  "alone env \<Longrightarrow> db_commit env w =
     (if constraints_ok (db_view w) then (Inr (), w\<lparr>w_db := db_view w, w_pending := []\<rparr>) else (Inl IntegrityError, w))"
  by (simp add: db_commit_def bindM_def alone_interfere)

lemma alone_update_payments [alone_runs]:
  "alone env \<Longrightarrow> db_update_payments env p f w =
     (Inr (length (filter p (db_payments (db_view w)))), w\<lparr>w_pending := w_pending w @ [update_payments p f]\<rparr>)"
  by (simp add: db_update_payments_def bindM_def alone_select db_write_def)

lemma alone_update_outbox [alone_runs]:
  "alone env \<Longrightarrow> db_update_outbox env p f w = (Inr (), w\<lparr>w_pending := w_pending w @ [update_outbox p f]\<rparr>)"
  by (simp add: db_update_outbox_def bindM_def alone_interfere db_write_def)

lemma db_view_writes [simp]:
  "db_view (w\<lparr>w_pending := w_pending w @ [f]\<rparr>) = f (db_view w)"
  "db_view (w\<lparr>w_out := e\<rparr>) = db_view w" "db_view (w\<lparr>w_telemetry := t\<rparr>) = db_view w"
  "w_pending w = [] \<Longrightarrow> db_view w = w_db w"
  by (simp_all add: db_view_def)

lemma payment_lookup:
  assumes "constraints_ok d"
  obtains "payments_by_id pid d = []"
  | p where "payments_by_id pid d = [p]" and "p \<in> set (db_payments d)" and "p_payment_id p = pid"
proof -
  have "distinct (map p_payment_id (db_payments d))" using assms by (simp add: constraints_ok_def)
  then show thesis
    using that by (rule filter_key_cases [of _ _ pid]) (auto simp: payments_by_id_def)
qed

section \<open>Reviews\<close>

definition reviewed :: "payment_status \<Rightarrow> string option \<Rightarrow> moment \<Rightarrow> payment_row \<Rightarrow> payment_row" where
  "reviewed status err now p = p\<lparr>p_status := status, p_last_error := err, p_updated_at := now\<rparr>"

lemma load_review_alone:
  assumes "alone env" and "constraints_ok (db_view w)"
  shows "load_review_payment_or_raise env pid w =
    (case payments_by_id pid (db_view w) of
       [] \<Rightarrow> (Inl (ValidationAppError ''Payment not found''), w)
     | p # _ \<Rightarrow> if p_status p \<noteq> IN_REVIEW then (Inl (ValidationAppError ''Payment is not in review''), w)
                else (Inr p, w))"
  by (rule payment_lookup [OF assms(2), of pid])
     (simp_all add: load_review_payment_or_raise_def get_by_payment_id_def bindM_def alone_select [OF assms(1)])

lemma constraints_reviewed:
  "constraints_ok d \<Longrightarrow> constraints_ok (update_payments (\<lambda>p. p_payment_id p = pid) (reviewed st err now) d)"
  by (rule constraints_update_payments) (simp_all add: reviewed_def payment_scope_def)

lemma update_status_alone:
  assumes "alone env"
  shows "\<exists>now e n. update_status env pid st err w =
    (Inr n, w\<lparr>w_out := e, w_pending := w_pending w @ [update_payments (\<lambda>p. p_payment_id p = pid) (reviewed st err now)]\<rparr>)"
  by (simp add: update_status_def bindM_def outside_def alone_update_payments [OF assms] reviewed_def [abs_def]
      split: prod.splits) (metis surj_pair)

lemma after_review_alone:
  assumes "alone env"
  shows "\<exists>r e t. bindM (record_review_queue_size env) (\<lambda>_. build_review_response env pid st p) w =
      (Inr r, w\<lparr>w_telemetry := t, w_out := e\<rparr>) \<and> ac_payment_id r = pid \<and> ac_status r = st \<and>
      ac_risk_decision r = p_risk_decision p \<and> ac_aml_decision r = p_aml_decision p"
  by (auto simp: record_review_queue_size_def build_review_response_def build_payment_response_def
      count_in_review_def bindM_def outside_def alone_select [OF assms] split: prod.splits)

definition can_review :: "uuid \<Rightarrow> database \<Rightarrow> bool" where
  "can_review pid d \<longleftrightarrow> (case payments_by_id pid d of [] \<Rightarrow> False | p # _ \<Rightarrow> p_status p = IN_REVIEW)"

text \<open>A session that reviews a payment: what it does after the payment has been loaded.\<close>

lemma review_session:
  assumes env: "alone env" and c: "constraints_ok (w_db w)"
  shows "if can_review pid (w_db w)
    then \<exists>p. payments_by_id pid (w_db w) = [p] \<and> p_status p = IN_REVIEW \<and>
      in_session (bindM (load_review_payment_or_raise env pid) rest) w = in_session (rest p) w
    else \<exists>m. in_session (bindM (load_review_payment_or_raise env pid) rest) w =
      (Inl (ValidationAppError m), w\<lparr>w_pending := []\<rparr>)"
proof -
  let ?w = "w\<lparr>w_pending := []\<rparr>"
  have v: "db_view ?w = w_db w" by simp
  note load = load_review_alone [OF env, of ?w pid, unfolded v, OF c]
  show ?thesis
    by (rule payment_lookup [OF c, of pid])
       (auto simp: can_review_def in_session_def bindM_def load)
qed

text \<open>From the staged writes on: the commit, then the gauge and the answer.\<close>

lemma review_tail:
  fixes u :: "('e, 'm) world_scheme"
  assumes env: "alone env"
  shows "if constraints_ok (db_view u)
    then \<exists>r u'. bindM (db_commit env) (\<lambda>_. bindM (record_review_queue_size env)
          (\<lambda>_. build_review_response env pid st p)) u = (Inr r, u') \<and> w_db u' = db_view u \<and>
        ac_payment_id r = pid \<and> ac_status r = st \<and>
        ac_risk_decision r = p_risk_decision p \<and> ac_aml_decision r = p_aml_decision p
    else bindM (db_commit env) (\<lambda>_. bindM (record_review_queue_size env)
          (\<lambda>_. build_review_response env pid st p)) u = (Inl IntegrityError, u)"
proof -
  let ?v = "u\<lparr>w_db := db_view u, w_pending := []\<rparr>"
  obtain r e t where after: "bindM (record_review_queue_size env) (\<lambda>_. build_review_response env pid st p) ?v =
      (Inr r, ?v\<lparr>w_telemetry := t, w_out := e\<rparr>)"
    and r: "ac_payment_id r = pid" "ac_status r = st" "ac_risk_decision r = p_risk_decision p"
      "ac_aml_decision r = p_aml_decision p"
    using after_review_alone [OF env, of pid st p ?v] by blast
  have commit: "bindM (db_commit env) f u =
      (if constraints_ok (db_view u) then f () ?v else (Inl IntegrityError, u))" for f :: "unit \<Rightarrow> ('e, 'm, 'b) act"
    by (simp add: bindM_def alone_commit [OF env])
  show ?thesis unfolding commit after using r by simp
qed

lemma reject_alone:
  fixes w :: "('e, 'm) world_scheme"
  assumes env: "alone env" and c: "constraints_ok (w_db w)"
  shows "if can_review pid (w_db w)
    then \<exists>a w' now. reject_execute env pid w = (Inr a, w') \<and> ac_payment_id a = pid \<and> ac_status a = BLOCKED \<and>
      w_db w' = update_payments (\<lambda>p. p_payment_id p = pid)
        (reviewed BLOCKED (Some ''manual_review_rejected'') now) (w_db w)
    else \<exists>m w'. reject_execute env pid w = (Inl (ValidationAppError m), w') \<and> w_db w' = w_db w"
proof (cases "can_review pid (w_db w)")
  case True
  let ?rest = "\<lambda>payment. bindM (update_status env pid BLOCKED (Some (failure_reason_value MANUAL_REVIEW_REJECTED)))
      (\<lambda>_. bindM (db_commit env) (\<lambda>_. bindM (record_review_queue_size env)
      (\<lambda>_. build_review_response env pid BLOCKED payment)))"
  let ?w = "w\<lparr>w_pending := []\<rparr>"
  from review_session [OF env c, of pid ?rest] True obtain p where
    run: "reject_execute env pid w = in_session (?rest p) w" unfolding reject_execute_def by auto
  obtain now e n where u: "update_status env pid BLOCKED (Some (failure_reason_value MANUAL_REVIEW_REJECTED)) ?w =
      (Inr n, ?w\<lparr>w_out := e, w_pending := [update_payments (\<lambda>p. p_payment_id p = pid)
        (reviewed BLOCKED (Some ''manual_review_rejected'') now)]\<rparr>)" (is "_ = (_, ?u)")
    using update_status_alone [OF env, of pid BLOCKED _ ?w] by fastforce
  have u': "bindM (update_status env pid BLOCKED (Some (failure_reason_value MANUAL_REVIEW_REJECTED))) f ?w = f n ?u"
    for f :: "bool \<Rightarrow> ('e, 'm, 'b) act" using u by (simp add: bindM_def)
  have v: "db_view ?u = update_payments (\<lambda>p. p_payment_id p = pid)
      (reviewed BLOCKED (Some ''manual_review_rejected'') now) (w_db w)" by (simp add: db_view_def)
  then have "constraints_ok (db_view ?u)" by (simp only: constraints_reviewed [OF c])
  with review_tail [OF env, of ?u pid BLOCKED p] obtain r u' where
    tail: "bindM (db_commit env) (\<lambda>_. bindM (record_review_queue_size env)
      (\<lambda>_. build_review_response env pid BLOCKED p)) ?u = (Inr r, u')"
    and r: "w_db u' = db_view ?u" "ac_payment_id r = pid" "ac_status r = BLOCKED" by auto
  have "reject_execute env pid w = (Inr r, u'\<lparr>w_pending := []\<rparr>)"
    unfolding run in_session_def u' tail by simp
  then show ?thesis using True r v by fastforce
next
  case False
  then show ?thesis
    using review_session [OF env c, of pid] unfolding reject_execute_def by fastforce
qed

text \<open>What an approval stages before its commit: the new status and a pending event of its own.\<close>

lemma approval_staged:
  fixes w :: "('e, 'm) world_scheme" and rest :: "unit \<Rightarrow> ('e, 'm, 'a) act"
  assumes env: "alone env" and idle: "w_pending w = []"
  shows "\<exists>now ev e. bindM (update_status env pid RECEIVED None) (\<lambda>_. bindM (enqueue_payment_requested env pid m) rest) w =
      rest () (w\<lparr>w_out := e, w_pending := [update_payments (\<lambda>p. p_payment_id p = pid) (reviewed RECEIVED None now),
        insert_event ev]\<rparr>) \<and>
    ob_event_type ev = PAYMENT_REQUESTED \<and> ob_aggregate_id ev = pid \<and> ob_status ev = OB_PENDING \<and> ob_attempts ev = 0"
proof -
  obtain now e n where u: "update_status env pid RECEIVED None w =
      (Inr n, w\<lparr>w_out := e, w_pending := [update_payments (\<lambda>p. p_payment_id p = pid)
        (reviewed RECEIVED None now)]\<rparr>)" (is "_ = (_, ?u)")
    using update_status_alone [OF env, of pid RECEIVED _ w] idle by fastforce
  obtain x y where t: "o_trace_id env (w_out ?u) = (x, y)" by (metis prod.exhaust)
  obtain tp z where tt: "o_traceparent env y = (tp, z)" by (metis prod.exhaust)
  obtain ev e2 where "add_event env pid PAYMENT_REQUESTED (payment_requested_payload pid m x tp) (?u\<lparr>w_out := z\<rparr>) =
      (Inr (), ?u\<lparr>w_out := e2, w_pending := w_pending ?u @ [insert_event ev]\<rparr>)"
    and ev: "ob_event_type ev = PAYMENT_REQUESTED" "ob_aggregate_id ev = pid" "ob_status ev = OB_PENDING" "ob_attempts ev = 0"
    using add_event_run [of env pid PAYMENT_REQUESTED "payment_requested_payload pid m x tp" "?u\<lparr>w_out := z\<rparr>"] by auto
  then have "bindM (update_status env pid RECEIVED None) (\<lambda>_. bindM (enqueue_payment_requested env pid m) rest) w =
      rest () (w\<lparr>w_out := e2, w_pending := [update_payments (\<lambda>p. p_payment_id p = pid) (reviewed RECEIVED None now),
        insert_event ev]\<rparr>)"
    using u t tt by (simp add: enqueue_payment_requested_def bindM_def outside_def)
  then show ?thesis using ev by blast
qed

lemma approve_alone:
  fixes w :: "('e, 'm) world_scheme"
  assumes env: "alone env" and c: "constraints_ok (w_db w)"
  shows "if can_review pid (w_db w)
    then \<exists>r w' now ev. approve_execute env pid w = (r, w') \<and>
      ob_aggregate_id ev = pid \<and> ob_event_type ev = PAYMENT_REQUESTED \<and> ob_status ev = OB_PENDING \<and>
      ob_attempts ev = 0 \<and>
      (if ob_event_id ev \<in> ob_event_id ` set (db_outbox (w_db w))
       then r = Inl IntegrityError \<and> w_db w' = w_db w
       else (\<exists>a. r = Inr a \<and> ac_payment_id a = pid \<and> ac_status a = RECEIVED) \<and>
         w_db w' = insert_event ev (update_payments (\<lambda>p. p_payment_id p = pid) (reviewed RECEIVED None now) (w_db w)))
    else \<exists>m w'. approve_execute env pid w = (Inl (ValidationAppError m), w') \<and> w_db w' = w_db w"
  (is "if _ then \<exists>r w' now ev. ?P r w' now ev else _")
proof (cases "can_review pid (w_db w)")
  case True
  let ?tail = "\<lambda>payment. bindM (db_commit env) (\<lambda>_. bindM (record_review_queue_size env)
      (\<lambda>_. build_review_response env pid RECEIVED payment))"
  let ?rest = "\<lambda>payment. bindM (update_status env pid RECEIVED None) (\<lambda>_.
      bindM (enqueue_payment_requested env pid (p_merchant_id payment)) (\<lambda>_. ?tail payment))"
  from review_session [OF env c, of pid ?rest] True obtain p where
    run: "approve_execute env pid w = in_session (?rest p) w" unfolding approve_execute_def by auto
  obtain now ev e where staged: "?rest p (w\<lparr>w_pending := []\<rparr>) = ?tail p (w\<lparr>w_out := e,
      w_pending := [update_payments (\<lambda>p. p_payment_id p = pid) (reviewed RECEIVED None now), insert_event ev]\<rparr>)"
    and ev: "ob_event_type ev = PAYMENT_REQUESTED" "ob_aggregate_id ev = pid" "ob_status ev = OB_PENDING" "ob_attempts ev = 0"
    using approval_staged [OF env, of "w\<lparr>w_pending := []\<rparr>" pid "p_merchant_id p" "\<lambda>_. ?tail p"] by auto
  let ?v = "w\<lparr>w_out := e, w_pending := [update_payments (\<lambda>p. p_payment_id p = pid) (reviewed RECEIVED None now), insert_event ev]\<rparr>"
  let ?d = "update_payments (\<lambda>p. p_payment_id p = pid) (reviewed RECEIVED None now) (w_db w)"
  have v: "db_view ?v = insert_event ev ?d" by (simp add: db_view_def)
  have ok: "constraints_ok (db_view ?v) \<longleftrightarrow> ob_event_id ev \<notin> ob_event_id ` set (db_outbox (w_db w))"
    using constraints_reviewed [OF c, of pid RECEIVED None now] unfolding v by (auto simp: constraints_ok_def)
  from review_tail [OF env, of ?v pid RECEIVED p] obtain r u' where tail: "?tail p ?v = (r, u')"
    and r: "if constraints_ok (db_view ?v)
      then (\<exists>a. r = Inr a \<and> ac_payment_id a = pid \<and> ac_status a = RECEIVED) \<and> w_db u' = db_view ?v
      else r = Inl IntegrityError \<and> w_db u' = w_db w" by (auto split: if_splits)
  have "approve_execute env pid w = (r, u'\<lparr>w_pending := []\<rparr>)" unfolding run in_session_def staged tail by simp
  then have "?P r (u'\<lparr>w_pending := []\<rparr>) now ev" using ev r [unfolded ok, unfolded v] by (simp split: if_splits)
  then show ?thesis unfolding if_P [OF True] by blast
next
  case False
  then show ?thesis
    using review_session [OF env c, of pid] unfolding approve_execute_def by fastforce
qed

end
