(* ===== verification/QuietRuns.thy ===== *)
theory QuietRuns
  imports Api Processor
begin

text \<open>
  A predicate of the state that looks neither at the outside nor at the telemetry, and that the
  other sessions keep, is kept by every part of a handler that only reads.  The invariants of
  single sessions and of the columns both rest on these rules.
\<close>

section \<open>The API\<close>

lemma keeps_correlation [keeps_intros]: "quiet P \<Longrightarrow> keeps P (update_correlation_context vs)"
  by (auto simp: keeps_def update_correlation_context_def quietD)

lemma keeps_services [keeps_intros]:
  assumes "keeps P (interfere env)" and "quiet P"
  shows "keeps P (limits_enforce env ttl cid rail amount)" "keeps P (rate_enforce env rl m c a)"
    "keeps P (risk_evaluate env svc customer amount policy n dest)"
    "keeps P (aml_evaluate env ae cid rail amount dest policy)"
    "keeps P (record_outgoing env ae cid rail amount)" "keeps P (acquire env is m k)"
    "keeps P (count_in_review env)" "keeps P (get_customer_by_id env cid)"
    "keeps P (get_snapshot env m k)" "keeps P (get_by_merchant_and_idempotency env m k)"
  unfolding limits_defs rate_enforce_def rate_allow_def risk_evaluate_def aml_evaluate_def
    total_outgoing_recent_def near_threshold_count_def read_history_entries_def record_outgoing_def
    acquire_def api_repository_defs
  by (intro keeps_intros assms)+

lemma keeps_timed [keeps_intros]: "quiet P \<Longrightarrow> keeps P m \<Longrightarrow> keeps P (timed_span env metric attrs m)"
  unfolding timed_span_def Let_def by (intro keeps_intros)

lemma keeps_use_case [keeps_intros]:
  assumes "keeps P (interfere env)" and "quiet P"
  shows "keeps P (try_return_replayed_response env rx)" "keeps P (build_payment_response env pid st rd ad)"
    "keeps P (load_customer_or_raise env cid)" "keeps P (run_pre_checks env uc rx request customer)"
    "keeps P (evaluate_controls env uc customer request ev cid)" "keeps P (build_response_payload env decision)"
    "keeps P (update_decision_correlation_fields decision)"
    "keeps P (after_commit_observability env uc rx request response decision)"
    "keeps P (build_request_context uc headers request)"
  unfolding try_return_replayed_response_def build_payment_response_def load_customer_or_raise_def
    run_pre_checks_def enforce_kyc_def enforce_limits_def enforce_rate_limit_def evaluate_controls_def evaluate_risk_def evaluate_aml_def
    build_response_payload_def update_decision_correlation_fields_def after_commit_observability_def
    build_request_context_def
  by (intro keeps_intros assms)+

lemma keeps_replays [keeps_intros]:
  assumes "keeps P (interfere env)" and "quiet P"
  shows "keeps P (resolve_replayed_after_conflict env rx)" "keeps P (resolve_pending_idempotent_request env rx)"
proof -
  show "keeps P (resolve_replayed_after_conflict env rx)"
    unfolding resolve_replayed_after_conflict_def build_response_from_existing_payment_def
    by (intro keeps_intros assms)
  have "keeps P (poll_pending env rx n)" for n
    by (induction n; unfold poll_pending.simps build_response_from_existing_payment_def)
      (intro keeps_intros assms; assumption)+
  then show "keeps P (resolve_pending_idempotent_request env rx)"
    by (simp add: resolve_pending_idempotent_request_def)
qed

section \<open>The processor\<close>

lemma keeps_retry:
  assumes "quiet P" and op: "keeps P op"
  shows "keeps P (retry_loop env op sr n b attempts le)"
proof (induction attempts arbitrary: le)
  case Nil
  show ?case by (simp, intro keeps_intros)
next
  case (Cons a as)
  show ?case unfolding retry_loop.simps exponential_backoff_def
    by (intro keeps_intros assms Cons.IH)
qed

text \<open>The provider call changes, besides the outside, only the breakers and the bulkhead.\<close>

lemma keeps_provider_execute:
  fixes P :: "('e, 'm) proc_world_scheme \<Rightarrow> bool"
  assumes q: "quiet P" and breaker: "\<And>w b. P w \<Longrightarrow> P (w\<lparr>pw_breakers := b\<rparr>)"
    and bulk: "\<And>w b. P w \<Longrightarrow> P (w\<lparr>pw_bulkhead := b\<rparr>)"
  shows "keeps P (provider_execute env p)"
proof -
  have "keeps P (set_breaker name cb)" "keeps P (modify (\<lambda>w. w\<lparr>pw_bulkhead := f w\<rparr>))" for name cb f
    using breaker bulk by (auto simp: keeps_def set_breaker_def)
  then show ?thesis
    unfolding provider_execute_def retry_async_def call_once_def adapter_confirm_def allow_call_def
      on_success_def on_failure_def get_breaker_def clock_if_def for_method_def with_bulkhead_def Let_def
    by (intro keeps_intros keeps_retry q)
qed

end
