(* ===== verification/Settlement.thy ===== *)
theory Settlement
  imports Alone QuietRuns
begin

text \<open>
  What the worker makes of one event when no other session interferes: the payment's row, the
  event's row and the event it adds, as a function of the outcome of the provider call.
\<close>

section \<open>Runs that stage writes\<close>

text \<open>\<open>stage d V w\<close>: the committed tables are \<open>d\<close>, and the session sees tables that satisfy \<open>V\<close>.\<close>

definition stage :: "database \<Rightarrow> (database \<Rightarrow> bool) \<Rightarrow> ('e, 'm) world_scheme \<Rightarrow> bool" where
  "stage d V w \<longleftrightarrow> w_db w = d \<and> V (db_view w)"

lemma stage_weaken: "stage d V w \<Longrightarrow> (\<And>x. V x \<Longrightarrow> W x) \<Longrightarrow> stage d W w"
  by (simp add: stage_def)

lemma quiet_stage [keeps_intros]: "quiet (stage d V)"
  by (auto simp: quiet_def stage_def db_view_def)

lemma keeps_alone [keeps_intros]: "alone env \<Longrightarrow> keeps P (interfere env)"
  by (simp add: keeps_def alone_interfere)

lemma db_view_append [simp]: "db_view (w\<lparr>w_out := e, w_pending := w_pending w @ [f]\<rparr>) = f (db_view w)"
  by (simp add: db_view_def)

text \<open>A step that stages a write.\<close>

definition writes :: "(('e, 'm) world_scheme, exn, 'a) prog \<Rightarrow> ((database \<Rightarrow> database) \<Rightarrow> bool) \<Rightarrow> bool" where
  "writes m F \<longleftrightarrow> (\<forall>w. \<exists>a e f t. F f \<and>
     m w = (Inr a, w\<lparr>w_out := e, w_telemetry := t, w_pending := w_pending w @ [f]\<rparr>))"

lemma writes_stage:
  assumes "writes m F"
  shows "triple (stage d V) m (\<lambda>_. stage d (\<lambda>x. \<exists>y f. V y \<and> F f \<and> x = f y)) (\<lambda>_ _. False)"
  unfolding triple_def
proof (intro allI impI)
  fix w :: "('a, 'b) world_scheme" assume w: "stage d V w"
  from assms obtain a e f t where m: "F f"
    "m w = (Inr a, w\<lparr>w_out := e, w_telemetry := t, w_pending := w_pending w @ [f]\<rparr>)"
    unfolding writes_def by blast
  then have "stage d (\<lambda>x. \<exists>y f. V y \<and> F f \<and> x = f y) (w\<lparr>w_out := e, w_telemetry := t, w_pending := w_pending w @ [f]\<rparr>)"
    using w by (auto simp: stage_def db_view_def)
  then show "case m w of (Inr a, t) \<Rightarrow> stage d (\<lambda>x. \<exists>y f. V y \<and> F f \<and> x = f y) t | (Inl x, t) \<Rightarrow> False"
    using m(2) by simp
qed

text \<open>
  The writes of the worker: \<open>pays pid st err\<close> sets status and error of the payment \<open>pid\<close>,
  \<open>marks eid\<close> changes the delivery state of the event \<open>eid\<close>, \<open>tells pid t\<close> adds an event.
\<close>

definition pays :: "uuid \<Rightarrow> payment_status \<Rightarrow> string option \<Rightarrow> (database \<Rightarrow> database) \<Rightarrow> bool" where
  "pays pid st err f \<longleftrightarrow> (\<exists>g. f = update_payments (\<lambda>p. p_payment_id p = pid) g \<and>
     (\<forall>p. p_core (g p) = p_core p \<and> p_status (g p) = st \<and> p_last_error (g p) = err))"

definition marks :: "uuid \<Rightarrow> outbox_status option \<Rightarrow> int option \<Rightarrow> (database \<Rightarrow> database) \<Rightarrow> bool" where
  "marks eid st n f \<longleftrightarrow> (\<exists>g. f = update_outbox (\<lambda>e. ob_event_id e = eid) g \<and>
     (\<forall>e. ob_core (g e) = ob_core e \<and>
        ob_status (g e) = (case st of None \<Rightarrow> ob_status e | Some s \<Rightarrow> s) \<and>
        ob_attempts (g e) = (case n of None \<Rightarrow> ob_attempts e | Some k \<Rightarrow> k)))"

definition tells :: "uuid \<Rightarrow> event_type \<Rightarrow> (database \<Rightarrow> database) \<Rightarrow> bool" where
  "tells pid t f \<longleftrightarrow> (\<exists>e. f = insert_event e \<and> ob_event_type e = t \<and> ob_aggregate_id e = pid \<and>
     ob_status e = OB_PENDING \<and> ob_attempts e = 0)"

lemma writesI:
  "(\<And>w. \<exists>a e f t. F f \<and> m w = (Inr a, w\<lparr>w_out := e, w_telemetry := t, w_pending := w_pending w @ [f]\<rparr>)) \<Longrightarrow> writes m F"
  by (simp add: writes_def)

lemma writes_update_payments:
  fixes m :: "('e, 'm, 'a) act"
  assumes "alone env" and m: "m = bindM (outside (o_db_now env)) (\<lambda>now.
      bindM (db_update_payments env (\<lambda>p. p_payment_id p = pid) (g now)) (\<lambda>n. ret (c n)))"
    and "\<And>now p. p_core (g now p) = p_core p \<and> p_status (g now p) = st \<and> p_last_error (g now p) = err"
  shows "writes m (pays pid st err)"
proof (rule writesI)
  fix w :: "('e, 'm) world_scheme"
  obtain now e where t: "o_db_now env (w_out w) = (now, e)" by (metis prod.exhaust)
  have "m w = (Inr (c (length (filter (\<lambda>p. p_payment_id p = pid) (db_payments (db_view w))))),
      w\<lparr>w_out := e, w_telemetry := w_telemetry w,
        w_pending := w_pending w @ [update_payments (\<lambda>p. p_payment_id p = pid) (g now)]\<rparr>)"
    using t by (simp add: m bindM_def outside_def alone_update_payments [OF assms(1)])
  moreover have "pays pid st err (update_payments (\<lambda>p. p_payment_id p = pid) (g now))"
    using assms(3) by (auto simp: pays_def)
  ultimately show "\<exists>a e f t. pays pid st err f \<and>
      m w = (Inr a, w\<lparr>w_out := e, w_telemetry := t, w_pending := w_pending w @ [f]\<rparr>)" by blast
qed

lemma payment_writes:
  assumes "alone env"
  shows "writes (mark_confirmed env p) (pays (p_payment_id p) CONFIRMED None)"
    "writes (mark_payment_failed env p reason) (pays (p_payment_id p) FAILED (Some reason))"
    "writes (update_status env pid st err) (pays pid st err)"
  unfolding mark_confirmed_def mark_payment_failed_def update_status_def
  by (rule writes_update_payments [OF assms refl], simp add: p_core_def)+

lemma writes_update_outbox:
  fixes env :: "'e outside"
  assumes "alone env"
    and "\<And>e. ob_core (g e) = ob_core e \<and> ob_status (g e) = (case st of None \<Rightarrow> ob_status e | Some s \<Rightarrow> s) \<and>
        ob_attempts (g e) = (case n of None \<Rightarrow> ob_attempts e | Some k \<Rightarrow> k)"
  shows "writes (db_update_outbox env (\<lambda>e. ob_event_id e = eid) g :: ('e, 'm, unit) act) (marks eid st n)"
proof (rule writesI)
  fix w :: "('e, 'm) world_scheme"
  have "db_update_outbox env (\<lambda>e. ob_event_id e = eid) g w = (Inr (), w\<lparr>w_out := w_out w,
      w_telemetry := w_telemetry w, w_pending := w_pending w @ [update_outbox (\<lambda>e. ob_event_id e = eid) g]\<rparr>)"
    using alone_update_outbox [OF assms(1), of "\<lambda>e. ob_event_id e = eid" g w] by simp
  moreover have "marks eid st n (update_outbox (\<lambda>e. ob_event_id e = eid) g)"
    using assms(2) by (auto simp: marks_def)
  ultimately show "\<exists>a e f t. marks eid st n f \<and> db_update_outbox env (\<lambda>e. ob_event_id e = eid) g w =
      (Inr a, w\<lparr>w_out := e, w_telemetry := t, w_pending := w_pending w @ [f]\<rparr>)" by blast
qed

text \<open>A look outside before a write.\<close>

lemma writes_outside:
  fixes m :: "'x \<Rightarrow> ('e, 'm, 'a) act"
  assumes "\<And>x. writes (m x) F"
  shows "writes (bindM (outside f) m) F"
proof (rule writesI)
  fix w :: "('e, 'm) world_scheme"
  obtain x e where o: "f (w_out w) = (x, e)" by (metis prod.exhaust)
  from assms [of x] obtain a e' f' t where "F f'" "m x (w\<lparr>w_out := e\<rparr>) =
      (Inr a, w\<lparr>w_out := e\<rparr>\<lparr>w_out := e', w_telemetry := t, w_pending := w_pending (w\<lparr>w_out := e\<rparr>) @ [f']\<rparr>)"
    unfolding writes_def by blast
  then show "\<exists>a e f' t. F f' \<and> bindM (outside f) m w =
      (Inr a, w\<lparr>w_out := e, w_telemetry := t, w_pending := w_pending w @ [f']\<rparr>)"
    using o by (auto simp: bindM_def outside_def)
qed

lemma outbox_writes:
  assumes "alone env"
  shows "writes (mark_sent env eid) (marks eid (Some OB_SENT) None)"
    "writes (mark_event_failed env eid n) (marks eid (Some OB_FAILED) (Some n))"
    "writes (reschedule env eid n delay) (marks eid None (Some n))"
  unfolding mark_sent_def mark_event_failed_def reschedule_def
  by (intro writes_outside writes_update_outbox [OF assms]; simp add: ob_core_def)+

lemma event_writes:
  fixes env :: "'e outside"
  shows "writes (emit_event env pid t payload :: ('e, 'm, unit) act) (tells pid t)"
proof (rule writesI)
  fix w :: "('e, 'm) world_scheme"
  from add_event_run [of env pid t payload w] obtain e x where
    "add_event env pid t payload w = (Inr (), w\<lparr>w_out := x, w_pending := w_pending w @ [insert_event e]\<rparr>)"
    and "tells pid t (insert_event e)" by (auto simp: tells_def)
  then show "\<exists>a x f u. tells pid t f \<and>
      emit_event env pid t payload w = (Inr a, w\<lparr>w_out := x, w_telemetry := u, w_pending := w_pending w @ [f]\<rparr>)"
    unfolding emit_event_add
    by (intro exI [of _ "()"] exI [of _ x] exI [of _ "insert_event e"] exI [of _ "w_telemetry w"]) simp
qed

section \<open>The provider call stages nothing\<close>

lemma stage_provider_execute: "keeps (stage d V) (provider_execute env p)"
  by (rule keeps_provider_execute [OF quiet_stage]) (auto simp: stage_def db_view_def)

section \<open>The outcome of an event\<close>

text \<open>
  The status and error the payment gets, the events added for it, and the delivery state and
  attempts of the event processed, as a function of the outcome of the provider call.
\<close>

datatype settlement =
  Settle (st_status: payment_status) (st_error: "string option") (st_events: "event_type list")
    (st_delivery: outbox_status) (st_attempts: int)

definition settlement ::
  "int \<Rightarrow> int \<Rightarrow> string option \<Rightarrow> exn + provider_response \<Rightarrow> settlement" where
  "settlement max_attempts attempts err outcome =
     (case outcome of
        Inr response \<Rightarrow>
          if rs_confirmed response \<and> \<not> rs_partial_failure response
          then Settle CONFIRMED None [PAYMENT_CONFIRMED] OB_SENT attempts
          else Settle FAILED (Some ''Partial failure'') [PAYMENT_FAILED] OB_SENT attempts
      | Inl x \<Rightarrow>
          (case as_processor_error x of
             None \<Rightarrow> Settle FAILED (Some ''Unexpected processor failure'') [PAYMENT_FAILED] OB_FAILED (attempts + 1)
           | Some (category, message) \<Rightarrow>
               if max_attempts \<le> attempts + 1
               then Settle FAILED (Some message) [PAYMENT_FAILED] OB_FAILED (attempts + 1)
               else Settle PROCESSING err [] OB_PENDING (attempts + 1)))"

text \<open>The tables with the rows of an event and of its payment settled.\<close>

definition settled :: "payment_row \<Rightarrow> outbox_row \<Rightarrow> settlement \<Rightarrow> database \<Rightarrow> database \<Rightarrow> bool" where
  "settled p event s d x \<longleftrightarrow> (\<exists>p' e' evs.
     x = d\<lparr>db_payments := map (\<lambda>q. if p_payment_id q = p_payment_id p then p' else q) (db_payments d),
            db_outbox := map (\<lambda>e. if ob_event_id e = ob_event_id event then e' else e) (db_outbox d) @ evs\<rparr> \<and>
     p_core p' = p_core p \<and> p_status p' = st_status s \<and> p_last_error p' = st_error s \<and>
     ob_core e' = ob_core event \<and> ob_status e' = st_delivery s \<and> ob_attempts e' = st_attempts s \<and>
     map (\<lambda>e. (ob_event_type e, ob_aggregate_id e, ob_status e, ob_attempts e)) evs =
       map (\<lambda>t. (t, p_payment_id p, OB_PENDING, 0)) (st_events s))"

text \<open>What is staged, provided it can be committed.\<close>

definition staging :: "payment_row \<Rightarrow> outbox_row \<Rightarrow> settlement \<Rightarrow> database \<Rightarrow> database \<Rightarrow> bool" where
  "staging p event s d x \<longleftrightarrow> (constraints_ok x \<longrightarrow> settled p event s d x)"

lemma map_unique_id:
  assumes "distinct (map f xs)" and "x \<in> set xs"
  shows "map (\<lambda>y. if f y = f x then x else y) xs = xs"
  using assms by (intro map_idI) (auto simp: distinct_map dest: inj_onD)

lemma staging_start:
  assumes "constraints_ok d" and "p \<in> set (db_payments d)" and "event \<in> set (db_outbox d)"
  shows "staging p event (Settle (p_status p) (p_last_error p) [] (ob_status event) (ob_attempts event)) d d"
proof -
  have "map (\<lambda>q. if p_payment_id q = p_payment_id p then p else q) (db_payments d) = db_payments d"
    "map (\<lambda>e. if ob_event_id e = ob_event_id event then event else e) (db_outbox d) = db_outbox d"
    using assms by (auto intro!: map_unique_id simp: constraints_ok_def)
  then show ?thesis unfolding staging_def settled_def
    by (intro impI exI [of _ p] exI [of _ event] exI [of _ "[]"]) simp
qed

text \<open>The constraints look at the tables only through the keys.\<close>

lemma constraints_by_keys:
  "constraints_ok d \<longleftrightarrow>
     distinct (map cu_customer_id (db_customers d)) \<and> distinct (map lr_rail (db_limits d)) \<and>
     distinct (map p_payment_id (db_payments d)) \<and> distinct (map payment_scope (db_payments d)) \<and>
     distinct (map ob_event_id (db_outbox d)) \<and> distinct (map idempotency_scope (db_idempotency d)) \<and>
     set (map p_customer_id (db_payments d)) \<subseteq> set (map cu_customer_id (db_customers d))"
  by (auto simp: constraints_ok_def)

lemma constraints_cong:
  assumes "db_customers x = db_customers y" and "db_limits x = db_limits y"
    and "map p_payment_id (db_payments x) = map p_payment_id (db_payments y)"
    and "map payment_scope (db_payments x) = map payment_scope (db_payments y)"
    and "map p_customer_id (db_payments x) = map p_customer_id (db_payments y)"
    and "map ob_event_id (db_outbox x) = map ob_event_id (db_outbox y)"
    and "db_idempotency x = db_idempotency y"
  shows "constraints_ok x = constraints_ok y"
  unfolding constraints_by_keys assms ..

lemma pays_constraints:
  assumes "pays pid st err f"
  shows "constraints_ok (f x) = constraints_ok x"
proof -
  from assms obtain g where f: "f = update_payments (\<lambda>p. p_payment_id p = pid) g"
    and g: "\<And>p. p_core (g p) = p_core p" by (auto simp: pays_def)
  show ?thesis unfolding f
    by (rule constraints_cong) (simp_all add: p_core_eqD [OF g])
qed

lemma marks_constraints:
  assumes "marks eid st n f"
  shows "constraints_ok (f x) = constraints_ok x"
proof -
  from assms obtain g where f: "f = update_outbox (\<lambda>e. ob_event_id e = eid) g"
    and g: "\<And>e. ob_core (g e) = ob_core e" by (auto simp: marks_def)
  show ?thesis unfolding f
    by (rule constraints_cong) (simp_all add: ob_core_eqD [OF g])
qed

lemma staging_pays:
  assumes "pays (p_payment_id p) st err f" and "staging p event s d x"
  shows "staging p event (Settle st err (st_events s) (st_delivery s) (st_attempts s)) d (f x)"
  unfolding staging_def
proof
  assume "constraints_ok (f x)"
  then have "settled p event s d x" using assms pays_constraints [OF assms(1)] by (simp add: staging_def)
  then obtain p' e' evs where x: "x = d\<lparr>db_payments := map (\<lambda>q. if p_payment_id q = p_payment_id p then p' else q) (db_payments d),
            db_outbox := map (\<lambda>e. if ob_event_id e = ob_event_id event then e' else e) (db_outbox d) @ evs\<rparr>"
    and p': "p_core p' = p_core p" and e': "ob_core e' = ob_core event" "ob_status e' = st_delivery s" "ob_attempts e' = st_attempts s"
    and evs: "map (\<lambda>e. (ob_event_type e, ob_aggregate_id e, ob_status e, ob_attempts e)) evs =
       map (\<lambda>t. (t, p_payment_id p, OB_PENDING, 0)) (st_events s)" by (auto simp: settled_def)
  from assms(1) obtain g where f: "f = update_payments (\<lambda>q. p_payment_id q = p_payment_id p) g"
    and g: "\<And>q. p_core (g q) = p_core q \<and> p_status (g q) = st \<and> p_last_error (g q) = err" by (auto simp: pays_def)
  have id: "p_payment_id p' = p_payment_id p" using p_core_eqD(1) [OF p'] .
  have "f x = d\<lparr>db_payments := map (\<lambda>q. if p_payment_id q = p_payment_id p then g p' else q) (db_payments d),
      db_outbox := map (\<lambda>e. if ob_event_id e = ob_event_id event then e' else e) (db_outbox d) @ evs\<rparr>"
    by (simp add: x f update_payments_def id)
  then show "settled p event (Settle st err (st_events s) (st_delivery s) (st_attempts s)) d (f x)"
    unfolding settled_def using g [of p'] p' e' evs
    by (intro exI [of _ "g p'"] exI [of _ e'] exI [of _ evs]) simp
qed

lemma staging_tells:
  assumes "tells (p_payment_id p) t f" and "staging p event s d x"
  shows "staging p event (Settle (st_status s) (st_error s) (st_events s @ [t]) (st_delivery s) (st_attempts s)) d (f x)"
  unfolding staging_def
proof
  from assms(1) obtain n where f: "f = insert_event n" and n: "ob_event_type n = t"
    "ob_aggregate_id n = p_payment_id p" "ob_status n = OB_PENDING" "ob_attempts n = 0" by (auto simp: tells_def)
  assume "constraints_ok (f x)"
  then have "constraints_ok x" by (auto simp: f constraints_ok_def)
  then have "settled p event s d x" using assms(2) by (simp add: staging_def)
  then show "settled p event (Settle (st_status s) (st_error s) (st_events s @ [t]) (st_delivery s) (st_attempts s)) d (f x)"
    unfolding settled_def
  proof (elim exE conjE, goal_cases)
    case (1 p' e' evs)
    then show ?case using n
      by (intro exI [of _ p'] exI [of _ e'] exI [of _ "evs @ [n]"]) (simp add: f insert_event_def)
  qed
qed

lemma staging_marks:
  assumes "marks (ob_event_id event) st n f" and "staging p event s d x" and "event \<in> set (db_outbox d)"
  shows "staging p event (Settle (st_status s) (st_error s) (st_events s)
     (case st of None \<Rightarrow> st_delivery s | Some y \<Rightarrow> y) (case n of None \<Rightarrow> st_attempts s | Some k \<Rightarrow> k)) d (f x)"
  unfolding staging_def
proof
  from assms(1) obtain h where f: "f = update_outbox (\<lambda>e. ob_event_id e = ob_event_id event) h"
    and h: "\<And>e. ob_core (h e) = ob_core e \<and> ob_status (h e) = (case st of None \<Rightarrow> ob_status e | Some y \<Rightarrow> y) \<and>
        ob_attempts (h e) = (case n of None \<Rightarrow> ob_attempts e | Some k \<Rightarrow> k)" by (auto simp: marks_def)
  assume "constraints_ok (f x)"
  then have cx: "constraints_ok x" using marks_constraints [OF assms(1)] by simp
  then have "settled p event s d x" using assms(2) by (simp add: staging_def)
  then show "settled p event (Settle (st_status s) (st_error s) (st_events s)
     (case st of None \<Rightarrow> st_delivery s | Some y \<Rightarrow> y) (case n of None \<Rightarrow> st_attempts s | Some k \<Rightarrow> k)) d (f x)"
    unfolding settled_def
  proof (elim exE conjE, goal_cases)
    case (1 p' e' evs)
    have id: "ob_event_id e' = ob_event_id event" using ob_core_eqD(1) 1 by blast
    have "ob_event_id event \<in> set (map ob_event_id (map (\<lambda>e. if ob_event_id e = ob_event_id event then e' else e) (db_outbox d)))"
      using assms(3) id by (force simp: image_iff)
    moreover have "distinct (map ob_event_id (db_outbox x))" using cx by (simp add: constraints_ok_def)
    ultimately have "ob_event_id event \<notin> ob_event_id ` set evs" using 1(1) by auto
    then have "map (\<lambda>e. if ob_event_id e = ob_event_id event then h e else e) evs = evs"
      by (intro map_idI) (auto simp: image_iff)
    then have "f x = d\<lparr>db_payments := map (\<lambda>q. if p_payment_id q = p_payment_id p then p' else q) (db_payments d),
        db_outbox := map (\<lambda>e. if ob_event_id e = ob_event_id event then h e' else e) (db_outbox d) @ evs\<rparr>"
      by (simp add: 1(1) f update_outbox_def id)
    then show ?case using 1 h [of e']
      by (intro exI [of _ p'] exI [of _ "h e'"] exI [of _ evs]) (auto split: option.splits)
  qed
qed

section \<open>Processing an event\<close>

text \<open>The steps of the worker, from one stage of the settlement to the next.\<close>

abbreviation at_stage ::
  "payment_row \<Rightarrow> outbox_row \<Rightarrow> database \<Rightarrow> settlement \<Rightarrow> ('e, 'm) world_scheme \<Rightarrow> bool" where
  "at_stage p event d s \<equiv> stage d (staging p event s d)"

lemma stage_step:
  assumes "writes m F" and "\<And>x f. F f \<Longrightarrow> V x \<Longrightarrow> W (f x)"
  shows "triple (stage d V) m (\<lambda>_. stage d W) (\<lambda>_ _. False)"
  using assms(2) by (intro triple_weaken [OF writes_stage [OF assms(1)]]) (auto elim!: stage_weaken)

lemma stage_steps:
  assumes env: "alone env" and e: "event \<in> set (db_outbox d)" and q: "p_core q = p_core p"
  shows "triple (at_stage p event d (Settle a b c s n)) (mark_confirmed env q)
      (\<lambda>_. at_stage p event d (Settle CONFIRMED None c s n)) (\<lambda>_ _. False)"
    "triple (at_stage p event d (Settle a b c s n)) (mark_payment_failed env q reason)
      (\<lambda>_. at_stage p event d (Settle FAILED (Some reason) c s n)) (\<lambda>_ _. False)"
    "triple (at_stage p event d (Settle a b c s n)) (emit_event env (p_payment_id q) t payload)
      (\<lambda>_. at_stage p event d (Settle a b (c @ [t]) s n)) (\<lambda>_ _. False)"
    "triple (at_stage p event d (Settle a b c s n)) (mark_sent env (ob_event_id event))
      (\<lambda>_. at_stage p event d (Settle a b c OB_SENT n)) (\<lambda>_ _. False)"
    "triple (at_stage p event d (Settle a b c s n)) (mark_event_failed env (ob_event_id event) k)
      (\<lambda>_. at_stage p event d (Settle a b c OB_FAILED k)) (\<lambda>_ _. False)"
    "triple (at_stage p event d (Settle a b c s n)) (reschedule env (ob_event_id event) k delay)
      (\<lambda>_. at_stage p event d (Settle a b c s k)) (\<lambda>_ _. False)"
proof -
  have id: "p_payment_id q = p_payment_id p" using p_core_eqD(1) [OF q] .
  show "triple (at_stage p event d (Settle a b c s n)) (mark_confirmed env q)
      (\<lambda>_. at_stage p event d (Settle CONFIRMED None c s n)) (\<lambda>_ _. False)"
    "triple (at_stage p event d (Settle a b c s n)) (mark_payment_failed env q reason)
      (\<lambda>_. at_stage p event d (Settle FAILED (Some reason) c s n)) (\<lambda>_ _. False)"
    by (rule stage_step [OF payment_writes(1) [OF env]] stage_step [OF payment_writes(2) [OF env]],
        unfold id, drule (1) staging_pays, simp)+
  show "triple (at_stage p event d (Settle a b c s n)) (emit_event env (p_payment_id q) t payload)
      (\<lambda>_. at_stage p event d (Settle a b (c @ [t]) s n)) (\<lambda>_ _. False)"
    by (rule stage_step [OF event_writes], unfold id, drule (1) staging_tells, simp)
  show "triple (at_stage p event d (Settle a b c s n)) (mark_sent env (ob_event_id event))
      (\<lambda>_. at_stage p event d (Settle a b c OB_SENT n)) (\<lambda>_ _. False)"
    "triple (at_stage p event d (Settle a b c s n)) (mark_event_failed env (ob_event_id event) k)
      (\<lambda>_. at_stage p event d (Settle a b c OB_FAILED k)) (\<lambda>_ _. False)"
    "triple (at_stage p event d (Settle a b c s n)) (reschedule env (ob_event_id event) k delay)
      (\<lambda>_. at_stage p event d (Settle a b c s k)) (\<lambda>_ _. False)"
    by (rule stage_step [OF outbox_writes(1) [OF env]] stage_step [OF outbox_writes(2) [OF env]]
          stage_step [OF outbox_writes(3) [OF env]],
        drule (1) staging_marks [OF _ _ e], simp)+
qed

lemma stage_quiet_steps:
  "triple (stage d V) (outside f) (\<lambda>_. stage d V) (\<lambda>_ _. False)"
  "triple (stage d V) (emit t) (\<lambda>_. stage d V) (\<lambda>_ _. False)"
  by (auto simp: triple_def outside_def stage_def db_view_def split: prod.splits)

lemma for_method_ret: "\<exists>strategy. for_method rail = ret strategy"
  by (cases rail)
     (auto simp: for_method_def provider_confirm_path_for_method_def fun_eq_iff)

lemma triple_for_method:
  fixes f :: "provider_strategy \<Rightarrow> ('s, exn, 'b) prog"
  assumes "\<And>s. triple P (f s) Q X"
  shows "triple P (bindM (for_method rail) f) Q X"
proof -
  obtain strategy where "for_method rail = (ret strategy :: ('s, exn, provider_strategy) prog)"
    using for_method_ret by blast
  then show ?thesis using assms by simp
qed

text \<open>What \<open>process_payment_event\<close> does with the outcome of the provider call, before the commit.\<close>

definition settle_outcome ::
  "'e outside \<Rightarrow> worker_settings \<Rightarrow> outbox_row \<Rightarrow> payment_row \<Rightarrow> exn + provider_response \<Rightarrow> ('e, 'm, unit) act"
where
  "settle_outcome env ws event q outcome =
     (case outcome of
        Inr response \<Rightarrow> bindM
          (if rs_confirmed response \<and> \<not> rs_partial_failure response
           then finalize_confirm env q (rs_provider response) (rs_provider_reference response)
           else finalize_fail env q (rs_provider response)
                  (failure_reason_value PROVIDER_PARTIAL_FAILURE) ''Partial failure'') (\<lambda>_.
          mark_sent env (ob_event_id event))
      | Inl x \<Rightarrow> (case as_processor_error x of
           Some (category, message) \<Rightarrow> handle_processor_error env ws event q category message
         | None \<Rightarrow> bindM (emit (LogLine ''unexpected_processor_error''
                   [(''payment_id'', PStr (p_payment_id q)), (''error_type'', PStr (exception_name x))])) (\<lambda>_.
               bindM (finalize_fail env q (provider_name_value PROVIDER_UNKNOWN)
                   (failure_reason_value UNEXPECTED) ''Unexpected processor failure'') (\<lambda>_.
               mark_event_failed env (ob_event_id event) (ob_attempts event + 1)))))"

lemma process_by_outcome:
  assumes "provider_execute env q v = (outcome, v')" and "settle_outcome env ws event q outcome v' = (Inr z, u)"
  shows "process_payment_event env ws event q v = db_commit env u"
  using assms unfolding process_payment_event_def settle_outcome_def
  by (cases outcome) (simp_all add: bindM_apply catch_apply split: option.splits prod.splits)

text \<open>The two ways of finalizing.\<close>

lemma finalize_stages:
  assumes "alone env" and "event \<in> set (db_outbox d)" and "p_core q = p_core p"
  shows "triple (at_stage p event d (Settle a b [] s n)) (finalize_confirm env q provider reference)
      (\<lambda>_. at_stage p event d (Settle CONFIRMED None [PAYMENT_CONFIRMED] s n)) (\<lambda>_ _. False)"
    and "triple (at_stage p event d (Settle a b [] s n)) (finalize_fail env q provider category reason)
      (\<lambda>_. at_stage p event d (Settle FAILED (Some reason) [PAYMENT_FAILED] s n)) (\<lambda>_ _. False)"
proof -
  note steps = stage_steps [OF assms]
  show "triple (at_stage p event d (Settle a b [] s n)) (finalize_confirm env q provider reference)
      (\<lambda>_. at_stage p event d (Settle CONFIRMED None [PAYMENT_CONFIRMED] s n)) (\<lambda>_ _. False)"
    unfolding finalize_confirm_def
    by (rule triple_bindM [OF steps(1)], rule triple_weaken [OF steps(3)]) auto
  show "triple (at_stage p event d (Settle a b [] s n)) (finalize_fail env q provider category reason)
      (\<lambda>_. at_stage p event d (Settle FAILED (Some reason) [PAYMENT_FAILED] s n)) (\<lambda>_ _. False)"
    unfolding finalize_fail_def
    by (rule triple_bindM [OF steps(2)], rule triple_weaken [OF steps(3)]) auto
qed

text \<open>A failure of the provider: the payment fails when the attempts are used up, otherwise the event is due later.\<close>

lemma settles_error:
  assumes env: "alone env" and e: "event \<in> set (db_outbox d)" and q: "p_core q = p_core p"
  shows "triple (at_stage p event d (Settle PROCESSING err [] OB_PENDING (ob_attempts event)))
    (handle_processor_error env ws event q category message)
    (\<lambda>_. at_stage p event d
       (if ws_max_event_attempts ws \<le> ob_attempts event + 1
        then Settle FAILED (Some message) [PAYMENT_FAILED] OB_FAILED (ob_attempts event + 1)
        else Settle PROCESSING err [] OB_PENDING (ob_attempts event + 1))) (\<lambda>_ _. False)"
proof -
  note steps = stage_steps [OF env e q] and fail = finalize_stages(2) [OF env e q]
  have delay: "triple (at_stage p event d s) (exponential_backoff env n (1 / 2) 5 (1 / 4))
      (\<lambda>_. at_stage p event d s) (\<lambda>_ _. False)" for s n
    unfolding exponential_backoff_def by (rule triple_bindM [OF stage_quiet_steps(1)], rule triple_ret)
  show ?thesis unfolding handle_processor_error_def Let_def
    by (rule triple_for_method, cases "ws_max_event_attempts ws \<le> ob_attempts event + 1";
        simp only: if_True if_False triple_bindM [OF fail steps(5)] triple_bindM [OF delay steps(6)])
qed

text \<open>The outcome is settled.\<close>

lemma settles:
  assumes env: "alone env" and e: "event \<in> set (db_outbox d)" and q: "p_core q = p_core p"
  shows "triple (at_stage p event d (Settle PROCESSING err [] OB_PENDING (ob_attempts event)))
     (settle_outcome env ws event q outcome)
     (\<lambda>_. at_stage p event d (settlement (ws_max_event_attempts ws) (ob_attempts event) err outcome))
     (\<lambda>_ _. False)"
proof -
  note steps = stage_steps [OF env e q] and final = finalize_stages [OF env e q]
  show ?thesis
  proof (cases outcome)
    case (Inr response)
    show ?thesis
      unfolding settle_outcome_def Inr sum.case settlement_def
      by (cases "rs_confirmed response \<and> \<not> rs_partial_failure response";
          simp only: if_True if_False simp_thms triple_bindM [OF final(1) steps(4)] triple_bindM [OF final(2) steps(4)])
  next
    case (Inl x)
    show ?thesis
    proof (cases "as_processor_error x")
      case None
      show ?thesis unfolding settle_outcome_def Inl sum.case settlement_def None option.case
        by (intro triple_bindM [OF stage_quiet_steps(2)] triple_bindM [OF final(2)] steps(5))
    next
      case (Some y)
      obtain category message where y: "y = (category, message)" by (cases y)
      show ?thesis unfolding settle_outcome_def Inl sum.case settlement_def Some option.case y prod.case
        by (rule settles_error [OF env e q])
    qed
  qed
qed

text \<open>The commit: all of the settlement or nothing.\<close>

lemma settles_commit:
  assumes "alone env" and "at_stage p event d s w"
  shows "\<exists>r w'. db_commit env w = (r, w') \<and>
    (if r = Inr () then settled p event s d (w_db w') \<and> constraints_ok (w_db w') \<and> w_pending w' = []
     else r = Inl IntegrityError \<and> w_db w' = d)"
  using assms(2) by (simp add: alone_commit [OF assms(1)] stage_def staging_def)

lemma loaded_stage:
  fixes w :: "('e, 'm) world_scheme"
  assumes env: "alone env" and c: "constraints_ok (w_db w)" and idle: "w_pending w = []"
    and e: "event \<in> set (db_outbox (w_db w))" "ob_status event = OB_PENDING"
    and p: "payments_by_id (ob_aggregate_id event) (w_db w) = [p]"
  shows "\<exists>v. get_by_id env (ob_aggregate_id event) w = (Inr (Some p), w) \<and>
    mark_processing_execute env p w = (Inr True, v) \<and>
    at_stage p event (w_db w) (Settle PROCESSING (p_last_error p) [] OB_PENDING (ob_attempts event)) v"
proof -
  have mem: "p \<in> set (payments_by_id (ob_aggregate_id event) (w_db w))" using p by simp
  then have pin: "p \<in> set (db_payments (w_db w))" by (simp add: payments_by_id_def)
  have view: "db_view w = w_db w" using idle by simp
  have get: "get_by_id env (ob_aggregate_id event) w = (Inr (Some p), w)"
    using p by (simp add: get_by_id_def bindM_def alone_select [OF env] view)
  obtain now x where t: "o_db_now env (w_out w) = (now, x)" by (metis prod.exhaust)
  let ?c = "\<lambda>q. p_payment_id q = p_payment_id p \<and> p_version q = p_version p"
  let ?g = "\<lambda>q. q\<lparr>p_status := PROCESSING, p_version := p_version p + 1, p_updated_at := now\<rparr>"
  let ?v = "w\<lparr>w_out := x, w_pending := [update_payments ?c ?g]\<rparr>"
  have "filter ?c (db_payments (w_db w)) \<noteq> []" using pin by (auto simp: filter_empty_conv)
  then have mark: "mark_processing_execute env p w = (Inr True, ?v)"
    using t idle view
    by (simp add: mark_processing_execute_def mark_processing_def bindM_def outside_def alone_update_payments [OF env])
  have unique: "q = p" if "q \<in> set (db_payments (w_db w))" "p_payment_id q = p_payment_id p" for q
    using c that pin by (auto simp: constraints_ok_def distinct_map dest: inj_onD)
  have payments: "map (\<lambda>q. if ?c q then ?g q else q) (db_payments (w_db w)) =
      map (\<lambda>q. if p_payment_id q = p_payment_id p then ?g p else q) (db_payments (w_db w))"
    using unique by auto
  have outbox: "map (\<lambda>e. if ob_event_id e = ob_event_id event then event else e) (db_outbox (w_db w)) = db_outbox (w_db w)"
    using c e(1) by (auto intro!: map_unique_id simp: constraints_ok_def)
  have "staging p event (Settle PROCESSING (p_last_error p) [] OB_PENDING (ob_attempts event)) (w_db w) (db_view ?v)"
    unfolding staging_def settled_def
    by (intro impI exI [of _ "?g p"] exI [of _ event] exI [of _ "[]"])
       (simp add: db_view_def update_payments_def payments outbox e(2) p_core_def)
  then show ?thesis using get mark by (intro exI [of _ ?v]) (simp add: stage_def)
qed

lemma synced_core: "p_core (synced_payment env p) = p_core p"
  by (simp add: synced_payment_def p_core_def)

lemma event_settles:
  fixes w :: "('e, 'm) proc_world_scheme"
  assumes env: "alone env" and c: "constraints_ok (w_db w)" and idle: "w_pending w = []"
    and e: "event \<in> set (db_outbox (w_db w))" "ob_status event = OB_PENDING"
    and p: "payments_by_id (ob_aggregate_id event) (w_db w) = [p]"
    and run: "process_event env ws event w = (r, w')"
  shows "\<exists>(v :: ('e, 'm) proc_world_scheme) outcome v'. provider_execute env (synced_payment env p) v = (outcome, v') \<and> w_db v = w_db w \<and>
    (if r = Inr ()
     then settled p event (settlement (ws_max_event_attempts ws) (ob_attempts event) (p_last_error p) outcome)
            (w_db w) (w_db w') \<and> constraints_ok (w_db w') \<and> w_pending w' = []
     else r = Inl IntegrityError \<and> w_db w' = w_db w)"
proof -
  from loaded_stage [OF env c idle e p] obtain v where
    get: "get_by_id env (ob_aggregate_id event) w = (Inr (Some p), w)"
    and mark: "mark_processing_execute env p w = (Inr True, v)"
    and v: "at_stage p event (w_db w) (Settle PROCESSING (p_last_error p) [] OB_PENDING (ob_attempts event)) v" by blast
  obtain outcome v' where call: "provider_execute env (synced_payment env p) v = (outcome, v')" by (metis prod.exhaust)
  have v': "at_stage p event (w_db w) (Settle PROCESSING (p_last_error p) [] OB_PENDING (ob_attempts event)) v'"
    using keepsD [OF stage_provider_execute v call] .
  obtain r' u where h: "settle_outcome env ws event (synced_payment env p) outcome v' = (r', u)" by (metis prod.exhaust)
  note settles = settles [where err = "p_last_error p" and ws = ws and outcome = outcome, OF env e(1) synced_core [of env p]]
  obtain z where z: "r' = Inr z" and u: "at_stage p event (w_db w)
      (settlement (ws_max_event_attempts ws) (ob_attempts event) (p_last_error p) outcome) u"
    using tripleD_Inl [OF settles v'] tripleD_Inr [OF settles v'] h by (cases r') blast+
  have "process_event env ws event w = process_payment_event env ws event (synced_payment env p) v"
    using get mark by (simp add: process_event_def bindM_apply)
  also have "... = db_commit env u" using process_by_outcome [OF call] h z by simp
  finally have "process_event env ws event w = db_commit env u" .
  with settles_commit [OF env u] run have "if r = Inr ()
     then settled p event (settlement (ws_max_event_attempts ws) (ob_attempts event) (p_last_error p) outcome)
            (w_db w) (w_db w') \<and> constraints_ok (w_db w') \<and> w_pending w' = []
     else r = Inl IntegrityError \<and> w_db w' = w_db w" by auto
  moreover have "w_db v = w_db w" using v by (simp add: stage_def)
  ultimately show ?thesis using call by blast
qed

end
