(* ===== verification/Lifecycle.thy ===== *)
theory Lifecycle
  imports Settlement System
begin

text \<open>
  The life of a payment as a state machine, and the system with no concurrent sessions as a
  refinement of it: \<open>moves\<close> are the changes of status the program intends; \<open>lifecycle_ok\<close> says
  that exactly the payments that wait for the provider have a pending request in the outbox, and
  only one.
\<close>

section \<open>The abstract machine\<close>

inductive moves :: "payment_status \<Rightarrow> payment_status \<Rightarrow> bool" where
  release: "moves IN_REVIEW RECEIVED"
| refuse: "moves IN_REVIEW BLOCKED"
| start_processing: "moves RECEIVED PROCESSING"
| confirm: "moves PROCESSING CONFIRMED"
| give_up: "moves PROCESSING FAILED"

inductive_simps moves_from: "moves CONFIRMED s" "moves FAILED s" "moves BLOCKED s" "moves VALIDATED s"

definition final :: "payment_status \<Rightarrow> bool" where
  "final s \<longleftrightarrow> s \<in> {CONFIRMED, FAILED, BLOCKED}"

lemma final_stays: "moves\<^sup>*\<^sup>* s t \<Longrightarrow> final s \<Longrightarrow> t = s"
  by (induction rule: converse_rtranclp_induct) (auto simp: final_def moves_from)

definition in_processing :: "payment_status \<Rightarrow> bool" where
  "in_processing s \<longleftrightarrow> s \<in> {RECEIVED, PROCESSING}"

lemma processing_moves:
  assumes "in_processing s"
  shows "moves\<^sup>*\<^sup>* s PROCESSING" "moves\<^sup>*\<^sup>* s CONFIRMED" "moves\<^sup>*\<^sup>* s FAILED"
proof -
  show p: "moves\<^sup>*\<^sup>* s PROCESSING"
    using assms by (auto simp: in_processing_def intro: r_into_rtranclp moves.intros)
  show "moves\<^sup>*\<^sup>* s CONFIRMED" "moves\<^sup>*\<^sup>* s FAILED"
    using p by (auto intro: rtranclp.rtrancl_into_rtrancl moves.intros)
qed

section \<open>The tables\<close>

definition awaits :: "uuid \<Rightarrow> outbox_row \<Rightarrow> bool" where
  "awaits pid e \<longleftrightarrow> ob_event_type e = PAYMENT_REQUESTED \<and> ob_status e = OB_PENDING \<and> ob_aggregate_id e = pid"

definition lifecycle_ok :: "database \<Rightarrow> bool" where
  "lifecycle_ok d \<longleftrightarrow> constraints_ok d \<and>
     (\<forall>p\<in>set (db_payments d). length (filter (awaits (p_payment_id p)) (db_outbox d)) =
        (if in_processing (p_status p) then 1 else 0)) \<and>
     (\<forall>e\<in>set (db_outbox d). \<forall>pid. awaits pid e \<longrightarrow> pid \<in> p_payment_id ` set (db_payments d))"

definition advances :: "database \<Rightarrow> database \<Rightarrow> bool" where
  "advances d d' \<longleftrightarrow> (\<forall>p\<in>set (db_payments d). \<exists>q\<in>set (db_payments d').
     p_core q = p_core p \<and> moves\<^sup>*\<^sup>* (p_status p) (p_status q))"

lemma advances_refl: "advances d d"
  by (auto simp: advances_def)

lemma advances_trans: "advances d e \<Longrightarrow> advances e f \<Longrightarrow> advances d f"
  unfolding advances_def by (metis (no_types, lifting) rtranclp_trans)

interpretation advancing: preorder_guarantee "\<lambda>w w'. advances (w_db w) (w_db w')"
  by unfold_locales (auto intro: advances_refl advances_trans)

lemma payment_id_unique:
  "constraints_ok d \<Longrightarrow> p \<in> set (db_payments d) \<Longrightarrow> q \<in> set (db_payments d) \<Longrightarrow>
   p_payment_id p = p_payment_id q \<Longrightarrow> p = q"
  by (auto simp: constraints_ok_def distinct_map dest: inj_onD)

lemma event_id_unique:
  "constraints_ok d \<Longrightarrow> e \<in> set (db_outbox d) \<Longrightarrow> f \<in> set (db_outbox d) \<Longrightarrow>
   ob_event_id e = ob_event_id f \<Longrightarrow> e = f"
  by (auto simp: constraints_ok_def distinct_map dest: inj_onD)

text \<open>Replacing one row changes the rows that wait only by that row.\<close>

lemma awaits_replaced:
  assumes "distinct (map ob_event_id es)" and "event \<in> set es"
  shows "int (length (filter P (map (\<lambda>e. if ob_event_id e = ob_event_id event then e' else e) es))) =
    int (length (filter P es)) + (if P e' then 1 else 0) - (if P event then 1 else 0)"
  using assms
proof (induction es)
  case (Cons x xs)
  show ?case
  proof (cases "ob_event_id x = ob_event_id event")
    case True
    then have "ob_event_id event \<notin> ob_event_id ` set xs" using Cons.prems(1) by auto
    then have rest: "map (\<lambda>e. if ob_event_id e = ob_event_id event then e' else e) xs = xs"
      by (intro map_idI) (auto simp: image_iff)
    have "x = event" using True Cons.prems by (auto simp: image_iff)
    then show ?thesis by (simp add: rest)
  next
    case False
    then have "event \<in> set xs" using Cons.prems(2) by auto
    then show ?thesis using Cons.IH Cons.prems(1) False by (auto split: if_split_asm)
  qed
qed simp

section \<open>Processing\<close>

text \<open>Which settlements a processed event can end in.\<close>

lemma settlement_shape:
  "PAYMENT_REQUESTED \<notin> set (st_events (settlement n k err q)) \<and>
   (st_status (settlement n k err q) = CONFIRMED \<and> st_delivery (settlement n k err q) = OB_SENT \<or>
    st_status (settlement n k err q) = FAILED \<and> st_delivery (settlement n k err q) \<in> {OB_SENT, OB_FAILED} \<or>
    st_status (settlement n k err q) = PROCESSING \<and> st_delivery (settlement n k err q) = OB_PENDING)"
  by (auto simp: settlement_def split: sum.split option.split prod.split)

text \<open>
  A change of one payment's row along the moves, with the waiting events of that payment brought in line, keeps the
  lifecycle.
\<close>

lemma row_changed_lifecycle:
  assumes ok: "lifecycle_ok d" and c: "constraints_ok x" and p: "p \<in> set (db_payments d)"
    and x: "db_payments x = map (\<lambda>q. if p_payment_id q = p_payment_id p then g q else q) (db_payments d)"
    and g: "p_core (g p) = p_core p" and m: "moves\<^sup>*\<^sup>* (p_status p) (p_status (g p))"
    and n: "\<And>i. length (filter (awaits i) (db_outbox x)) =
      (if i = p_payment_id p then if in_processing (p_status (g p)) then 1 else 0
       else length (filter (awaits i) (db_outbox d)))"
  shows "lifecycle_ok x \<and> advances d x"
proof -
  have only: "q = p" if "q \<in> set (db_payments d)" "p_payment_id q = p_payment_id p" for q
    using payment_id_unique [OF _ that(1) p that(2)] ok by (simp add: lifecycle_ok_def)
  have id: "p_payment_id (g p) = p_payment_id p" using p_core_eqD(1) [OF g] .
  let ?h = "\<lambda>q. if p_payment_id q = p_payment_id p then g q else q"
  have core: "p_core (?h q) = p_core q" "moves\<^sup>*\<^sup>* (p_status q) (p_status (?h q))" if "q \<in> set (db_payments d)" for q
    using only [OF that] g m by auto
  have "advances d x" unfolding advances_def
  proof
    fix q assume q: "q \<in> set (db_payments d)"
    have "?h q \<in> set (db_payments x)" unfolding x set_map using q by (rule imageI)
    then show "\<exists>r \<in> set (db_payments x). p_core r = p_core q \<and> moves\<^sup>*\<^sup>* (p_status q) (p_status r)"
      using core [OF q] by blast
  qed
  have ids: "p_payment_id ` set (db_payments x) = p_payment_id ` set (db_payments d)"
    unfolding x set_map image_image using p_core_eqD(1) [OF core(1)] by (rule image_cong [OF refl])
  have "length (filter (awaits (p_payment_id r)) (db_outbox x)) = (if in_processing (p_status r) then 1 else 0)"
    if r: "r \<in> set (db_payments x)" for r
  proof -
    obtain q where q: "q \<in> set (db_payments d)" "r = ?h q" using r by (auto simp: x)
    show ?thesis
    proof (cases "p_payment_id q = p_payment_id p")
      case True
      then show ?thesis using only [OF q(1)] q(2) n [of "p_payment_id p"] id by simp
    next
      case False
      then show ?thesis using q n [of "p_payment_id q"] ok by (auto simp: lifecycle_ok_def)
    qed
  qed
  moreover have "i \<in> p_payment_id ` set (db_payments x)" if f: "f \<in> set (db_outbox x)" "awaits i f" for f i
  proof (cases "i = p_payment_id p")
    case False
    have "filter (awaits i) (db_outbox x) \<noteq> []" using f by (auto simp: filter_empty_conv)
    then have "filter (awaits i) (db_outbox d) \<noteq> []" using n [of i] False by auto
    then show ?thesis using ok unfolding ids by (auto simp: lifecycle_ok_def filter_empty_conv)
  qed (use p in \<open>simp add: ids\<close>)
  ultimately show ?thesis using c \<open>advances d x\<close> by (auto simp: lifecycle_ok_def)
qed

lemma settled_lifecycle:
  assumes ok: "lifecycle_ok d" and c: "constraints_ok x" and p: "p \<in> set (db_payments d)"
    and e: "event \<in> set (db_outbox d)" "awaits (p_payment_id p) event"
    and s: "settled p event (settlement n k err q) d x"
  shows "lifecycle_ok x \<and> advances d x"
proof -
  let ?s = "settlement n k err q"
  from s obtain p' e' evs where x: "x = d\<lparr>db_payments := map (\<lambda>q. if p_payment_id q = p_payment_id p then p' else q) (db_payments d),
            db_outbox := map (\<lambda>e. if ob_event_id e = ob_event_id event then e' else e) (db_outbox d) @ evs\<rparr>"
    and p': "p_core p' = p_core p" "p_status p' = st_status ?s"
    and e': "ob_core e' = ob_core event" "ob_status e' = st_delivery ?s"
    and evs: "map (\<lambda>e. (ob_event_type e, ob_aggregate_id e, ob_status e, ob_attempts e)) evs =
       map (\<lambda>t. (t, p_payment_id p, OB_PENDING, 0)) (st_events ?s)" by (auto simp: settled_def)
  have one: "length (filter (awaits (p_payment_id p)) (db_outbox d)) = (if in_processing (p_status p) then 1 else 0)"
    and ids: "distinct (map ob_event_id (db_outbox d))"
    using ok p by (auto simp: lifecycle_ok_def constraints_ok_def)
  have "filter (awaits (p_payment_id p)) (db_outbox d) \<noteq> []" using e by (auto simp: filter_empty_conv)
  then have proc: "in_processing (p_status p)" using one by (auto split: if_splits)
  have "map ob_event_type evs = st_events ?s" using arg_cong [OF evs, of "map fst"] by (simp add: comp_def)
  then have "PAYMENT_REQUESTED \<notin> ob_event_type ` set evs" using settlement_shape [of n k err q] by (metis list.set_map)
  then have quiet: "filter (awaits i) evs = []" for i by (force simp: filter_empty_conv awaits_def)
  have wait: "awaits i e' \<longleftrightarrow> i = p_payment_id p \<and> in_processing (p_status p')"
    and event: "awaits i event \<longleftrightarrow> i = p_payment_id p" for i
    using settlement_shape [of n k err q] ob_core_eqD [OF e'(1)] e(2) e'(2) p'(2) by (auto simp: awaits_def in_processing_def)
  have count: "int (length (filter (awaits i) (db_outbox x))) = int (length (filter (awaits i) (db_outbox d))) +
     (if awaits i e' then 1 else 0) - (if awaits i event then 1 else 0)" for i
    using awaits_replaced [OF ids e(1), of "awaits i" e'] by (simp add: x quiet)
  have "length (filter (awaits i) (db_outbox x)) =
      (if i = p_payment_id p then if in_processing (p_status p') then 1 else 0
       else length (filter (awaits i) (db_outbox d)))" for i
  proof (cases "i = p_payment_id p")
    case True
    have "length (filter (awaits i) (db_outbox d)) = 1" using one proc True by simp
    then show ?thesis using count [of i] True unfolding wait event by (cases "in_processing (p_status p')") simp_all
  next
    case False
    then show ?thesis using count [of i] unfolding wait event by simp
  qed
  moreover have "moves\<^sup>*\<^sup>* (p_status p) (p_status p')" unfolding p'(2)
    using settlement_shape [of n k err q] processing_moves [OF proc] by auto
  ultimately show ?thesis using p'(1) by (intro row_changed_lifecycle [OF ok c p, where g = "\<lambda>_. p'"]) (simp_all add: x)
qed

section \<open>Reviews\<close>

lemma waiting_none:
  assumes "lifecycle_ok d" and "p \<in> set (db_payments d)" and "\<not> in_processing (p_status p)"
  shows "filter (awaits (p_payment_id p)) (db_outbox d) = []"
  using assms by (auto simp: lifecycle_ok_def)

lemma reviewed_lifecycle:
  assumes ok: "lifecycle_ok d" and p: "payments_by_id pid d = [p]" "p_status p = IN_REVIEW"
    and st: "st = RECEIVED \<or> st = BLOCKED"
    and evs: "map (\<lambda>e. (ob_event_type e, ob_aggregate_id e, ob_status e)) evs =
      (if st = RECEIVED then [(PAYMENT_REQUESTED, pid, OB_PENDING)] else [])"
    and x: "x = (update_payments (\<lambda>q. p_payment_id q = pid) (reviewed st err now) d)\<lparr>db_outbox := db_outbox d @ evs\<rparr>"
    and c: "constraints_ok x"
  shows "lifecycle_ok x \<and> advances d x"
proof -
  have "p \<in> set (payments_by_id pid d)" using p by simp
  then have pd: "p \<in> set (db_payments d)" "p_payment_id p = pid" by (auto simp: payments_by_id_def)
  have none: "filter (awaits pid) (db_outbox d) = []"
    using waiting_none [OF ok pd(1)] p(2) pd(2) by (simp add: in_processing_def)
  have new: "filter (awaits i) evs = (if st = RECEIVED \<and> i = pid then evs else [])" for i
    using evs by (cases evs) (auto simp: awaits_def split: if_splits)
  have one: "length evs = (if st = RECEIVED then 1 else 0)" using arg_cong [OF evs, of length] by simp
  let ?g = "reviewed st err now"
  have g: "p_core (?g q) = p_core q" "p_status (?g q) = st" for q by (simp_all add: reviewed_def p_core_def)
  have "length (filter (awaits i) (db_outbox x)) =
      (if i = p_payment_id p then if in_processing (p_status (?g p)) then 1 else 0
       else length (filter (awaits i) (db_outbox d)))" for i
    using st by (auto simp: x g pd(2) none new one in_processing_def)
  moreover have "moves\<^sup>*\<^sup>* (p_status p) (p_status (?g p))"
    using p(2) st r_into_rtranclp [of moves, OF release] r_into_rtranclp [of moves, OF refuse] by (auto simp: g)
  ultimately show ?thesis using g by (intro row_changed_lifecycle [OF ok c pd(1), where g = ?g]) (simp_all add: x pd(2))
qed

lemma can_review_row:
  assumes "constraints_ok d" and "can_review pid d"
  obtains p where "payments_by_id pid d = [p]" and "p_status p = IN_REVIEW"
  using assms by (auto simp: can_review_def elim: payment_lookup [of d pid])

lemma approve_lifecycle:
  fixes w :: "('e, 'm) world_scheme"
  assumes env: "alone env" and ok: "lifecycle_ok (w_db w)"
  shows "lifecycle_ok (w_db (snd (approve_execute env pid w))) \<and> advances (w_db w) (w_db (snd (approve_execute env pid w)))"
proof -
  have c: "constraints_ok (w_db w)" using ok by (simp add: lifecycle_ok_def)
  have same: "lifecycle_ok (w_db w) \<and> advances (w_db w) (w_db w)" using ok advances_refl by blast
  show ?thesis
  proof (cases "can_review pid (w_db w)")
    case False
    then show ?thesis using approve_alone [OF env c, of pid] same by auto
  next
    case True
    then obtain p where p: "payments_by_id pid (w_db w) = [p]" "p_status p = IN_REVIEW" using can_review_row [OF c] by blast
    from approve_alone [OF env c, of pid] True obtain r w' now ev where
      run: "approve_execute env pid w = (r, w')"
      and ev: "ob_aggregate_id ev = pid" "ob_event_type ev = PAYMENT_REQUESTED" "ob_status ev = OB_PENDING"
      and res: "if ob_event_id ev \<in> ob_event_id ` set (db_outbox (w_db w)) then w_db w' = w_db w
        else w_db w' = insert_event ev (update_payments (\<lambda>p. p_payment_id p = pid) (reviewed RECEIVED None now) (w_db w))"
      by (auto split: if_splits)
    show ?thesis
    proof (cases "ob_event_id ev \<in> ob_event_id ` set (db_outbox (w_db w))")
      case True
      then show ?thesis using run res same by simp
    next
      case False
      let ?x = "insert_event ev (update_payments (\<lambda>p. p_payment_id p = pid) (reviewed RECEIVED None now) (w_db w))"
      have "constraints_ok ?x"
        using constraints_reviewed [OF c, of pid RECEIVED None now] False by (auto simp: constraints_ok_def)
      from reviewed_lifecycle [OF ok p _ _ _ this, of RECEIVED "[ev]" None now] ev
      have "lifecycle_ok ?x \<and> advances (w_db w) ?x" by (simp add: insert_event_def)
      then show ?thesis using run res False by simp
    qed
  qed
qed

lemma reject_lifecycle:
  fixes w :: "('e, 'm) world_scheme"
  assumes env: "alone env" and ok: "lifecycle_ok (w_db w)"
  shows "lifecycle_ok (w_db (snd (reject_execute env pid w))) \<and> advances (w_db w) (w_db (snd (reject_execute env pid w)))"
proof -
  have c: "constraints_ok (w_db w)" using ok by (simp add: lifecycle_ok_def)
  show ?thesis
  proof (cases "can_review pid (w_db w)")
    case False
    then show ?thesis using reject_alone [OF env c, of pid] ok advances_refl by auto
  next
    case True
    then obtain p where p: "payments_by_id pid (w_db w) = [p]" "p_status p = IN_REVIEW" using can_review_row [OF c] by blast
    from reject_alone [OF env c, of pid] True obtain a w' now where
      run: "reject_execute env pid w = (Inr a, w')"
      and res: "w_db w' = update_payments (\<lambda>p. p_payment_id p = pid) (reviewed BLOCKED (Some ''manual_review_rejected'') now) (w_db w)"
      by auto
    note c' = constraints_reviewed [OF c, of pid BLOCKED "Some ''manual_review_rejected''" now]
    from reviewed_lifecycle [OF ok p _ _ _ c', of BLOCKED "[]" "Some ''manual_review_rejected''" now]
    show ?thesis using run res by (simp add: update_payments_def)
  qed
qed

lemmas review_runs_lifecycle = approve_lifecycle reject_lifecycle

section \<open>The worker\<close>

text \<open>
  The state between two events of a round: the events still to be processed are in the outbox and
  wait, each for a payment of its own.
\<close>

definition in_round :: "database \<Rightarrow> outbox_row list \<Rightarrow> ('e, 'm) world_scheme \<Rightarrow> bool" where
  "in_round d0 es w \<longleftrightarrow> lifecycle_ok (w_db w) \<and> advances d0 (w_db w) \<and> w_pending w = [] \<and>
     distinct (map ob_event_id es) \<and>
     (\<forall>e\<in>set es. e \<in> set (db_outbox (w_db w)) \<and> awaits (ob_aggregate_id e) e)"

definition lives :: "database \<Rightarrow> ('e, 'm) world_scheme \<Rightarrow> bool" where
  "lives d0 w \<longleftrightarrow> lifecycle_ok (w_db w) \<and> advances d0 (w_db w)"

lemma quiet_lives [keeps_intros]: "quiet (lives d0)"
  by (auto simp: quiet_def lives_def)

lemma event_in_round:
  fixes env :: "'e outside"
  assumes env: "alone env"
  shows "triple (in_round d0 (e # es)) (process_event env ws e :: ('e, 'm, unit) pact)
    (\<lambda>_. in_round d0 es) (\<lambda>_. lives d0)"
  unfolding triple_def
proof (intro allI impI)
  fix w :: "('e, 'm) proc_world_scheme" assume w: "in_round d0 (e # es) w"
  let ?d = "w_db w"
  have ok: "lifecycle_ok ?d" "advances d0 ?d" and idle: "w_pending w = []"
    and e: "e \<in> set (db_outbox ?d)" "awaits (ob_aggregate_id e) e"
    and ids: "distinct (map ob_event_id (e # es))"
    and es: "\<And>f. f \<in> set es \<Longrightarrow> f \<in> set (db_outbox ?d) \<and> awaits (ob_aggregate_id f) f"
    using w by (auto simp: in_round_def)
  have c: "constraints_ok ?d" using ok(1) by (simp add: lifecycle_ok_def)
  have "ob_aggregate_id e \<in> p_payment_id ` set (db_payments ?d)" using ok(1) e by (auto simp: lifecycle_ok_def)
  then obtain p where p: "payments_by_id (ob_aggregate_id e) ?d = [p]" "p \<in> set (db_payments ?d)" "p_payment_id p = ob_aggregate_id e"
    by (rule_tac payment_lookup [OF c, of "ob_aggregate_id e"]) (auto simp: payments_by_id_def filter_empty_conv)
  obtain r w' where run: "process_event env ws e w = (r, w')" by (metis prod.exhaust)
  have pend: "ob_status e = OB_PENDING" using e(2) by (simp add: awaits_def)
  from event_settles [OF env c idle e(1) pend p(1) run] obtain outcome where
    res: "if r = Inr ()
     then settled p e (settlement (ws_max_event_attempts ws) (ob_attempts e) (p_last_error p) outcome) ?d (w_db w') \<and>
       constraints_ok (w_db w') \<and> w_pending w' = []
     else r = Inl IntegrityError \<and> w_db w' = ?d" by blast
  show "case process_event env ws e w of (Inr a, t) \<Rightarrow> in_round d0 es t | (Inl x, t) \<Rightarrow> lives d0 t"
  proof (cases "r = Inr ()")
    case False
    then show ?thesis using res run ok by (auto simp: lives_def)
  next
    case True
    have s: "settled p e (settlement (ws_max_event_attempts ws) (ob_attempts e) (p_last_error p) outcome) ?d (w_db w')"
      and c': "constraints_ok (w_db w')" and idle': "w_pending w' = []" using res True by auto
    have "awaits (p_payment_id p) e" using e(2) p(3) by simp
    from settled_lifecycle [OF ok(1) c' p(2) e(1) this s]
    have live: "lifecycle_ok (w_db w')" "advances d0 (w_db w')" using ok(2) advances_trans by blast+
    have "f \<in> set (db_outbox (w_db w'))" if "f \<in> set es" for f
    proof -
      have "ob_event_id f \<noteq> ob_event_id e" using ids that by (auto simp: image_iff)
      then show ?thesis using s es [OF that] by (force simp: settled_def image_iff)
    qed
    then have "in_round d0 es w'" using live idle' ids es by (auto simp: in_round_def)
    then show ?thesis using run True by simp
  qed
qed

lemma events_in_round:
  fixes env :: "'e outside"
  assumes env: "alone env"
  shows "triple (in_round d0 es) (forM es (process_event env ws) :: ('e, 'm, unit) pact)
    (\<lambda>_. in_round d0 []) (\<lambda>_. lives d0)"
proof (induction es)
  case Nil
  show ?case unfolding forM.simps by (rule triple_ret)
next
  case (Cons e es)
  show ?case unfolding forM.simps by (rule triple_bindM [OF event_in_round [OF env] Cons.IH])
qed

text \<open>Publishing changes only events that no payment waits for.\<close>

lemma marks_lifecycle:
  assumes ok: "lifecycle_ok d" and e: "event \<in> set (db_outbox d)" "ob_event_type event \<noteq> PAYMENT_REQUESTED"
    and m: "marks (ob_event_id event) st n f"
  shows "lifecycle_ok (f d) \<and> advances d (f d)"
proof -
  from m obtain g where f: "f = update_outbox (\<lambda>e. ob_event_id e = ob_event_id event) g"
    and g: "\<And>e. ob_core (g e) = ob_core e" by (auto simp: marks_def)
  have c: "constraints_ok d" using ok by (simp add: lifecycle_ok_def)
  have same: "awaits i (if ob_event_id x = ob_event_id event then g x else x) = awaits i x" if "x \<in> set (db_outbox d)" for x i
    using event_id_unique [OF c that e(1)] e(2) ob_core_eqD [OF g [of event]] by (auto simp: awaits_def)
  have len: "length (filter P (map h xs)) = length (filter Q xs)" if "\<And>x. x \<in> set xs \<Longrightarrow> P (h x) = Q x"
    for P Q :: "outbox_row \<Rightarrow> bool" and h xs
    using that by (induction xs) auto
  have "length (filter (awaits i) (db_outbox (f d))) = length (filter (awaits i) (db_outbox d))" for i
    unfolding f update_simps by (rule len) (rule same)
  moreover have "constraints_ok (f d)" using marks_constraints [OF m] c by simp
  moreover have "\<forall>x\<in>set (db_outbox (f d)). \<forall>i. awaits i x \<longrightarrow> i \<in> p_payment_id ` set (db_payments (f d))"
  proof (intro ballI allI impI)
    fix x i assume "x \<in> set (db_outbox (f d))" and a: "awaits i x"
    then obtain y where y: "y \<in> set (db_outbox d)" "x = (if ob_event_id y = ob_event_id event then g y else y)"
      by (auto simp: f)
    then have "awaits i y" using same [of y i] a by simp
    then show "i \<in> p_payment_id ` set (db_payments (f d))" using ok y(1) by (simp add: f lifecycle_ok_def)
  qed
  ultimately have "lifecycle_ok (f d)" using ok by (auto simp: lifecycle_ok_def f)
  then show ?thesis by (auto simp: advances_def f)
qed

definition publishing :: "database \<Rightarrow> outbox_row list \<Rightarrow> ('e, 'm) world_scheme \<Rightarrow> bool" where
  "publishing d0 es w \<longleftrightarrow> lives d0 w \<and> w_pending w = [] \<and>
     (\<forall>e\<in>set es. \<exists>f\<in>set (db_outbox (w_db w)). ob_core f = ob_core e \<and> ob_event_type e \<noteq> PAYMENT_REQUESTED)"

lemma lives_commit:
  assumes env: "alone env" and "stage d V w" and "\<And>x. V x \<Longrightarrow> lifecycle_ok x \<and> advances d0 x"
  shows "\<exists>w'. db_commit env w = (Inr (), w') \<and> lives d0 w' \<and> w_pending w' = [] \<and> V (w_db w')"
proof -
  have "V (db_view w)" using assms(2) by (simp add: stage_def)
  then show ?thesis using assms(3) by (auto simp: alone_commit [OF env] lives_def lifecycle_ok_def)
qed

lemma publish_stage:
  fixes env :: "'e outside"
  assumes env: "alone env" and f: "f \<in> set (db_outbox d)" "ob_event_id f = ob_event_id e"
  shows "triple (stage d (\<lambda>x. x = d))
    (catch (bindM (publish env e) (\<lambda>_. mark_sent env (ob_event_id e)))
       (\<lambda>x. bindM (emit t) (\<lambda>_. handle_fanout_failure env ws e x)) :: ('e, 'm, unit) act)
    (\<lambda>_. stage d (\<lambda>x. \<exists>g st n. marks (ob_event_id f) st n g \<and> x = g d)) (\<lambda>_ _. False)"
    (is "triple ?S _ (\<lambda>_. ?V) _")
proof (rule triple_catch)
  have mark: "triple ?S m (\<lambda>_. ?V) (\<lambda>_ _. False)"
    if "writes m (marks (ob_event_id e) st n)" for m :: "('e, 'm, unit) act" and st n
    using f(2) by (intro stage_step [OF that]) auto
  have delay: "triple ?S (exponential_backoff env n (1 / 2) 5 (1 / 4)) (\<lambda>_. ?S) (\<lambda>_ _. False)" for n
    unfolding exponential_backoff_def by (rule triple_bindM [OF stage_quiet_steps(1)], rule triple_ret)
  note marks = mark [OF outbox_writes(1) [OF env]] mark [OF outbox_writes(2) [OF env]] mark [OF outbox_writes(3) [OF env]]
  have "keeps ?S (publish env e :: ('e, 'm, unit) act)"
    unfolding publish_def by (intro keeps_intros)
  then show "triple ?S (bindM (publish env e) (\<lambda>_. mark_sent env (ob_event_id e)) :: ('e, 'm, unit) act) (\<lambda>_. ?V) (\<lambda>_. ?S)"
    by (intro triple_bindM [OF triple_keeps] triple_weaken [OF marks(1)]) auto
  show "triple ?S (bindM (emit t) (\<lambda>_. handle_fanout_failure env ws e x) :: ('e, 'm, unit) act) (\<lambda>_. ?V) (\<lambda>_ _. False)" for x
    unfolding handle_fanout_failure_def Let_def
    by (cases "ws_max_event_attempts ws \<le> ob_attempts e + 1"; simp only: if_True if_False
          triple_bindM [OF stage_quiet_steps(2)] triple_bindM [OF delay marks(3)] marks(2))
qed

lemma publish_staged:
  fixes env :: "'e outside"
  assumes env: "alone env" and live: "lifecycle_ok d" "advances d0 d"
    and f: "f \<in> set (db_outbox d)" "ob_event_id f = ob_event_id e" "ob_event_type f \<noteq> PAYMENT_REQUESTED"
  defines "V \<equiv> \<lambda>x. \<exists>g st n. marks (ob_event_id f) st n g \<and> x = g d"
  shows "triple (stage d (\<lambda>x. x = d)) (publish_fanout_event env ws e :: ('e, 'm, unit) act)
     (\<lambda>_ u. lives d0 u \<and> w_pending u = [] \<and> V (w_db u)) (\<lambda>_ _. False)"
  unfolding publish_fanout_event_def Let_def
proof (rule triple_bindM [OF stage_quiet_steps(1)], rule triple_bindM [where R = "\<lambda>_. stage d V"], goal_cases)
  case (1 s)
  have latency: "triple (stage d V) (bindM (outside (o_perf_counter env)) (\<lambda>stop.
      emit (HistogramRecord m (stop - s) attrs)) :: ('e, 'm, unit) act) (\<lambda>_. stage d V) (\<lambda>_ _. False)" for m attrs
    by (intro triple_bindM [OF stage_quiet_steps(1)] stage_quiet_steps(2))
  show ?case
    by (rule triple_try_else [OF publish_stage [OF env f(1,2), folded V_def]], simp add: triple_def,
        rule triple_bindM [OF latency], rule triple_ret)
next
  case (2 s u)
  have good: "lifecycle_ok x \<and> advances d0 x" if "V x" for x
    using that marks_lifecycle [OF live(1) f(1,3)] advances_trans [OF live(2)] unfolding V_def by blast
  show ?case
  proof (rule tripleI)
    fix v :: "('e, 'm) world_scheme" and a v' assume "stage d V v" "db_commit env v = (Inr a, v')"
    then show "lives d0 v' \<and> w_pending v' = [] \<and> V (w_db v')" using lives_commit [OF env _ good] by fastforce
  next
    fix v :: "('e, 'm) world_scheme" and x v' assume "stage d V v" "db_commit env v = (Inl x, v')"
    then show False using lives_commit [OF env _ good] by fastforce
  qed
qed

lemma publish_in_round:
  fixes env :: "'e outside"
  assumes env: "alone env"
  shows "triple (publishing d0 (e # es)) (publish_fanout_event env ws e :: ('e, 'm, unit) act)
    (\<lambda>_. publishing d0 es) (\<lambda>_. lives d0)"
  unfolding triple_def
proof (intro allI impI)
  fix w :: "('e, 'm) world_scheme" assume w: "publishing d0 (e # es) w"
  let ?d = "w_db w"
  obtain f where f: "f \<in> set (db_outbox ?d)" "ob_core f = ob_core e" and t: "ob_event_type e \<noteq> PAYMENT_REQUESTED"
    using w by (auto simp: publishing_def)
  have id: "ob_event_id f = ob_event_id e" and ty: "ob_event_type f \<noteq> PAYMENT_REQUESTED" using ob_core_eqD [OF f(2)] t by auto
  have live: "lifecycle_ok ?d" "advances d0 ?d" using w by (auto simp: publishing_def lives_def)
  have start: "stage ?d (\<lambda>x. x = ?d) w" using w by (simp add: stage_def publishing_def)
  note body = publish_staged [OF env live f(1) id ty, of ws]
  obtain r u where run: "publish_fanout_event env ws e w = (r, u)" by (metis prod.exhaust)
  then have r: "r = Inr ()" using tripleD_Inl [OF body start] by (cases r) auto
  have u: "lives d0 u" "w_pending u = []" "\<exists>g st n. marks (ob_event_id f) st n g \<and> w_db u = g ?d"
    using tripleD_Inr [OF body start] run unfolding r by blast+
  have "\<exists>h\<in>set (db_outbox (w_db u)). ob_core h = ob_core e' \<and> ob_event_type e' \<noteq> PAYMENT_REQUESTED" if e': "e' \<in> set es" for e'
  proof -
    obtain h where h: "h \<in> set (db_outbox ?d)" "ob_core h = ob_core e'" "ob_event_type e' \<noteq> PAYMENT_REQUESTED"
      using w e' by (auto simp: publishing_def)
    obtain g where g: "\<And>e. ob_core (g e) = ob_core e"
      and x: "w_db u = update_outbox (\<lambda>e. ob_event_id e = ob_event_id f) g ?d" using u(3) by (auto simp: marks_def)
    let ?h = "if ob_event_id h = ob_event_id f then g h else h"
    have "?h \<in> set (db_outbox (w_db u))" using h(1) by (auto simp: x)
    moreover have "ob_core ?h = ob_core e'" using g h(2) by simp
    ultimately show ?thesis using h(3) by blast
  qed
  then show "case publish_fanout_event env ws e w of (Inr a, t) \<Rightarrow> publishing d0 es t | (Inl x, t) \<Rightarrow> lives d0 t"
    using run r u by (simp add: publishing_def)
qed

text \<open>A whole round.\<close>

lemma fanout_in_round:
  fixes env :: "'e outside"
  assumes env: "alone env"
  shows "triple (\<lambda>w. lives d0 w \<and> w_pending w = []) (publish_fanout_events env ws :: ('e, 'm, unit) act)
    (\<lambda>_. lives d0) (\<lambda>_. lives d0)"
proof (cases "ws_publisher_enabled ws")
  case False
  then show ?thesis by (simp add: publish_fanout_events_def triple_def)
next
  case True
  have loop: "triple (publishing d0 es) (forM es (publish_fanout_event env ws) :: ('e, 'm, unit) act)
      (\<lambda>_. lives d0) (\<lambda>_. lives d0)" for es
  proof (induction es)
    case Nil
    show ?case unfolding forM.simps by (rule triple_ret) (simp add: publishing_def)
  next
    case (Cons e es)
    show ?case unfolding forM.simps by (rule triple_bindM [OF publish_in_round [OF env] Cons.IH])
  qed
  have fetch: "triple (\<lambda>w. lives d0 w \<and> w_pending w = []) (fetch_pending_fanout_events env n :: ('e, 'm, outbox_row list) act)
      (\<lambda>es. publishing d0 es) (\<lambda>_. lives d0)" for n
    unfolding triple_def
  proof (intro allI impI, elim conjE)
    fix w :: "('e, 'm) world_scheme" assume w: "lives d0 w" "w_pending w = []"
    obtain now e where t: "o_now env (w_out w) = (now, e)" by (metis prod.exhaust)
    let ?es = "pending_fanout_stmt now n (w_db w)"
    have "f \<in> set (db_outbox (w_db w)) \<and> ob_event_type f \<noteq> PAYMENT_REQUESTED" if "f \<in> set ?es" for f
      using that by (auto simp: pending_fanout_stmt_def pending_of_def is_fanout_type_def dest!: in_set_takeD)
    then have "publishing d0 ?es (w\<lparr>w_out := e\<rparr>)" using w by (auto simp: publishing_def lives_def)
    then show "case fetch_pending_fanout_events env n w of (Inr es, t) \<Rightarrow> publishing d0 es t | (Inl x, t) \<Rightarrow> lives d0 t"
      using t w by (simp add: fetch_pending_fanout_events_def bindM_def outside_def alone_select [OF env])
  qed
  have gauge: "triple (publishing d0 es) (emit t :: ('e, 'm, unit) act) (\<lambda>_. publishing d0 es) (\<lambda>_. lives d0)" for es t
    by (simp add: triple_def publishing_def lives_def)
  show ?thesis
    unfolding publish_fanout_events_def using True
    by (simp, intro triple_bindM [OF fetch] triple_bindM [OF gauge] loop)
qed

lemma fetch_in_round:
  fixes env :: "'e outside"
  assumes env: "alone env"
  shows "triple (\<lambda>w. lives d0 w \<and> w_pending w = []) (fetch_pending_requested env n :: ('e, 'm, outbox_row list) act)
    (\<lambda>es. in_round d0 es) (\<lambda>_. lives d0)"
  unfolding triple_def
proof (intro allI impI, elim conjE)
  fix w :: "('e, 'm) world_scheme" assume w: "lives d0 w" "w_pending w = []"
  obtain now e where t: "o_now env (w_out w) = (now, e)" by (metis prod.exhaust)
  let ?p = "pending_of (\<lambda>t. t = PAYMENT_REQUESTED) now (w_db w)"
  let ?es = "pending_requested_stmt now n (w_db w)"
  have "distinct (map ob_event_id (db_outbox (w_db w)))" using w by (simp add: lives_def lifecycle_ok_def constraints_ok_def)
  then have "distinct (map ob_event_id ?p)" unfolding pending_of_def by (rule distinct_map_filter)
  then have "distinct (map ob_event_id (sort_key ob_created_at ?p))" by (simp add: distinct_map)
  then have d: "distinct (map ob_event_id ?es)" by (simp add: pending_requested_stmt_def take_map flip: take_map)
  have "f \<in> set (db_outbox (w_db w)) \<and> awaits (ob_aggregate_id f) f" if "f \<in> set ?es" for f
    using that by (auto simp: pending_requested_stmt_def pending_of_def awaits_def dest!: in_set_takeD)
  then have "in_round d0 ?es (w\<lparr>w_out := e\<rparr>)" using w d by (auto simp: in_round_def lives_def)
  then show "case fetch_pending_requested env n w of (Inr es, t) \<Rightarrow> in_round d0 es t | (Inl x, t) \<Rightarrow> lives d0 t"
    using t w by (simp add: fetch_pending_requested_def bindM_def outside_def alone_select [OF env])
qed

lemma run_once_lives:
  fixes env :: "'e outside" and w :: "('e, 'm) proc_world_scheme"
  assumes env: "alone env" and ok: "lifecycle_ok (w_db w)"
  shows "lifecycle_ok (w_db (snd (run_once env ws w))) \<and> advances (w_db w) (w_db (snd (run_once env ws w)))"
proof -
  let ?P = "\<lambda>v. lives (w_db w) v \<and> w_pending v = []"
  have reads: "triple ?P m (\<lambda>_. ?P) (\<lambda>_. lives (w_db w))" if "keeps ?P m" for m :: "('e, 'm, 'b) pact"
    by (rule triple_weaken [OF triple_keeps [OF that]]) auto
  have q: "quiet ?P" by (auto simp: quiet_def lives_def)
  have k: "keeps ?P (backlog_size env :: ('e, 'm, int) pact)" "keeps ?P (oldest_pending_lag env :: ('e, 'm, int) pact)"
    "keeps ?P (emit t :: ('e, 'm, unit) pact)" for t
    unfolding backlog_size_def oldest_pending_lag_def by (intro keeps_intros q env)+
  let ?body = "bindM (backlog_size env) (\<lambda>backlog.
      bindM (emit (HistogramRecord ''payments_processor_outbox_backlog'' backlog [])) (\<lambda>_.
      bindM (oldest_pending_lag env) (\<lambda>lag.
      bindM (emit (HistogramRecord ''payments_processor_outbox_lag_seconds'' lag [])) (\<lambda>_.
      bindM (fetch_pending_requested env (ws_batch_size ws)) (\<lambda>events.
      bindM (forM events (process_event env ws)) (\<lambda>_.
      publish_fanout_events env ws)))))) :: ('e, 'm, unit) pact"
  have "triple ?P ?body (\<lambda>_. lives (w_db w)) (\<lambda>_. lives (w_db w))"
    by (intro triple_bindM [OF reads [OF k(1)]] triple_bindM [OF reads [OF k(3)]] triple_bindM [OF reads [OF k(2)]]
        triple_bindM [OF fetch_in_round [OF env]] triple_bindM [OF events_in_round [OF env]]
        triple_weaken [OF fanout_in_round [OF env]])
       (auto simp: in_round_def lives_def)
  note body = this
  have start: "?P (w\<lparr>w_pending := []\<rparr>)" using ok advances_refl by (auto simp: lives_def)
  obtain r v where run: "?body (w\<lparr>w_pending := []\<rparr>) = (r, v)" by (metis prod.exhaust)
  then have "lives (w_db w) v"
    using tripleD_Inl [OF body start] tripleD_Inr [OF body start] by (cases r) blast+
  moreover have "run_once env ws w = (r, v\<lparr>w_pending := []\<rparr>)"
    unfolding run_once_def in_session_def run by simp
  ultimately show ?thesis by (simp add: lives_def)
qed

end
