(* ===== verification/LifecycleSystem.thy ===== *)
theory LifecycleSystem
  imports Lifecycle QuietRuns
begin

text \<open>
  Creation and seeding with no other session, and the refinement for every operation of the
  system: each run of an operation takes the tables along the lifecycle.
\<close>

lemmas alone_services = keeps_services [OF keeps_alone]
lemmas alone_use_case = keeps_use_case [OF keeps_alone]
lemmas alone_replays = keeps_replays [OF keeps_alone]

section \<open>The transaction of a creation\<close>

text \<open>What a payment is accepted with.\<close>

definition acceptance :: "payment_status \<Rightarrow> event_type list" where
  "acceptance s = (if s = RECEIVED then [PAYMENT_REQUESTED] else if s = IN_REVIEW then [PAYMENT_REVIEW_REQUIRED] else [])"

definition accepted :: "database \<Rightarrow> database \<Rightarrow> bool" where
  "accepted d x \<longleftrightarrow> (\<exists>p evs snaps.
     x = d\<lparr>db_payments := db_payments d @ [p], db_outbox := db_outbox d @ evs,
            db_idempotency := db_idempotency d @ snaps\<rparr> \<and>
     p_status p \<in> {RECEIVED, IN_REVIEW, BLOCKED} \<and>
     map (\<lambda>e. (ob_event_type e, ob_aggregate_id e, ob_status e)) evs =
       map (\<lambda>t. (t, p_payment_id p, OB_PENDING)) (acceptance (p_status p)))"

lemma accepted_lifecycle:
  assumes ok: "lifecycle_ok d" and a: "accepted d x" and c: "constraints_ok x"
  shows "lifecycle_ok x \<and> advances d x"
proof -
  from a obtain p evs snaps where x: "x = d\<lparr>db_payments := db_payments d @ [p], db_outbox := db_outbox d @ evs,
      db_idempotency := db_idempotency d @ snaps\<rparr>"
    and st: "p_status p \<in> {RECEIVED, IN_REVIEW, BLOCKED}"
    and evs: "map (\<lambda>e. (ob_event_type e, ob_aggregate_id e, ob_status e)) evs =
       map (\<lambda>t. (t, p_payment_id p, OB_PENDING)) (acceptance (p_status p))" by (auto simp: accepted_def)
  have fresh: "p_payment_id p \<notin> p_payment_id ` set (db_payments d)" using c by (auto simp: constraints_ok_def x)
  then have none: "filter (awaits (p_payment_id p)) (db_outbox d) = []"
    using ok by (auto simp: lifecycle_ok_def filter_empty_conv)
  have new: "filter (awaits i) evs = (if in_processing (p_status p) \<and> i = p_payment_id p then evs else [])" for i
    using evs st by (cases evs) (auto simp: awaits_def acceptance_def in_processing_def split: if_splits)
  have len: "in_processing (p_status p) \<Longrightarrow> length evs = 1"
    using arg_cong [OF evs, of length] st by (auto simp: acceptance_def in_processing_def)
  have "length (filter (awaits (p_payment_id r)) (db_outbox x)) = (if in_processing (p_status r) then 1 else 0)"
    if r: "r \<in> set (db_payments x)" for r
  proof (cases "r = p")
    case True
    then show ?thesis using none len by (auto simp: x new)
  next
    case False
    then have d: "r \<in> set (db_payments d)" using r by (simp add: x)
    then have "p_payment_id r \<noteq> p_payment_id p" using fresh by (metis imageI)
    then show ?thesis using d ok by (simp add: x new lifecycle_ok_def)
  qed
  moreover have "\<forall>e\<in>set (db_outbox x). \<forall>i. awaits i e \<longrightarrow> i \<in> p_payment_id ` set (db_payments x)"
  proof (intro ballI allI impI)
    fix e i assume e: "e \<in> set (db_outbox x)" "awaits i e"
    show "i \<in> p_payment_id ` set (db_payments x)"
    proof (cases "e \<in> set evs")
      case True
      then have "filter (awaits i) evs \<noteq> []" using e(2) by (auto simp: filter_empty_conv)
      then show ?thesis by (auto simp: new x split: if_splits)
    next
      case False
      then show ?thesis using e ok by (auto simp: x lifecycle_ok_def)
    qed
  qed
  ultimately have "lifecycle_ok x" using c by (simp add: lifecycle_ok_def)
  then show ?thesis by (auto simp: advances_def x)
qed

definition creating :: "database \<Rightarrow> payment_status \<Rightarrow> uuid \<Rightarrow> event_type list \<Rightarrow> database \<Rightarrow> bool" where
  "creating d st pid ts x \<longleftrightarrow> (\<exists>p evs snaps.
     x = d\<lparr>db_payments := db_payments d @ [p], db_outbox := db_outbox d @ evs,
            db_idempotency := db_idempotency d @ snaps\<rparr> \<and> p_status p = st \<and> p_payment_id p = pid \<and>
     map (\<lambda>e. (ob_event_type e, ob_aggregate_id e, ob_status e)) evs = map (\<lambda>t. (t, pid, OB_PENDING)) ts)"

abbreviation untouched :: "database \<Rightarrow> ('e, 'm) world_scheme \<Rightarrow> bool" where
  "untouched d \<equiv> stage d (\<lambda>x. x = d)"

lemma creating_row:
  fixes env :: "'e outside"
  shows "triple (untouched d) (create_payment_row env c :: ('e, 'm, unit) act)
    (\<lambda>_. stage d (creating d (pc_status c) (pc_payment_id c) [])) (\<lambda>_. untouched d)"
  unfolding triple_def
proof (intro allI impI)
  fix w :: "('e, 'm) world_scheme" assume w: "untouched d w"
  obtain now e where t: "o_db_now env (w_out w) = (now, e)" by (metis prod.exhaust)
  show "case create_payment_row env c w of (Inr a, t) \<Rightarrow> stage d (creating d (pc_status c) (pc_payment_id c) []) t
      | (Inl x, t) \<Rightarrow> untouched d t"
  proof (cases "o_numeric_18_2 env (pc_amount c)")
    case None
    then show ?thesis using t w by (simp add: create_payment_row_def bindM_def outside_def stage_def)
  next
    case (Some amount)
    let ?p = "new_payment_row c amount now"
    have "creating d (pc_status c) (pc_payment_id c) [] (insert_payment ?p d)"
      unfolding creating_def insert_payment_def
      by (intro exI [of _ ?p] exI [of _ "[]"]) (simp add: new_payment_row_def)
    then show ?thesis using t w Some
      by (simp add: create_payment_row_def bindM_def outside_def stage_def db_write_def)
  qed
qed

lemma creating_event:
  fixes env :: "'e outside"
  shows "triple (stage d (creating d st pid ts)) (add_event env pid t payload :: ('e, 'm, unit) act)
    (\<lambda>_. stage d (creating d st pid (ts @ [t]))) (\<lambda>_ _. False)"
proof -
  have "creating d st pid (ts @ [t]) (f x)" if f: "tells pid t f" and x: "creating d st pid ts x" for f x
  proof -
    obtain e where e: "f = insert_event e" "ob_event_type e = t" "ob_aggregate_id e = pid" "ob_status e = OB_PENDING"
      using f by (auto simp: tells_def)
    from x show ?thesis unfolding creating_def
    proof (elim exE conjE, goal_cases)
      case (1 p evs snaps)
      then show ?case using e
        by (intro exI [of _ p] exI [of _ "evs @ [e]"] exI [of _ snaps]) (simp add: insert_event_def)
    qed
  qed
  then show ?thesis by (intro stage_step [OF event_writes [unfolded emit_event_add]])
qed

lemma creating_snapshot:
  fixes env :: "'e outside"
  shows "triple (stage d (creating d st pid ts)) (create_snapshot env m k i code payload :: ('e, 'm, unit) act)
    (\<lambda>_. stage d (creating d st pid ts)) (\<lambda>_ _. False)"
proof -
  have "creating d st pid ts (insert_snapshot r x)" if "creating d st pid ts x" for r x
    using that unfolding creating_def
  proof (elim exE conjE, goal_cases)
    case (1 p evs snaps)
    then show ?case
      by (intro exI [of _ p] exI [of _ evs] exI [of _ "snaps @ [r]"]) (simp add: insert_snapshot_def)
  qed
  then show ?thesis
    by (auto simp: triple_def create_snapshot_def bindM_def outside_def db_write_def stage_def split: prod.splits)
qed

lemma creating_events:
  fixes env :: "'e outside"
  shows "triple (stage d (creating d (ac_status r) (ac_payment_id r) [])) (persist_outbox_events env rx r :: ('e, 'm, unit) act)
    (\<lambda>_. stage d (creating d (ac_status r) (ac_payment_id r) (acceptance (ac_status r)))) (\<lambda>_ _. False)"
proof -
  note add = creating_event [where ts = "[]" and st = "ac_status r" and pid = "ac_payment_id r", unfolded append_Nil]
  consider "ac_status r = RECEIVED" | "ac_status r = IN_REVIEW" | "ac_status r \<noteq> RECEIVED" "ac_status r \<noteq> IN_REVIEW" by blast
  then show ?thesis
  proof cases
    case 1
    then show ?thesis unfolding persist_outbox_events_def acceptance_def
      by (simp, intro triple_bindM [OF stage_quiet_steps(1)] add [unfolded 1])
  next
    case 2
    then show ?thesis unfolding persist_outbox_events_def acceptance_def by (simp add: add [unfolded 2])
  next
    case 3
    then show ?thesis unfolding persist_outbox_events_def acceptance_def by (simp add: triple_ret)
  qed
qed

section \<open>The use case\<close>

definition after_creation :: "database \<Rightarrow> ('e, 'm) world_scheme \<Rightarrow> bool" where
  "after_creation d w \<longleftrightarrow> w_db w = d \<or> accepted d (w_db w) \<and> constraints_ok (w_db w)"

lemma quiet_after [keeps_intros]: "quiet (after_creation d)"
  by (auto simp: quiet_def after_creation_def)

lemma untouched_after: "untouched d w \<Longrightarrow> after_creation d w"
  by (simp add: stage_def after_creation_def)

text \<open>A step that keeps \<open>P\<close> and whose value satisfies \<open>V\<close>, before the rest.\<close>

lemma triple_value:
  assumes "keeps P m" and "\<And>w a w'. m w = (Inr a, w') \<Longrightarrow> V a"
    and "\<And>a. V a \<Longrightarrow> triple P (f a) Q X" and "\<And>x w. P w \<Longrightarrow> X x w"
  shows "triple P (bindM m f) Q X"
proof (rule triple_bindM [where R = "\<lambda>a w. V a \<and> P w"])
  show "triple P m (\<lambda>a w. V a \<and> P w) X"
    using assms(1,2,4) by (intro tripleI) (auto dest: keepsD)
  show "triple (\<lambda>w. V a \<and> P w) (f a) Q X" for a
    using assms(3) by (auto simp: triple_def)
qed

lemma triple_reads:
  assumes "keeps P m" and "\<And>a. triple P (f a) Q X" and "\<And>x w. P w \<Longrightarrow> X x w"
  shows "triple P (bindM m f) Q X"
  using assms(1) _ assms(2) by (rule triple_value) (simp_all add: assms(3))

text \<open>The transaction commits what the payment is accepted with; a conflict is answered from the tables.\<close>

lemma transaction_commits:
  fixes env :: "'e outside"
  assumes env: "alone env" and dec: "decided decision response"
  shows "triple (untouched d)
     (bindM (persist_payment_and_outbox env rx request decision response) (\<lambda>_.
      bindM (create_snapshot env m k (ac_payment_id response) code payload) (\<lambda>_.
      bindM (db_commit env) (\<lambda>_. ret None))) :: ('e, 'm, payment_accepted_response option) act)
     (\<lambda>_. after_creation d) (\<lambda>_ w. w_db w = d)"
proof -
  let ?st = "ac_status response" and ?pid = "ac_payment_id response"
  have data: "pc_status (payment_data rx request decision response) = ?st"
    "pc_payment_id (payment_data rx request decision response) = ?pid" by (simp_all add: payment_data_def)
  have row: "triple (untouched d) (persist_payment_and_outbox env rx request decision response :: ('e, 'm, unit) act)
      (\<lambda>_. stage d (creating d ?st ?pid (acceptance ?st))) (\<lambda>_ w. w_db w = d)"
    unfolding persist_payment_and_outbox_def
    by (rule triple_bindM [where R = "\<lambda>_. stage d (creating d ?st ?pid [])"],
        rule triple_weaken [OF creating_row [where c = "payment_data rx request decision response", unfolded data]])
       (auto intro!: triple_weaken [OF creating_events] simp: stage_def)
  have snap: "triple (stage d (creating d ?st ?pid (acceptance ?st))) (create_snapshot env m k ?pid code payload :: ('e, 'm, unit) act)
      (\<lambda>_. stage d (creating d ?st ?pid (acceptance ?st))) (\<lambda>_ w. w_db w = d)"
    by (rule triple_weaken [OF creating_snapshot]) auto
  have st: "?st \<in> {RECEIVED, IN_REVIEW, BLOCKED}"
    using dec by (auto simp: decided_def resolve_status_from_decisions_def)
  have "accepted d x" if "creating d ?st ?pid (acceptance ?st) x" for x
    using that unfolding creating_def accepted_def
  proof (elim exE conjE, goal_cases)
    case (1 p evs snaps)
    then show ?case using st by (intro exI [of _ p] exI [of _ evs] exI [of _ snaps]) simp
  qed
  then have commit: "triple (stage d (creating d ?st ?pid (acceptance ?st))) (db_commit env :: ('e, 'm, unit) act)
      (\<lambda>_. after_creation d) (\<lambda>_ w. w_db w = d)"
    by (auto simp: triple_def alone_commit [OF env] stage_def after_creation_def)
  show ?thesis by (intro triple_bindM [OF row] triple_bindM [OF snap] triple_bindM [OF commit] triple_ret)
qed

lemma transaction_alone:
  fixes env :: "'e outside"
  assumes env: "alone env" and dec: "decided decision response"
  shows "triple (untouched d) (persist_payment_transaction env rx request decision response :: ('e, 'm, _) act)
    (\<lambda>_. after_creation d) (\<lambda>_. after_creation d)"
  unfolding persist_payment_transaction_def catch_if_def
proof (rule triple_catch [OF transaction_commits [OF assms]])
  have q: "quiet (after_creation d :: ('e, 'm) world_scheme \<Rightarrow> bool)" by (rule quiet_after)
  have "keeps (after_creation d) (db_rollback :: ('e, 'm, unit) act)"
    by (simp add: keeps_def db_rollback_def after_creation_def)
  then have "keeps (after_creation d) (if is_integrity_error x
      then bindM db_rollback (\<lambda>_. bindM (resolve_replayed_after_conflict env rx) (\<lambda>replayed.
           case replayed of Some r \<Rightarrow> ret (Some r) | None \<Rightarrow> raise default_idempotency_conflict))
      else raise x :: ('e, 'm, payment_accepted_response option) act)" for x
    by (intro keeps_intros env q)
  then show "triple (\<lambda>w. w_db w = d) (if is_integrity_error x
      then bindM db_rollback (\<lambda>_. bindM (resolve_replayed_after_conflict env rx) (\<lambda>replayed.
           case replayed of Some r \<Rightarrow> ret (Some r) | None \<Rightarrow> raise default_idempotency_conflict))
      else raise x :: ('e, 'm, payment_accepted_response option) act) (\<lambda>_. after_creation d) (\<lambda>_. after_creation d)" for x
    by (rule triple_weaken [OF triple_keeps]) (auto simp: after_creation_def)
qed

lemma create_with_controls_alone:
  fixes env :: "'e outside"
  assumes env: "alone env"
  shows "triple (untouched d :: ('e, 'm) world_scheme \<Rightarrow> bool) (create_payment_with_controls env uc rx request)
    (\<lambda>_. after_creation d) (\<lambda>_. after_creation d)"
proof -
  let ?P = "untouched d :: ('e, 'm) world_scheme \<Rightarrow> bool" and ?Q = "after_creation d :: ('e, 'm) world_scheme \<Rightarrow> bool"
  let ?answer = "\<lambda>response decision x. case x of Some r \<Rightarrow> ret r
      | None \<Rightarrow> bindM (after_commit_observability env uc rx request response decision) (\<lambda>_. ret response)"
  let ?persist = "\<lambda>response decision. bindM (update_decision_correlation_fields decision) (\<lambda>_.
      bindM (persist_payment_transaction env rx request decision response) (?answer response decision))"
  have q: "quiet ?P" "quiet ?Q" by (rule quiet_stage quiet_after)+
  note ua = untouched_after [of d]
  have finish: "triple ?Q (?answer response decision x) (\<lambda>_. ?Q) (\<lambda>_. ?Q)" for x response decision
    by (rule triple_keeps, intro keeps_intros env q)
  have persist: "triple ?P (?persist response decision) (\<lambda>_. ?Q) (\<lambda>_. ?Q)" if "decided decision response" for response decision
    by (rule triple_reads [OF alone_use_case(7) [OF env q(1)] triple_bindM [OF transaction_alone [OF env that] finish] ua])
  have decide: "triple ?P (bindM (build_response_payload env decision) (\<lambda>response. ?persist response decision))
      (\<lambda>_. ?Q) (\<lambda>_. ?Q)"
    if "cd_final_status decision = resolve_status_from_decisions (cd_risk_decision decision) (cd_aml_decision decision)"
    for decision
    by (rule triple_value [OF alone_use_case(6) [OF env q(1)] response_decided [OF _ that] persist ua])
  show ?thesis unfolding create_payment_with_controls_def
    by (rule triple_reads [OF alone_use_case(3) [OF env q(1)] _ ua],
        rule triple_reads [OF alone_use_case(4) [OF env q(1)] _ ua],
        rule triple_value [OF alone_use_case(5) [OF env q(1)] controls_decided decide ua])
qed

text \<open>What \<open>create_execute\<close> runs in its session, once the request is validated.\<close>

abbreviation create_session ::
  "'e outside \<Rightarrow> create_payment_use_case \<Rightarrow> request_context \<Rightarrow> create_payment_request \<Rightarrow>
   ('e, 'm, payment_accepted_response) act" where
  "create_session env uc rx request \<equiv>
     bindM (try_return_replayed_response env rx) (\<lambda>replayed.
     case replayed of
       Some r \<Rightarrow> ret r
     | None \<Rightarrow>
         bindM (acquire_idempotency_lock env uc rx) (\<lambda>acquired.
         if \<not> acquired then resolve_pending_idempotent_request env rx
         else create_payment_with_controls env uc rx request))"

lemma create_session_alone:
  fixes env :: "'e outside"
  assumes env: "alone env"
  shows "triple (untouched d :: ('e, 'm) world_scheme \<Rightarrow> bool) (create_session env uc rx request)
    (\<lambda>_. after_creation d) (\<lambda>_. after_creation d)"
proof -
  let ?P = "untouched d :: ('e, 'm) world_scheme \<Rightarrow> bool" and ?Q = "after_creation d :: ('e, 'm) world_scheme \<Rightarrow> bool"
  have q: "quiet ?P" by (rule quiet_stage)
  note ua = untouched_after [of d]
  have pending: "triple ?P (resolve_pending_idempotent_request env rx) (\<lambda>_. ?Q) (\<lambda>_. ?Q)"
    by (rule triple_weaken [OF triple_keeps [OF alone_replays(2) [OF env q]]]) (assumption | erule ua)+
  show ?thesis unfolding acquire_idempotency_lock_def
    by (rule triple_reads [OF alone_use_case(1) [OF env q] _ ua], rule triple_option,
        rule triple_reads [OF alone_services(6) [OF env q] _ ua],
        rule triple_if [OF pending create_with_controls_alone [OF env]])
       (assumption | rule triple_ret | erule ua)+
qed

lemma create_alone:
  fixes env :: "'e outside" and w :: "('e, 'm) world_scheme"
  assumes env: "alone env"
  shows "after_creation (w_db w) (snd (create_execute env uc request headers w))"
proof -
  obtain r v where run: "build_request_context uc headers request w = (r, v)" by (metis prod.exhaust)
  have v: "w_db v = w_db w"
    using keepsD [OF alone_use_case(9) [OF env, of "\<lambda>u. w_db u = w_db w"] _ run] by (auto simp: quiet_def)
  show ?thesis
  proof (cases r)
    case (Inl x)
    then show ?thesis using run v by (simp add: create_execute_def bindM_def after_creation_def)
  next
    case (Inr y)
    obtain rx rq where y: "y = (rx, rq)" by (cases y)
    have start: "untouched (w_db w) (v\<lparr>w_pending := []\<rparr>)" using v by (simp add: stage_def)
    obtain q u where b: "create_session env uc rx rq (v\<lparr>w_pending := []\<rparr>) = (q, u)" by (metis prod.exhaust)
    note body = create_session_alone [OF env, where d = "w_db w" and uc = uc and rx = rx and request = rq]
    have "after_creation (w_db w) u" using b tripleD_Inl [OF body start] tripleD_Inr [OF body start] by (cases q) blast+
    moreover have "create_execute env uc request headers w = (q, u\<lparr>w_pending := []\<rparr>)"
      using run Inr y b by (simp add: create_execute_def bindM_apply in_session_def)
    ultimately show ?thesis by (simp add: after_creation_def)
  qed
qed

section \<open>Seeding and reading\<close>

definition seeding :: "database \<Rightarrow> ('e, 'm) world_scheme \<Rightarrow> bool" where
  "seeding d w \<longleftrightarrow> (\<forall>x\<in>{w_db w, db_view w}. db_payments x = db_payments d \<and> db_outbox x = db_outbox d) \<and>
     constraints_ok (w_db w)"

lemma init_db_alone:
  fixes env :: "'e outside" and w :: "('e, 'm) world_scheme"
  assumes env: "alone env" and c: "constraints_ok (w_db w)"
  shows "db_payments (w_db (snd (init_db env w))) = db_payments (w_db w) \<and>
    db_outbox (w_db (snd (init_db env w))) = db_outbox (w_db w) \<and> constraints_ok (w_db (snd (init_db env w)))"
proof -
  let ?P = "seeding (w_db w) :: ('e, 'm) world_scheme \<Rightarrow> bool"
  have q: "quiet ?P" by (auto simp: quiet_def seeding_def db_view_def)
  have adds: "keeps ?P (db_write (insert_customers cs))" "keeps ?P (db_write (insert_limits ls))" for cs ls
    by (auto simp: keeps_def db_write_def seeding_def insert_customers_def insert_limits_def)
  have commit: "keeps ?P (db_commit env)"
    by (auto simp: keeps_def alone_commit [OF env] seeding_def)
  have "keeps ?P (bindM (seed_customers_step env) (\<lambda>_. bindM (seed_limits_step env) (\<lambda>_. db_commit env)))"
    unfolding seed_customers_step_def seed_limits_step_def
    by (intro keeps_intros env q commit adds)
  moreover have "?P (w\<lparr>w_pending := []\<rparr>)" using c by (simp add: seeding_def)
  ultimately have "?P (snd (bindM (seed_customers_step env) (\<lambda>_. bindM (seed_limits_step env) (\<lambda>_. db_commit env)) (w\<lparr>w_pending := []\<rparr>)))"
    unfolding keeps_def by blast
  then show ?thesis unfolding init_db_def in_session_def seeding_def by (simp add: case_prod_beta)
qed

lemma get_alone:
  fixes env :: "'e outside" and w :: "('e, 'm) world_scheme"
  assumes env: "alone env"
  shows "w_db (snd (get_execute env pid w)) = w_db w"
proof -
  have "quiet (\<lambda>v :: ('e, 'm) world_scheme. w_db v = w_db w)" by (simp add: quiet_def)
  then have "keeps (\<lambda>v. w_db v = w_db w) (bindM (get_by_payment_id env pid) (\<lambda>payment.
      case payment of None \<Rightarrow> raise (ValidationAppError ''Payment not found'')
      | Some p \<Rightarrow> ret (payment_status_view p)) :: ('e, 'm, payment_status_response) act)"
    unfolding get_by_payment_id_def by (intro keeps_intros env)
  from keepsD [OF this, of "w\<lparr>w_pending := []\<rparr>"] show ?thesis
    unfolding get_execute_def in_session_def by (auto split: prod.splits)
qed

section \<open>Every operation\<close>

lemma step_lives:
  assumes "system_step env d d'" and env: "alone env" and "lifecycle_ok d"
  shows "lifecycle_ok d' \<and> advances d d'"
  using assms(1,3)
proof (induction rule: system_step.induct)
  case (create uc request headers w w')
  have "after_creation (w_db w) w'" using create_alone [OF env, of w uc request headers] create.hyps by simp
  then show ?case using accepted_lifecycle [OF create.prems] create.prems advances_refl
    by (auto simp: after_creation_def)
next
  case (approve pid w w')
  then show ?case using review_runs_lifecycle(1) [OF env] by blast
next
  case (reject pid w w')
  then show ?case using review_runs_lifecycle(2) [OF env] by blast
next
  case (get pid w w')
  then show ?case using get_alone [OF env, of pid w] advances_refl by auto
next
  case (seed w w')
  have "constraints_ok (w_db w)" using seed.prems by (simp add: lifecycle_ok_def)
  from init_db_alone [OF env this] seed.hyps
  have "db_payments (w_db w') = db_payments (w_db w)" "db_outbox (w_db w') = db_outbox (w_db w)" "constraints_ok (w_db w')"
    by auto
  then show ?case using seed.prems by (auto simp: lifecycle_ok_def advances_def)
next
  case (work ws w w')
  then show ?case using run_once_lives [OF env] by blast
qed

lemma reachable_lifecycle:
  assumes "reachable env d" and env: "alone env"
  shows "lifecycle_ok d"
  using assms(1)
proof (induction rule: reachable.induct)
  case start
  show ?case by (simp add: empty_tables_def lifecycle_ok_def constraints_ok_def)
next
  case (step d d')
  then show ?case using step_lives [OF _ env] by blast
qed

lemma steps_live:
  assumes "(system_step env)\<^sup>*\<^sup>* d d'" and env: "alone env" and "lifecycle_ok d"
  shows "lifecycle_ok d' \<and> advances d d'"
  using assms(1,3)
proof (induction rule: rtranclp_induct)
  case base
  then show ?case by (simp add: advances_refl)
next
  case (step y z)
  then show ?case using step_lives [OF step.hyps(2) env] advances_trans by blast
qed

end
