(* ===== verification/Retries.thy ===== *)
theory Retries
  imports Lifecycle
begin

text \<open>
  How long an event stays pending.  \<open>attempted env ws eid d n d'\<close>: the worker has processed the event
  \<open>eid\<close> with success \<open>n\<close> times on the way from \<open>d\<close> to \<open>d'\<close>, and whatever else happened in between left that
  event and its payment alone.  Each processing either closes the event or uses up one attempt.
\<close>

definition handled :: "'e outside \<Rightarrow> worker_settings \<Rightarrow> uuid \<Rightarrow> database \<Rightarrow> database \<Rightarrow> bool" where
  "handled env ws eid d d' \<longleftrightarrow> (\<exists>(w :: 'e proc_world) event w'. w_db w = d \<and> w_pending w = [] \<and>
     event \<in> set (db_outbox d) \<and> ob_event_id event = eid \<and> ob_status event = OB_PENDING \<and>
     process_event env ws event w = (Inr (), w') \<and> w_db w' = d')"

definition events_by_id :: "uuid \<Rightarrow> database \<Rightarrow> outbox_row list" where
  "events_by_id eid d = filter (\<lambda>e. ob_event_id e = eid) (db_outbox d)"

definition elsewhere :: "uuid \<Rightarrow> database \<Rightarrow> database \<Rightarrow> bool" where
  "elsewhere eid d d' \<longleftrightarrow> constraints_ok d' \<and> events_by_id eid d' = events_by_id eid d \<and>
     (\<forall>e\<in>set (events_by_id eid d). payments_by_id (ob_aggregate_id e) d' = payments_by_id (ob_aggregate_id e) d)"

inductive attempted :: "'e outside \<Rightarrow> worker_settings \<Rightarrow> uuid \<Rightarrow> database \<Rightarrow> nat \<Rightarrow> database \<Rightarrow> bool"
  for env ws eid d where
  none: "attempted env ws eid d 0 d"
| attempt: "attempted env ws eid d n x \<Longrightarrow> handled env ws eid x y \<Longrightarrow> attempted env ws eid d (Suc n) y"
| other: "attempted env ws eid d n x \<Longrightarrow> elsewhere eid x y \<Longrightarrow> attempted env ws eid d n y"

lemma events_by_id_row:
  assumes "constraints_ok d" and "e \<in> set (db_outbox d)"
  shows "events_by_id (ob_event_id e) d = [e]"
  using filter_key_unique [of ob_event_id "db_outbox d" e] assms by (simp add: events_by_id_def constraints_ok_def)

lemma settled_rows:
  assumes s: "settled p event s d x" and c: "constraints_ok x"
    and e: "event \<in> set (db_outbox d)" and p: "payments_by_id (ob_aggregate_id event) d = [p]"
  shows "\<exists>e' p'. events_by_id (ob_event_id event) x = [e'] \<and> ob_aggregate_id e' = ob_aggregate_id event \<and>
    ob_status e' = st_delivery s \<and> ob_attempts e' = st_attempts s \<and>
    payments_by_id (ob_aggregate_id event) x = [p'] \<and> p_status p' = st_status s"
proof -
  from s obtain p' e' evs where x: "x = d\<lparr>db_payments := map (\<lambda>q. if p_payment_id q = p_payment_id p then p' else q) (db_payments d),
      db_outbox := map (\<lambda>e. if ob_event_id e = ob_event_id event then e' else e) (db_outbox d) @ evs\<rparr>"
    and p': "p_core p' = p_core p" "p_status p' = st_status s"
    and e': "ob_core e' = ob_core event" "ob_status e' = st_delivery s" "ob_attempts e' = st_attempts s"
    by (auto simp: settled_def)
  have "p \<in> set (payments_by_id (ob_aggregate_id event) d)" using p by simp
  then have pd: "p \<in> set (db_payments d)" "p_payment_id p = ob_aggregate_id event" by (auto simp: payments_by_id_def)
  have ids: "p_payment_id p' = ob_aggregate_id event" "ob_event_id e' = ob_event_id event"
    "ob_aggregate_id e' = ob_aggregate_id event"
    using p_core_eqD(1) [OF p'(1)] ob_core_eqD [OF e'(1)] pd(2) by auto
  have "p' \<in> set (db_payments x)" "e' \<in> set (db_outbox x)" using pd(1) e by (auto simp: x image_iff)
  moreover have "distinct (map p_payment_id (db_payments x))" using c by (simp add: constraints_ok_def)
  ultimately have "payments_by_id (ob_aggregate_id event) x = [p']" "events_by_id (ob_event_id event) x = [e']"
    using filter_key_unique [of p_payment_id "db_payments x" p'] events_by_id_row [OF c, of e'] ids
    by (simp_all add: payments_by_id_def)
  then show ?thesis using p' e' ids by blast
qed

text \<open>Where an event stands after \<open>n\<close> attempts, \<open>m\<close> being allowed and \<open>a\<close> used up before.\<close>

definition standing :: "int \<Rightarrow> int \<Rightarrow> uuid \<Rightarrow> uuid \<Rightarrow> nat \<Rightarrow> database \<Rightarrow> bool" where
  "standing m a eid pid n d \<longleftrightarrow> constraints_ok d \<and> (\<exists>e q. events_by_id eid d = [e] \<and> ob_aggregate_id e = pid \<and>
     payments_by_id pid d = [q] \<and>
     (if ob_status e = OB_PENDING then ob_attempts e = a + int n \<and> (n = 0 \<or> a + int n < m)
      else 0 < n \<and> int n \<le> max 1 (m - a) \<and> p_status q \<in> {CONFIRMED, FAILED}))"

lemma handled_standing:
  fixes env :: "'e outside"
  assumes env: "alone env" and s: "standing (ws_max_event_attempts ws) a eid pid n x" and h: "handled env ws eid x y"
  shows "standing (ws_max_event_attempts ws) a eid pid (Suc n) y"
proof -
  from h obtain w event w' where w: "w_db w = x" "w_pending w = []"
    and e: "event \<in> set (db_outbox x)" "ob_event_id event = eid" "ob_status event = OB_PENDING"
    and run: "process_event env ws event (w :: 'e proc_world) = (Inr (), w')" and y: "w_db w' = y"
    by (auto simp: handled_def)
  from s obtain q where c: "constraints_ok x" and agg: "ob_aggregate_id event = pid" and q: "payments_by_id pid x = [q]"
    and att: "ob_attempts event = a + int n" "n = 0 \<or> a + int n < ws_max_event_attempts ws"
    using events_by_id_row [of x event] e by (auto simp: standing_def)
  let ?s = "settlement (ws_max_event_attempts ws) (ob_attempts event) (p_last_error q)"
  from event_settles [OF env, of w event q ws "Inr ()" w'] c w e q agg run obtain outcome where
    "settled q event (?s outcome) x y" "constraints_ok y" by (auto simp: y)
  from settled_rows [OF this e(1)] q agg obtain e' p' where
    rows: "events_by_id eid y = [e']" "ob_aggregate_id e' = pid" "payments_by_id pid y = [p']"
      "ob_status e' = st_delivery (?s outcome)" "ob_attempts e' = st_attempts (?s outcome)" "p_status p' = st_status (?s outcome)"
    and c': "constraints_ok y" using e(2) \<open>constraints_ok y\<close> by auto
  have "if st_delivery (?s outcome) = OB_PENDING
      then st_attempts (?s outcome) = a + int (Suc n) \<and> a + int (Suc n) < ws_max_event_attempts ws
      else st_status (?s outcome) \<in> {CONFIRMED, FAILED}"
    using att by (auto simp: settlement_def split: sum.split option.split prod.split)
  moreover have "int (Suc n) \<le> max 1 (ws_max_event_attempts ws - a)" using att(2) by auto
  ultimately show ?thesis using rows c' by (auto simp: standing_def split: if_splits)
qed

lemma elsewhere_standing:
  assumes "standing m a eid pid n x" and "elsewhere eid x y"
  shows "standing m a eid pid n y"
proof -
  from assms(1) obtain e q where "events_by_id eid x = [e]" "ob_aggregate_id e = pid" "payments_by_id pid x = [q]"
    and st: "if ob_status e = OB_PENDING then ob_attempts e = a + int n \<and> (n = 0 \<or> a + int n < m)
      else 0 < n \<and> int n \<le> max 1 (m - a) \<and> p_status q \<in> {CONFIRMED, FAILED}" by (auto simp: standing_def)
  then have "events_by_id eid y = [e]" "payments_by_id pid y = [q]" "constraints_ok y" "ob_aggregate_id e = pid"
    using assms(2) by (auto simp: elsewhere_def)
  then show ?thesis using st unfolding standing_def by blast
qed

lemma attempted_standing:
  assumes "attempted env ws eid d n d'" and env: "alone env" and "standing (ws_max_event_attempts ws) a eid pid 0 d"
  shows "standing (ws_max_event_attempts ws) a eid pid n d'"
  using assms(1,3)
proof (induction rule: attempted.induct)
  case (attempt n x y)
  then show ?case using handled_standing [OF env] by blast
next
  case (other n x y)
  then show ?case using elsewhere_standing by blast
qed simp

end
