(* ===== verification/Fanout.thy ===== *)
theory Fanout
  imports Alone
begin

text \<open>
  The fan-out of outcome events to the event bus: what one publication leaves in the outbox, and a
  whole batch of them, with no other session.  \<open>fanned m (accepted, next)\<close> is the row of an event
  after the bus has accepted it or not, when \<open>m\<close> attempts are allowed.
\<close>

definition fanned :: "int \<Rightarrow> (string + unit) \<times> moment \<Rightarrow> outbox_row \<Rightarrow> outbox_row" where
  "fanned m answer x = (case answer of
       (Inr _, next) \<Rightarrow> x\<lparr>ob_status := OB_SENT\<rparr>
     | (Inl _, next) \<Rightarrow>
         if m \<le> ob_attempts x + 1 then x\<lparr>ob_status := OB_FAILED, ob_attempts := ob_attempts x + 1\<rparr>
         else x\<lparr>ob_attempts := ob_attempts x + 1, ob_next_attempt_at := next\<rparr>)"

text \<open>The time of the next attempt: a backoff delay, of some draw, after some reading of the clock.\<close>

definition retry_time :: "int \<Rightarrow> moment \<Rightarrow> bool" where
  "retry_time attempts next \<longleftrightarrow>
     (\<exists>now u. next = now + micros (backoff_delay attempts (1 / 2) 5 (1 / 4) u))"

text \<open>The answer to an event is one the bus gives to this event.\<close>

definition answered :: "'e outside \<Rightarrow> outbox_row \<Rightarrow> (string + unit) \<times> moment \<Rightarrow> bool" where
  "answered env event answer \<longleftrightarrow>
     (\<exists>s t. o_publish env event s = (fst answer, t)) \<and> retry_time (ob_attempts event + 1) (snd answer)"

text \<open>
  \<open>calls\<close> reads off the outside which events the bus has been asked to publish, oldest first: a publication
  adds its event, whatever the answer, and the clocks and draws add nothing.
\<close>

definition logs_publications :: "('e \<Rightarrow> outbox_row list) \<Rightarrow> 'e outside \<Rightarrow> bool" where
  "logs_publications calls env \<longleftrightarrow>
     (\<forall>event e. calls (snd (o_publish env event e)) = calls e @ [event]) \<and> (\<forall>e. calls (snd (o_perf_counter env e)) = calls e) \<and>
     (\<forall>e. calls (snd (o_random env e)) = calls e) \<and> (\<forall>e. calls (snd (o_now env e)) = calls e)"

lemma logs_steps:
  assumes "logs_publications calls env"
  shows "o_publish env event e = (a, e') \<Longrightarrow> calls e' = calls e @ [event]" "o_perf_counter env e = (t, e') \<Longrightarrow> calls e' = calls e"
    "o_random env e = (u, e') \<Longrightarrow> calls e' = calls e" "o_now env e = (t, e') \<Longrightarrow> calls e' = calls e"
  using assms unfolding logs_publications_def by (metis snd_conv)+

lemma fanned_keys [simp]:
  "ob_event_id (fanned m a x) = ob_event_id x" "ob_event_type (fanned m a x) = ob_event_type x"
  "ob_aggregate_id (fanned m a x) = ob_aggregate_id x" "ob_created_at (fanned m a x) = ob_created_at x"
  by (simp_all add: fanned_def split: prod.splits sum.splits)

lemma same_event:
  assumes "constraints_ok d" and "event \<in> set (db_outbox d)"
    and "\<And>x. ob_attempts x = ob_attempts event \<Longrightarrow> g x = h x"
  shows "update_outbox (\<lambda>x. ob_event_id x = ob_event_id event) g d =
    update_outbox (\<lambda>x. ob_event_id x = ob_event_id event) h d"
proof -
  have "x = event" if "x \<in> set (db_outbox d)" "ob_event_id x = ob_event_id event" for x
    using assms(1,2) that by (auto simp: constraints_ok_def distinct_map dest: inj_onD)
  then show ?thesis using assms(3) unfolding update_outbox_def by (intro arg_cong [of _ _ "\<lambda>xs. d\<lparr>db_outbox := xs\<rparr>"] map_cong) auto
qed

text \<open>
  \<open>staged_answer\<close>: the write that a publication leaves pending before its commit, for the answer it got.
\<close>

definition staged_answer ::
  "worker_settings \<Rightarrow> outbox_row \<Rightarrow> (string + unit) \<times> moment \<Rightarrow> ('e, 'm) world_scheme \<Rightarrow> ('e, 'm) world_scheme \<Rightarrow> bool" where
  "staged_answer ws event answer w u \<longleftrightarrow> w_db u = w_db w \<and>
     (\<exists>g. w_pending u = [update_outbox (\<lambda>x. ob_event_id x = ob_event_id event) g] \<and>
        (\<forall>x. ob_attempts x = ob_attempts event \<longrightarrow> g x = fanned (ws_max_event_attempts ws) answer x))"

lemma commit_answer:
  assumes env: "alone env" and c: "constraints_ok (w_db w)" and e: "event \<in> set (db_outbox (w_db w))"
    and "staged_answer ws event answer w u"
  shows "\<exists>u'. db_commit env u = (Inr (), u') \<and> w_out u' = w_out u \<and> w_pending u' = [] \<and>
    w_db u' = update_outbox (\<lambda>x. ob_event_id x = ob_event_id event) (fanned (ws_max_event_attempts ws) answer) (w_db w)"
    (is "\<exists>u'. _ \<and> _ \<and> _ \<and> w_db u' = ?d")
proof -
  from assms(4) obtain g where u: "w_db u = w_db w" "w_pending u = [update_outbox (\<lambda>x. ob_event_id x = ob_event_id event) g]"
    and g: "\<And>x. ob_attempts x = ob_attempts event \<Longrightarrow> g x = fanned (ws_max_event_attempts ws) answer x"
    by (auto simp: staged_answer_def)
  have "db_view u = ?d" using u same_event [OF c e g] by (simp add: db_view_def)
  moreover have "constraints_ok ?d" by (rule constraints_update_outbox [OF c]) simp
  ultimately show ?thesis by (simp add: alone_commit [OF env])
qed

lemmas publication_defs = publish_fanout_event_def publish_def mark_sent_def handle_fanout_failure_def
  mark_event_failed_def exponential_backoff_def reschedule_def Let_def bindM_def try_else_def catch_def outside_def

text \<open>The two kinds of answers, up to the commit.\<close>

lemma publish_accepted:
  fixes w :: "('e, 'm) world_scheme"
  assumes env: "alone env" and p: "w_pending w = []" and start: "o_perf_counter env (w_out w) = (start, s)"
    and answer: "o_publish env event s = (Inr (), t)"
  shows "\<exists>stop u. publish_fanout_event env ws event w = db_commit env u \<and> staged_answer ws event (Inr (), next) w u \<and>
    o_perf_counter env t = (stop, w_out u)"
proof -
  obtain stop t' where stop: "o_perf_counter env t = (stop, t')" by (metis prod.exhaust)
  define u where "u = w\<lparr>w_out := t', w_telemetry := w_telemetry w @ [HistogramRecord ''payments_processor_fanout_publish_latency_ms''
      (stop - start) [(''event_type'', event_type_value (ob_event_type event))]],
    w_pending := [update_outbox (\<lambda>x. ob_event_id x = ob_event_id event) (ob_status_update (\<lambda>_. OB_SENT))]\<rparr>"
  have "publish_fanout_event env ws event w = db_commit env u"
    using start answer stop p by (cases w) (simp add: publication_defs alone_update_outbox [OF env] u_def)
  moreover have "staged_answer ws event (Inr (), next) w u" by (auto simp: staged_answer_def u_def fanned_def)
  ultimately show ?thesis using stop by (intro exI [of _ stop] exI [of _ u]) (simp add: u_def)
qed

definition failure_log :: "outbox_row \<Rightarrow> string \<Rightarrow> int \<Rightarrow> telemetry list" where
  "failure_log event msg latency =
     (let attributes = [(''event_type'', event_type_value (ob_event_type event))] in
      [CounterAdd ''payments_processor_fanout_publish_errors'' attributes,
       LogLine ''event_fanout_publish_failed'' [(''event_id'', PStr (ob_event_id event)),
         (''event_type'', PStr (event_type_value (ob_event_type event))),
         (''error_type'', PStr (exception_name (PublishError msg)))],
       HistogramRecord ''payments_processor_fanout_publish_latency_ms'' latency attributes])"

lemma publish_refused:
  fixes w :: "('e, 'm) world_scheme"
  assumes env: "alone env" and p: "w_pending w = []" and start: "o_perf_counter env (w_out w) = (start, s)"
    and answer: "o_publish env event s = (Inl msg, t)" and draw: "o_random env t = (draw, t1)" and now: "o_now env t1 = (now, t2)"
  shows "\<exists>stop u. publish_fanout_event env ws event w = db_commit env u \<and>
    staged_answer ws event (Inl msg, now + micros (backoff_delay (ob_attempts event + 1) (1 / 2) 5 (1 / 4) draw)) w u \<and>
    o_perf_counter env (if ws_max_event_attempts ws \<le> ob_attempts event + 1 then t else t2) = (stop, w_out u)"
proof -
  let ?last = "ws_max_event_attempts ws \<le> ob_attempts event + 1" and ?n = "ob_attempts event + 1"
  let ?next = "now + micros (backoff_delay ?n (1 / 2) 5 (1 / 4) draw)"
  let ?g = "\<lambda>x. if ?last then x\<lparr>ob_status := OB_FAILED, ob_attempts := ?n\<rparr> else x\<lparr>ob_attempts := ?n, ob_next_attempt_at := ?next\<rparr>"
  obtain stop t' where stop: "o_perf_counter env (if ?last then t else t2) = (stop, t')" by (metis prod.exhaust)
  define u where "u = w\<lparr>w_out := t', w_telemetry := w_telemetry w @ failure_log event msg (stop - start),
    w_pending := [update_outbox (\<lambda>x. ob_event_id x = ob_event_id event) ?g]\<rparr>"
  have "publish_fanout_event env ws event w = db_commit env u"
    using start answer draw now stop p
    by (cases w; cases ?last) (simp_all add: publication_defs alone_update_outbox [OF env] u_def failure_log_def)
  moreover have "staged_answer ws event (Inl msg, ?next) w u" by (auto simp: staged_answer_def u_def fanned_def)
  ultimately show ?thesis using stop by (intro exI [of _ stop] exI [of _ u]) (simp add: u_def)
qed

lemma publish_alone:
  fixes w :: "('e, 'm) world_scheme"
  assumes env: "alone env" and c: "constraints_ok (w_db w)" and p: "w_pending w = []"
    and e: "event \<in> set (db_outbox (w_db w))" and l: "logs_publications calls env"
  shows "\<exists>answer w'. publish_fanout_event env ws event w = (Inr (), w') \<and> answered env event answer \<and>
    calls (w_out w') = calls (w_out w) @ [event] \<and> w_pending w' = [] \<and>
    w_db w' = update_outbox (\<lambda>x. ob_event_id x = ob_event_id event) (fanned (ws_max_event_attempts ws) answer) (w_db w)"
proof -
  obtain start s where start: "o_perf_counter env (w_out w) = (start, s)" by (metis prod.exhaust)
  obtain accepted t where answer: "o_publish env event s = (accepted, t)" by (metis prod.exhaust)
  obtain draw t1 where draw: "o_random env t = (draw, t1)" by (metis prod.exhaust)
  obtain now t2 where now: "o_now env t1 = (now, t2)" by (metis prod.exhaust)
  let ?next = "now + micros (backoff_delay (ob_attempts event + 1) (1 / 2) 5 (1 / 4) draw)"
  have a: "answered env event (accepted, ?next)" using answer by (auto simp: answered_def retry_time_def)
  have called: "calls x = calls (w_out w) @ [event]" if "x = t \<or> x = t2" for x
    using that logs_steps [OF l] start answer draw now by metis
  obtain stop u x where u: "publish_fanout_event env ws event w = db_commit env u" "staged_answer ws event (accepted, ?next) w u"
    and x: "x = t \<or> x = t2" "o_perf_counter env x = (stop, w_out u)"
  proof (cases accepted)
    case (Inl msg)
    then show thesis using that publish_refused [OF env p start answer [unfolded Inl] draw now, of ws] by (auto split: if_splits)
  next
    case (Inr a)
    then show thesis using that publish_accepted [OF env p start, of event t ws ?next] answer by auto
  qed
  have "calls (w_out u) = calls (w_out w) @ [event]" using logs_steps(2) [OF l x(2)] called [OF x(1)] by simp
  then show ?thesis using commit_answer [OF env c e u(2)] a u(1) by (metis (no_types, lifting))
qed

section \<open>A batch\<close>

text \<open>\<open>settle_batch m events outcomes\<close>: each event of the batch by its own answer, every other row as it was.\<close>

definition settle_batch :: "int \<Rightarrow> outbox_row list \<Rightarrow> ((string + unit) \<times> moment) list \<Rightarrow> database \<Rightarrow> database" where
  "settle_batch m events outcomes d =
     d\<lparr>db_outbox := map (\<lambda>x. case map_of (zip (map ob_event_id events) outcomes) (ob_event_id x) of
          None \<Rightarrow> x | Some answer \<Rightarrow> fanned m answer x) (db_outbox d)\<rparr>"

lemma settle_batch_Nil [simp]: "settle_batch m [] outcomes d = d"
  by (simp add: settle_batch_def)

lemma settle_batch_Cons:
  assumes "ob_event_id event \<notin> ob_event_id ` set events" and "length events = length outcomes"
  shows "settle_batch m (event # events) (answer # outcomes) d =
    settle_batch m events outcomes (update_outbox (\<lambda>x. ob_event_id x = ob_event_id event) (fanned m answer) d)"
proof -
  have "map_of (zip (map ob_event_id events) outcomes) (ob_event_id event) = None"
    using assms by (simp add: map_of_zip_is_None)
  then show ?thesis by (simp add: settle_batch_def update_outbox_def)
qed

lemma fanout_loop:
  fixes w :: "('e, 'm) world_scheme"
  assumes env: "alone env" and l: "logs_publications calls env" and "constraints_ok (w_db w)" and "w_pending w = []"
    and "distinct (map ob_event_id events)" and "set events \<subseteq> set (db_outbox (w_db w))"
  shows "\<exists>outcomes w'. forM events (publish_fanout_event env ws) w = (Inr (), w') \<and> list_all2 (answered env) events outcomes \<and>
    calls (w_out w') = calls (w_out w) @ events \<and> w_pending w' = [] \<and> w_db w' = settle_batch (ws_max_event_attempts ws) events outcomes (w_db w)"
  using assms(3-)
proof (induction events arbitrary: w)
  case Nil
  then show ?case by simp
next
  case (Cons event events)
  let ?m = "ws_max_event_attempts ws"
  obtain answer u where run: "publish_fanout_event env ws event w = (Inr (), u)" and a: "answered env event answer"
    and u_calls: "calls (w_out u) = calls (w_out w) @ [event]" and u: "w_pending u = []" "w_db u = update_outbox (\<lambda>x. ob_event_id x = ob_event_id event) (fanned ?m answer) (w_db w)"
    using publish_alone [OF env Cons.prems(1,2) _ l, of event ws] Cons.prems(4) by auto
  have c: "constraints_ok (w_db u)" unfolding u(2) by (rule constraints_update_outbox [OF Cons.prems(1)]) simp
  have new: "ob_event_id event \<notin> ob_event_id ` set events" using Cons.prems(3) by auto
  have "set events \<subseteq> set (db_outbox (w_db u))"
  proof
    fix x assume x: "x \<in> set events"
    then have "ob_event_id x \<noteq> ob_event_id event" using new by (metis imageI)
    moreover have "x \<in> set (db_outbox (w_db w))" using x Cons.prems(4) by auto
    ultimately show "x \<in> set (db_outbox (w_db u))" by (auto simp: u(2) image_iff intro: bexI [of _ x])
  qed
  with Cons.IH [OF c u(1)] Cons.prems(3) obtain outcomes w' where rest: "forM events (publish_fanout_event env ws) u = (Inr (), w')"
      "list_all2 (answered env) events outcomes" "w_pending w' = []" "calls (w_out w') = calls (w_out u) @ events" "w_db w' = settle_batch ?m events outcomes (w_db u)" by auto
  have "forM (event # events) (publish_fanout_event env ws) w = (Inr (), w')" using run rest(1) by (simp add: bindM_def)
  moreover have "w_db w' = settle_batch ?m (event # events) (answer # outcomes) (w_db w)"
    using settle_batch_Cons [OF new list_all2_lengthD [OF rest(2)], of ?m answer "w_db w"] rest(5) u(2) by simp
  moreover have "calls (w_out w') = calls (w_out w) @ event # events" using rest(4) u_calls by simp
  ultimately show ?case using a rest(2,3) by (intro exI [of _ "answer # outcomes"] exI [of _ w']) simp
qed

lemma fanout_alone:
  fixes w :: "('e, 'm) world_scheme"
  assumes env: "alone env" and c: "constraints_ok (w_db w)" and p: "w_pending w = []" and l: "logs_publications calls env" and on: "ws_publisher_enabled ws"
  shows "\<exists>now outcomes w'. publish_fanout_events env ws w = (Inr (), w') \<and> w_pending w' = [] \<and>
    calls (w_out w') = calls (w_out w) @ pending_fanout_stmt now (ws_batch_size ws) (w_db w) \<and>
    list_all2 (answered env) (pending_fanout_stmt now (ws_batch_size ws) (w_db w)) outcomes \<and>
    w_db w' = settle_batch (ws_max_event_attempts ws) (pending_fanout_stmt now (ws_batch_size ws) (w_db w)) outcomes (w_db w)"
proof -
  obtain now e where now: "o_now env (w_out w) = (now, e)" by (metis prod.exhaust)
  let ?es = "pending_fanout_stmt now (ws_batch_size ws) (w_db w)"
  let ?w = "w\<lparr>w_out := e, w_telemetry := w_telemetry w @ [HistogramRecord ''payments_processor_fanout_backlog'' (int (length ?es)) []]\<rparr>"
  have ids: "distinct (map ob_event_id (db_outbox (w_db w)))" using c by (simp add: constraints_ok_def)
  have "distinct (map ob_event_id (sort_key ob_created_at (pending_of is_fanout_type now (w_db w))))"
    using ids by (simp add: distinct_map pending_of_def inj_on_def)
  then have d: "distinct (map ob_event_id ?es)" unfolding pending_fanout_stmt_def take_map [symmetric] by (rule distinct_take)
  have s: "set ?es \<subseteq> set (db_outbox (w_db w))" by (auto simp: pending_fanout_stmt_def pending_of_def dest: in_set_takeD)
  have "publish_fanout_events env ws w = forM ?es (publish_fanout_event env ws) ?w"
    using now on p by (cases w) (simp add: publish_fanout_events_def fetch_pending_fanout_events_def bindM_def outside_def alone_select [OF env] db_view_def)
  moreover have "calls e = calls (w_out w)" by (rule logs_steps(4) [OF l now])
  ultimately show ?thesis using fanout_loop [OF env l, of ?w ?es ws] c p d s by fastforce
qed

end
