(* ===== verification/Offline.thy ===== *)
theory Offline
  imports CreatePayment MemoryOutside
begin

text \<open>
  The services when Redis does not answer.  \<open>offline env e now\<close>: at the outside state \<open>e\<close> every
  Redis command the services use fails and leaves the outside as it is, the clock shows \<open>now\<close>, and no
  other session commits.  Each service then is a function of the tables, written here as a
  reference definition without state, and its run is shown to be that function.
\<close>

definition offline :: "'e outside \<Rightarrow> 'e \<Rightarrow> moment \<Rightarrow> bool" where
  "offline env e now \<longleftrightarrow>
     o_now env e = (now, e) \<and> (\<exists>t. o_perf_counter env e = (t, e)) \<and>
     (\<forall>d. o_interfere env d e = (d, e)) \<and>
     (\<exists>m. (\<forall>k. o_get env k e = (Inl m, e)) \<and> (\<forall>k v t. o_set env k v t e = (Inl m, e)) \<and>
       (\<forall>k v t. o_set_nx env k v t e = (Inl m, e)) \<and> (\<forall>k. o_incr env k e = (Inl m, e)) \<and>
       (\<forall>k v. o_lpush env k v e = (Inl m, e)) \<and> (\<forall>k i j. o_lrange env k i j e = (Inl m, e)) \<and>
       (\<forall>k i j. o_zremrangebyscore env k i j e = (Inl m, e)))"

lemma offline_memory: "mm_redis_down e \<Longrightarrow> offline memory_outside e (mm_now e)"
  by (auto simp: offline_def up_def) (simp add: memory_outside_def up_def)+

lemma offline_simps:
  assumes "offline env (w_out w) now"
  shows "outside (o_now env) w = (Inr now, w)"
    and "interfere env w = (Inr (), w)"
    and "db_select env q w = (Inr (q (db_view w)), w)"
proof -
  show i: "interfere env w = (Inr (), w)" using assms by (simp add: offline_def interfere_def)
  show "outside (o_now env) w = (Inr now, w)" using assms by (simp add: offline_def outside_def)
  show "db_select env q w = (Inr (q (db_view w)), w)" by (simp add: db_select_def bindM_def i)
qed

lemma offline_redis:
  assumes "offline env (w_out w) now"
  obtains m where "\<And>k. redis (o_get env k) w = (Inl (RedisError m), w)"
    and "\<And>k v t. redis (o_set env k v t) w = (Inl (RedisError m), w)"
    and "\<And>k v t. redis (o_set_nx env k v t) w = (Inl (RedisError m), w)"
    and "\<And>k. redis (o_incr env k) w = (Inl (RedisError m), w)"
    and "\<And>k v. redis (o_lpush env k v) w = (Inl (RedisError m), w)"
    and "\<And>k i j. redis (o_lrange env k i j) w = (Inl (RedisError m), w)"
    and "\<And>k i j. redis (o_zremrangebyscore env k i j) w = (Inl (RedisError m), w)"
  using assms by (auto simp: offline_def redis_def)

section \<open>Limits\<close>

definition policy_from_tables :: "payment_method \<Rightarrow> database \<Rightarrow> exn + limits_policy_dto" where
  "policy_from_tables rail d =
     (case limits_by_rail rail d of
        [] \<Rightarrow> Inl (ValidationAppError (''Missing limits policy for rail '' @ method_value rail))
      | [row] \<Rightarrow> Inr (policy_of_row row)
      | _ \<Rightarrow> Inl MultipleResultsFound)"

definition limits_from_tables ::
  "moment \<Rightarrow> string \<Rightarrow> payment_method \<Rightarrow> decimal \<Rightarrow> database \<Rightarrow> exn + limits_evaluation" where
  "limits_from_tables now cid rail amount d =
     (case policy_from_tables rail d of
        Inl x \<Rightarrow> Inl x
      | Inr policy \<Rightarrow>
          if dec_lt amount (lp_min_amount policy)
          then Inl (LimitExceededError (''Amount below min limit for '' @ method_value (lp_rail policy)))
          else if dec_lt (lp_max_amount policy) amount
          then Inl (LimitExceededError (''Amount above max limit for '' @ method_value (lp_rail policy)))
          else if dec_lt (lp_daily_limit_amount policy)
                    (dec_add (sum_outgoing_stmt cid rail (utc_day_start now) d) amount)
          then Inl (daily_limit_exceeded rail)
          else let n = count_outgoing_stmt cid rail (now - lp_velocity_window_seconds policy * second) d
               in if lp_velocity_limit_count policy \<le> n then Inl (velocity_limit_exceeded rail)
                  else Inr \<lparr>le_policy = policy, le_velocity_count = n + 1\<rparr>)"

lemma policy_offline:
  assumes "offline env (w_out w) now"
  shows "get_policy env ttl rail w = (policy_from_tables rail (db_view w), w)"
proof -
  note q = offline_simps [OF assms]
  obtain m where r: "\<And>k. redis (o_get env k) w = (Inl (RedisError m), w)"
    "\<And>k v t. redis (o_set env k v t) w = (Inl (RedisError m), w)"
    using offline_redis [OF assms] by metis
  have c: "cached_policy env rail w = (Inr None, w)"
    by (simp add: cached_policy_def catch_if_def catch_def bindM_def r)
  have s: "catch_if is_redis_error (redis (o_set env k v t)) (\<lambda>_. ret ()) w = (Inr (), w)" for k v t
    by (simp add: catch_if_def catch_def r(2))
  show ?thesis
    by (auto simp: get_policy_def bindM_def c get_by_rail_def q s policy_from_tables_def Let_def
        scalar_one_or_none_def split: list.splits)
qed

lemma daily_offline:
  assumes "offline env (w_out w) now"
  shows "enforce_daily_limit env cid rail amount policy w =
    (if dec_lt (lp_daily_limit_amount policy)
          (dec_add (sum_outgoing_stmt cid rail (utc_day_start now) (db_view w)) amount)
     then Inl (daily_limit_exceeded rail) else Inr (), w)"
proof -
  note q = offline_simps [OF assms]
  obtain m where r: "\<And>k. redis (o_get env k) w = (Inl (RedisError m), w)"
    using offline_redis [OF assms] by metis
  have g: "redis_get_int env k w = (Inl (RedisError m), w)" for k
    by (simp add: redis_get_int_def bindM_def r)
  have s: "reserve_daily env k rail c l w = (Inr False, w)" for k c l
    by (simp add: reserve_daily_def catch_if_def catch_def bindM_def g)
  show ?thesis
    by (simp add: enforce_daily_limit_def bindM_def q s sum_outgoing_since_def)
qed

lemma velocity_offline:
  assumes "offline env (w_out w) now"
  shows "enforce_velocity_limit env cid rail policy w =
    (let n = count_outgoing_stmt cid rail (now - lp_velocity_window_seconds policy * second) (db_view w)
     in if lp_velocity_limit_count policy \<le> n then Inl (velocity_limit_exceeded rail) else Inr (n + 1), w)"
proof -
  note q = offline_simps [OF assms]
  obtain m where r: "\<And>k i j. redis (o_zremrangebyscore env k i j) w = (Inl (RedisError m), w)"
    using offline_redis [OF assms] by metis
  have s: "slide_window env k rail policy t u w = (Inr None, w)" for k t u
    by (simp add: slide_window_def catch_if_def catch_def bindM_def r)
  show ?thesis
    by (simp add: enforce_velocity_limit_def bindM_def q s count_outgoing_since_def Let_def)
qed

lemma limits_offline:
  assumes "offline env (w_out w) now"
  shows "limits_enforce env ttl cid rail amount w = (limits_from_tables now cid rail amount (db_view w), w)"
  by (auto simp: limits_enforce_def bindM_def policy_offline [OF assms] daily_offline [OF assms]
      velocity_offline [OF assms] limits_from_tables_def enforce_transaction_amount_def from_result_def
      Let_def split: sum.splits)

section \<open>Rate limits, the lock and AML\<close>

lemma rate_offline:
  assumes "offline env (w_out w) now"
  shows "rate_enforce env rl m c a w = (Inr (), w)"
proof -
  note q = offline_simps [OF assms]
  obtain msg where r: "\<And>k. o_incr env k (w_out w) = (Inl msg, w_out w)"
    using assms by (auto simp: offline_def)
  have "rate_allow env rl d v b l w = (Inr True, w)" for d v b l
    using rate_allow_redis_down [OF r] by simp
  then show ?thesis by (simp add: rate_enforce_def bindM_def q rate_checks_def Let_def)
qed

definition aml_from_tables ::
  "aml_engine \<Rightarrow> moment \<Rightarrow> string \<Rightarrow> payment_method \<Rightarrow> decimal \<Rightarrow> string option \<Rightarrow> limits_policy_dto \<Rightarrow>
   database \<Rightarrow> aml_decision" where
  "aml_from_tables ae now cid rail amount destination policy d =
     (let total = sum_outgoing_stmt cid rail (now - ae_total_window_seconds ae * second) d;
          low = dec_mul (lp_max_amount policy) dec_95;
          near = count_near_stmt cid rail (now - ae_structuring_window_seconds ae * second) low
            (lp_max_amount policy) d + (if dec_le low amount then 1 else 0)
      in if destination \<noteq> None \<and> destination \<noteq> Some [] \<and>
            the destination \<in> set (ae_blocklist_destinations ae) then AML_BLOCK
         else if dec_lt (ae_total_threshold_amount ae) (dec_add total amount) then AML_REVIEW
         else if ae_structuring_count_threshold ae \<le> near then AML_REVIEW
         else AML_ALLOW)"

lemma history_offline:
  assumes "offline env (w_out w) now"
  shows "read_history_entries env k w = (Inr None, w)"
proof -
  obtain m where r: "\<And>k i j. redis (o_lrange env k i j) w = (Inl (RedisError m), w)"
    using offline_redis [OF assms] by metis
  show ?thesis by (simp add: read_history_entries_def catch_if_def catch_def bindM_def r)
qed

lemma aml_offline:
  assumes "offline env (w_out w) now"
  shows "aml_evaluate env ae cid rail amount destination policy w =
    (Inr (aml_from_tables ae now cid rail amount destination policy (db_view w)), w)"
proof -
  note q = offline_simps [OF assms] history_offline [OF assms]
  have t: "total_outgoing_recent env ae cid rail w =
      (Inr (sum_outgoing_stmt cid rail (now - ae_total_window_seconds ae * second) (db_view w)), w)"
    by (simp add: total_outgoing_recent_def bindM_def q sum_outgoing_since_def)
  have n: "near_threshold_count env ae cid rail m w =
      (Inr (count_near_stmt cid rail (now - ae_structuring_window_seconds ae * second) (dec_mul m dec_95) m
         (db_view w)), w)" for m
    by (simp add: near_threshold_count_def bindM_def q count_near_threshold_since_def Let_def)
  show ?thesis
    by (cases destination)
       (simp_all add: aml_evaluate_def aml_from_tables_def bindM_def t n Let_def)
qed

lemma record_offline:
  assumes "offline env (w_out w) now"
  shows "record_outgoing env ae cid rail amount w = (Inr (), w)"
proof -
  note q = offline_simps [OF assms]
  obtain m where r: "\<And>k v. redis (o_lpush env k v) w = (Inl (RedisError m), w)"
    using offline_redis [OF assms] by metis
  show ?thesis by (simp add: record_outgoing_def bindM_def q Let_def catch_if_def catch_def r)
qed

section \<open>The decision of a creation\<close>

definition risk_from_tables ::
  "risk_service \<Rightarrow> moment \<Rightarrow> customer_row \<Rightarrow> decimal \<Rightarrow> limits_policy_dto \<Rightarrow> int \<Rightarrow> string option \<Rightarrow>
   database \<Rightarrow> int \<times> risk_decision" where
  "risk_from_tables svc now customer amount policy velocity_count destination d =
     (let seen = (case destination of None \<Rightarrow> False
            | Some dest \<Rightarrow> dest \<noteq> [] \<and> destination_rows (cu_customer_id customer) dest d \<noteq> []);
          score = risk_total
            \<lparr>rc_amount = amount, rc_policy_max = lp_max_amount policy, rc_velocity_count = velocity_count,
             rc_velocity_limit = lp_velocity_limit_count policy,
             rc_repeated_failures = count_failures_stmt (cu_customer_id customer) (now - day) d,
             rc_is_new_customer = is_new_customer customer now,
             rc_customer_kyc = cu_kyc_level customer, rc_destination_seen = seen\<rparr>
      in (score, decision_from_score (ri_review_threshold svc) (ri_block_threshold svc) score))"

text \<open>The checks and controls as one function of the tables, from the customer's row on.\<close>

definition decision_from_tables ::
  "create_payment_use_case \<Rightarrow> moment \<Rightarrow> customer_row \<Rightarrow> string \<Rightarrow> create_payment_request \<Rightarrow> database \<Rightarrow>
   exn + control_decision" where
  "decision_from_tables uc now customer cid request d =
     (case kyc_enforce customer (rq_method request) of
        Inl x \<Rightarrow> Inl x
      | Inr _ \<Rightarrow>
          (case limits_from_tables now cid (rq_method request) (rq_amount request) d of
             Inl x \<Rightarrow> Inl x
           | Inr ev \<Rightarrow>
               (let (score, risk) = risk_from_tables (uc_risk uc) now customer (rq_amount request)
                      (le_policy ev) (le_velocity_count ev) (rq_destination request) d;
                    aml = aml_from_tables (uc_aml uc) now cid (rq_method request) (rq_amount request)
                      (rq_destination request) (le_policy ev) d
                in Inr \<lparr>cd_risk_score = score, cd_risk_decision = risk, cd_aml_decision = aml,
                        cd_final_status = resolve_status_from_decisions risk aml\<rparr>)))"

lemma risk_offline:
  assumes "offline env (w_out w) now"
  shows "risk_evaluate env svc customer amount policy n destination w =
    (Inr (risk_from_tables svc now customer amount policy n destination (db_view w)), w)"
proof -
  note q = offline_simps [OF assms]
  have one: "bindM (scalar_one_or_none (destination_rows c dest d)) (\<lambda>r. ret (r \<noteq> None)) w =
      (Inr (destination_rows c dest d \<noteq> []), w)" for c dest d
    by (cases "filter (\<lambda>p. p_customer_id p = c \<and> p_destination p = Some dest) (db_payments d)")
       (simp_all add: destination_rows_def)
  have "destination_seen env c destination w =
      (Inr (case destination of None \<Rightarrow> False
         | Some dest \<Rightarrow> dest \<noteq> [] \<and> destination_rows c dest (db_view w) \<noteq> []), w)" for c
  proof (cases destination)
    case (Some dest)
    have "bindM (db_select env (destination_rows c dest)) (\<lambda>rows.
        bindM (scalar_one_or_none rows) (\<lambda>r. ret (r \<noteq> None))) w =
      (Inr (destination_rows c dest (db_view w) \<noteq> []), w)"
      by (subst bindM_Inr, rule q(3), rule one)
    then show ?thesis using Some by (simp add: destination_seen_def)
  qed (simp add: destination_seen_def)
  then show ?thesis
    by (simp add: risk_evaluate_def bindM_def q count_failures_since_def risk_from_tables_def Let_def)
qed

lemma timed_span_offline:
  assumes "offline env (w_out w) now" and "m w = (r, w)"
  shows "\<exists>t. timed_span env metric attributes m w = (r, w\<lparr>w_telemetry := t\<rparr>)"
proof -
  obtain t where "o_perf_counter env (w_out w) = (t, w_out w)" using assms(1) by (auto simp: offline_def)
  then have "outside (o_perf_counter env) w = (Inr t, w)" by (simp add: outside_def)
  then show ?thesis
    using assms(2) by (auto simp: timed_span_def bindM_def try_else_def Let_def split: sum.splits)
qed

lemma offline_telemetry [simp]: "db_view (w\<lparr>w_telemetry := t\<rparr>) = db_view w"
  by (simp add: db_view_def)

lemma decision_offline:
  assumes off: "offline env (w_out w) now"
  shows "\<exists>t. bindM (run_pre_checks env uc rx request customer) (\<lambda>ev.
      evaluate_controls env uc customer request ev (rx_customer_id rx)) w =
    (decision_from_tables uc now customer (rx_customer_id rx) request (db_view w), w\<lparr>w_telemetry := t\<rparr>)"
proof -
  have off': "offline env (w_out (w\<lparr>w_telemetry := t\<rparr>)) now" for t using off by simp
  let ?rail = "rq_method request" and ?cid = "rx_customer_id rx"
  obtain t1 where kyc: "timed_span env ''kyc_check_duration'' (rail_attributes ?rail)
      (from_result (kyc_enforce customer ?rail)) w = (kyc_enforce customer ?rail, w\<lparr>w_telemetry := t1\<rparr>)"
    using timed_span_offline [OF off, of "from_result (kyc_enforce customer ?rail)"]
    by (force simp: from_result_def split: sum.splits)
  obtain t2 where lim: "timed_span env ''limits_check_duration'' (rail_attributes ?rail)
      (limits_enforce env (uc_limits_cache_ttl uc) ?cid ?rail (rq_amount request)) (w\<lparr>w_telemetry := t1\<rparr>) =
      (limits_from_tables now ?cid ?rail (rq_amount request) (db_view w), w\<lparr>w_telemetry := t2\<rparr>)"
    using timed_span_offline [OF off' [of t1], of "limits_enforce env (uc_limits_cache_ttl uc) ?cid ?rail (rq_amount request)"]
      limits_offline [OF off' [of t1]] by fastforce
  have rate: "rate_enforce env rl m c a (w\<lparr>w_telemetry := t\<rparr>) = (Inr (), w\<lparr>w_telemetry := t\<rparr>)" for rl m c a t
    by (rule rate_offline [OF off'])
  show ?thesis
  proof (cases "kyc_enforce customer ?rail")
    case (Inl x)
    then show ?thesis
      using kyc by (auto simp: run_pre_checks_def enforce_kyc_def catch_if_def catch_def bindM_def
          decision_from_tables_def)
  next
    case ok: (Inr u)
    show ?thesis
    proof (cases "limits_from_tables now ?cid ?rail (rq_amount request) (db_view w)")
      case (Inl x)
      then show ?thesis
        using kyc ok lim by (auto simp: run_pre_checks_def enforce_kyc_def enforce_limits_def catch_if_def
            catch_def bindM_def decision_from_tables_def)
    next
      case (Inr ev)
      obtain score risk where r: "risk_from_tables (uc_risk uc) now customer (rq_amount request)
          (le_policy ev) (le_velocity_count ev) (rq_destination request) (db_view w) = (score, risk)"
        by (metis prod.exhaust)
      show ?thesis
        using kyc ok lim Inr
        by (simp add: run_pre_checks_def enforce_kyc_def enforce_limits_def enforce_rate_limit_def catch_if_def
            catch_def bindM_def decision_from_tables_def rate evaluate_controls_def evaluate_risk_def evaluate_aml_def risk_offline [OF off']
            aml_offline [OF off'] r Let_def)
           blast
    qed
  qed
qed

end
