(* ===== verification/ServiceProperties.thy ===== *)
theory ServiceProperties
  imports Scenario Offline
begin

text \<open>
  The properties of the API's services: limits, rate limits, KYC, risk, AML and the idempotency
  lock.  Those that rest on Redis name the contract of its commands as a locale predicate over
  the outside; the witnesses use its interpretation by the store of \<open>MemoryOutside\<close>.
\<close>

definition offline_world :: "memory world" where
  "offline_world = review_world\<lparr>w_out := idle_memory\<lparr>mm_redis_down := True\<rparr>\<rparr>"

lemma offline_example: "offline memory_outside (w_out offline_world) 5000000"
proof -
  have "mm_redis_down (w_out offline_world)" "mm_now (w_out offline_world) = 5000000"
    by (simp_all add: offline_world_def idle_memory_def)
  from offline_memory [OF this(1)] this(2) show ?thesis by simp
qed

definition pix_policy :: limits_policy_dto where
  "pix_policy = policy_of_row (seed_policy PIX 100 500000 2000000 10)"

section \<open>Limits\<close>

text \<open>
  C15: a payment that passes the limits check has an amount between the minimum and the maximum of the
  policy that was applied, as numbers, and its place in the velocity window is within the limit.
\<close>

theorem limits_passed_within_policy:
  fixes w :: "('e, 'm) world_scheme"
  assumes "limits_enforce env ttl cid rail amount w = (Inr ev, w')"
  shows "dval (lp_min_amount (le_policy ev)) \<le> dval amount \<and>
    dval amount \<le> dval (lp_max_amount (le_policy ev)) \<and>
    le_velocity_count ev \<le> lp_velocity_limit_count (le_policy ev)"
  using limits_enforce_Inr [OF assms] by (simp add: dec_le_val)

lemma limits_passed_within_policy_witness:
  "\<exists>w'. limits_enforce memory_outside 60 ''customer-full-001'' PIX (Dec 1000 (-2)) offline_world
      = (Inr \<lparr>le_policy = pix_policy, le_velocity_count = 2\<rparr>, w') \<and>
    dval (Dec 1000 (-2)) \<le> dval (lp_max_amount pix_policy)"
proof -
  have "limits_from_tables 5000000 ''customer-full-001'' PIX (Dec 1000 (-2)) (db_view offline_world) =
      Inr \<lparr>le_policy = pix_policy, le_velocity_count = 2\<rparr>" by code_simp
  with limits_offline [OF offline_example]
  have "limits_enforce memory_outside 60 ''customer-full-001'' PIX (Dec 1000 (-2)) offline_world
      = (Inr \<lparr>le_policy = pix_policy, le_velocity_count = 2\<rparr>, offline_world)" by simp
  from limits_passed_within_policy [OF this] this show ?thesis by auto
qed

text \<open>
  C17: the limits check refuses with a limit error, a missing policy or a corrupt policy table; no
  Redis error, no malformed counter and no malformed cache entry ever leaves it.
\<close>

theorem limits_errors_contained:
  fixes w :: "('e, 'm) world_scheme"
  assumes "limits_enforce env ttl cid rail amount w = (Inl x, w')"
  shows "(\<exists>m. x = LimitExceededError m) \<or> (\<exists>m. x = ValidationAppError m) \<or> x = MultipleResultsFound"
  using raisesD [OF raises_limits_enforce assms]
  by (cases x) (auto simp: limits_refusal_def is_limit_exceeded_def)

lemma limits_errors_contained_witness:
  "\<exists>x w'. limits_enforce memory_outside 60 ''customer-full-001'' PIX (Dec 1 (-2)) offline_world = (Inl x, w') \<and>
     ((\<exists>m. x = LimitExceededError m) \<or> (\<exists>m. x = ValidationAppError m) \<or> x = MultipleResultsFound)"
proof -
  let ?x = "LimitExceededError ''Amount below min limit for PIX''"
  have "limits_from_tables 5000000 ''customer-full-001'' PIX (Dec 1 (-2)) (db_view offline_world) = Inl ?x"
    by code_simp
  with limits_offline [OF offline_example]
  have run: "limits_enforce memory_outside 60 ''customer-full-001'' PIX (Dec 1 (-2)) offline_world
      = (Inl ?x, offline_world)" by simp
  from limits_errors_contained [OF run] run show ?thesis by blast
qed

text \<open>
  C16: the daily limit over a sequence of checks.  Against a Redis that answers, on one day and
  starting from a total of \<open>n\<close> cents, whatever amounts a customer asks for on a rail, the counter
  ends at \<open>n\<close> plus exactly the amounts that were let through, and that total is within the
  limit as soon as one was let through.
\<close>

theorem daily_total_within_limit:
  fixes w :: "('e, 'm) world_scheme"
  assumes "daily_store env on_day today val" and "on_day (w_out w)"
    and "int_or_zero (val (limits_daily_key today cid rail) (w_out w)) = Inr n"
    and "daily_run env cid rail policy amounts w = (passed, w')"
  shows "int_or_zero (val (limits_daily_key today cid rail) (w_out w')) = Inr (n + (\<Sum>a\<leftarrow>passed. as_cents a)) \<and>
    (passed \<noteq> [] \<longrightarrow> n + (\<Sum>a\<leftarrow>passed. as_cents a) \<le> as_cents (lp_daily_limit_amount policy))"
  using daily_store.daily_run_sum [OF assms] .

lemma daily_total_within_limit_witness:
  "\<exists>w'. daily_run memory_outside ''c'' PIX pix_policy [Dec 150000 (-1), Dec 90000 (-1), Dec 5 3] review_world
      = ([Dec 150000 (-1), Dec 5 3], w') \<and>
    int_or_zero (mm_strings (w_out w') (limits_daily_key ''19700101'' ''c'' PIX)) = Inr 2000000"
proof -
  have "date_text 5000000 = ''19700101''" by code_simp
  then have day: "mem_on_day ''19700101'' (w_out review_world)"
    by (simp add: mem_on_day_def mem_live_def review_world_def idle_memory_def)
  have zero: "int_or_zero (mm_strings (w_out review_world) (limits_daily_key ''19700101'' ''c'' PIX)) = Inr 0"
    by code_simp
  let ?amounts = "[Dec 150000 (-1), Dec 90000 (-1), Dec 5 3]"
  have cents: "as_cents (lp_daily_limit_amount pix_policy) = 2000000" "as_cents (Dec 150000 (-1)) = 1500000"
    "as_cents (Dec 90000 (-1)) = 900000" "as_cents (Dec 5 3) = 500000" by code_simp+
  obtain passed w' where run: "daily_run memory_outside ''c'' PIX pix_policy ?amounts review_world = (passed, w')"
    by (metis prod.exhaust)
  note steps = mem_daily.enforce_daily_limit_run [where today = "''19700101''" and cid = "''c''" and rail = PIX and policy = pix_policy]
  obtain e1 where one: "enforce_daily_limit memory_outside ''c'' PIX (Dec 150000 (-1)) pix_policy review_world
      = (Inr (), review_world\<lparr>w_out := e1\<rparr>)" and d1: "mem_on_day ''19700101'' e1"
    and v1: "mm_strings e1 (limits_daily_key ''19700101'' ''c'' PIX) = Some (show_int 1500000)"
    using steps(2) [OF day zero, of "Dec 150000 (-1)"] cents by auto
  obtain e2 where two: "enforce_daily_limit memory_outside ''c'' PIX (Dec 90000 (-1)) pix_policy
      (review_world\<lparr>w_out := e1\<rparr>) = (Inl (daily_limit_exceeded PIX), review_world\<lparr>w_out := e2\<rparr>)"
    and d2: "mem_on_day ''19700101'' e2"
    and v2: "mm_strings e2 (limits_daily_key ''19700101'' ''c'' PIX) = Some (show_int 1500000)"
    using steps(1) [of "review_world\<lparr>w_out := e1\<rparr>" 1500000 "Dec 90000 (-1)"] d1 v1 cents by auto
  obtain e3 where three: "enforce_daily_limit memory_outside ''c'' PIX (Dec 5 3) pix_policy
      (review_world\<lparr>w_out := e2\<rparr>) = (Inr (), review_world\<lparr>w_out := e3\<rparr>)"
    using steps(2) [of "review_world\<lparr>w_out := e2\<rparr>" 1500000 "Dec 5 3"] d2 v2 cents by auto
  have "passed = [Dec 150000 (-1), Dec 5 3]" using run one two three by simp
  then show ?thesis
    using daily_total_within_limit [OF mem_daily.daily_store_axioms day zero run] run cents by simp
qed

section \<open>Redis down\<close>

text \<open>
  C12: the checks and controls of a creation when Redis does not answer.  The run of the pre-checks and of the
  controls equals the reference function \<open>decision_from_tables\<close> of the customer's row and the
  tables: KYC, the limits of the table's policy against the day's and the window's payments, no
  rate limit, the risk score, AML over the payments table and the resolved status; nothing but
  the telemetry changes.
\<close>

theorem redis_down_decision:
  fixes w :: "('e, 'm) world_scheme"
  assumes "offline env (w_out w) now"
  shows "\<exists>t. bindM (run_pre_checks env uc rx request customer) (\<lambda>ev.
      evaluate_controls env uc customer request ev (rx_customer_id rx)) w =
    (decision_from_tables uc now customer (rx_customer_id rx) request (db_view w), w\<lparr>w_telemetry := t\<rparr>)"
  using decision_offline [OF assms] .

definition example_context :: request_context where
  "example_context = \<lparr>rx_merchant_id = ''m1'', rx_customer_id = ''customer-full-001'',
     rx_account_id = ''a1'', rx_idempotency_key = ''k2''\<rparr>"

definition example_customer :: customer_row where
  "example_customer = seed_customer 0 ''customer-full-001'' KYC_FULL ACTIVE"

lemma redis_down_decision_witness:
  "\<exists>t. bindM (run_pre_checks memory_outside example_use_case example_context example_request example_customer)
      (\<lambda>ev. evaluate_controls memory_outside example_use_case example_customer example_request ev
         ''customer-full-001'') offline_world =
    (Inr \<lparr>cd_risk_score = 0, cd_risk_decision = RISK_ALLOW, cd_aml_decision = AML_ALLOW,
          cd_final_status = RECEIVED\<rparr>, offline_world\<lparr>w_telemetry := t\<rparr>)"
proof -
  have "decision_from_tables example_use_case 5000000 example_customer ''customer-full-001''
      example_request (db_view offline_world) =
    Inr \<lparr>cd_risk_score = 0, cd_risk_decision = RISK_ALLOW, cd_aml_decision = AML_ALLOW,
         cd_final_status = RECEIVED\<rparr>" by code_simp
  then show ?thesis
    using redis_down_decision [OF offline_example, of example_use_case example_context example_request
      example_customer] by (simp add: example_context_def)
qed

section \<open>Rate limits\<close>




section \<open>KYC and risk\<close>

text \<open>
  KYC.  A customer may use a rail exactly when active and at or above the level the rail asks
  for, \<open>FULL\<close> for TED and \<open>BASIC\<close> for the others; every refusal is a \<open>KycDeniedError\<close>.
\<close>

theorem kyc_decision:
  "if cu_status customer = ACTIVE \<and> (if rail = TED then KYC_FULL else KYC_BASIC) \<le> cu_kyc_level customer
   then kyc_enforce customer rail = Inr ()
   else (\<exists>m. kyc_enforce customer rail = Inl (KycDeniedError m))"
  using kyc_enforce_iff [of customer rail] kyc_enforce_denied [of customer rail]
  by (auto simp: kyc_admits_def)

text \<open>
  C20: risk.  The score is between 0 and 100, and a payment that looks riskier in every respect -- a greater
  amount, velocity or failure count, a newer or less known customer, a new destination --
  never has a lower score nor a milder decision under the same thresholds.
\<close>

theorem risk_score_monotone:
  assumes "riskier c d"
  shows "0 \<le> risk_total c \<and> risk_total c \<le> risk_total d \<and> risk_total d \<le> 100 \<and>
    risk_severity (decision_from_score review block (risk_total c)) \<le>
    risk_severity (decision_from_score review block (risk_total d))"
  using risk_total_bounds risk_total_mono [OF assms] decision_mono by blast

lemma risk_score_monotone_witness:
  "risk_severity (decision_from_score 50 80 (risk_total
      \<lparr>rc_amount = Dec 1 0, rc_policy_max = Dec 10 0, rc_velocity_count = 1, rc_velocity_limit = 10,
       rc_repeated_failures = 0, rc_is_new_customer = False, rc_customer_kyc = KYC_FULL, rc_destination_seen = True\<rparr>)) \<le>
   risk_severity (decision_from_score 50 80 (risk_total
      \<lparr>rc_amount = Dec 95 (-1), rc_policy_max = Dec 10 0, rc_velocity_count = 9, rc_velocity_limit = 10,
       rc_repeated_failures = 3, rc_is_new_customer = True, rc_customer_kyc = KYC_BASIC, rc_destination_seen = False\<rparr>))"
  (is "risk_severity (decision_from_score 50 80 (risk_total ?c)) \<le> risk_severity (decision_from_score 50 80 (risk_total ?d))")
proof -
  have "riskier ?c ?d" by code_simp
  from risk_score_monotone [OF this, of 50 80] show ?thesis by blast
qed

section \<open>AML\<close>


definition log_entries :: "(moment \<times> payment_method \<times> decimal) list \<Rightarrow> string list" where
  "log_entries = map (\<lambda>(t, rail, amount). history_entry t rail amount)"

definition recent_amounts ::
  "payment_method \<Rightarrow> int \<Rightarrow> (moment \<times> payment_method \<times> decimal) list \<Rightarrow> decimal list" where
  "recent_amounts rail cutoff ledger = map (snd \<circ> snd) (filter (\<lambda>(t, r, a). cutoff \<le> t div second \<and> r = rail) ledger)"

lemma counted_log: "counted_amounts (log_entries ledger) (method_value rail) cutoff = recent_amounts rail cutoff ledger"
  by (induction ledger)
     (auto simp: counted_amounts_def log_entries_def recent_amounts_def dest: method_value_inj split: if_splits)

text \<open>
  C22: the AML history is a bounded log.  Let the Redis list of a customer hold the entries of a log of
  payments, newest first.  Recording a payment makes it hold the log with that payment in front, cut
  to 501; and the recent total is the sum, in the arithmetic of the decimal context, of the amounts in
  the log that are of the rail and inside the window.
\<close>

theorem aml_history_refines_log:
  fixes w :: "('e, 'm) world_scheme"
  assumes "history_store env live hist" and "live (w_out w)"
    and "hist (aml_history_key cid) (w_out w) = log_entries ledger" and "length ledger \<le> 501"
    and "o_now env (w_out w) = (t, e0)"
  shows "(\<exists>e. record_outgoing env ae cid rail amount w = (Inr (), w\<lparr>w_out := e\<rparr>) \<and> live e \<and>
      hist (aml_history_key cid) e = log_entries (take 501 ((t, rail, amount) # ledger))) \<and>
    (\<exists>e. total_outgoing_recent env ae cid rail w =
      (Inr (fold (\<lambda>a total. dec_add total a)
         (recent_amounts rail (t div second - ae_total_window_seconds ae) ledger) (Dec 0 0)), w\<lparr>w_out := e\<rparr>) \<and>
      hist (aml_history_key cid) e = log_entries ledger)"
  using history_store.record_outgoing_history [OF assms(1,2,5), of ae cid rail amount]
    history_store.total_from_history [OF assms(1,2,5), of ae cid rail] assms(3,4)
  by (auto simp: log_entries_def take_map sum_recent_def sum_recent_loop_fold
      simp flip: counted_log [unfolded log_entries_def])

lemma aml_history_refines_log_witness:
  "\<exists>e. record_outgoing memory_outside (uc_aml example_use_case) ''c'' PIX (Dec 700 (-2)) review_world =
      (Inr (), review_world\<lparr>w_out := e\<rparr>) \<and>
    mm_lists e (aml_history_key ''c'') = log_entries [(5000000, PIX, Dec 700 (-2))]"
proof -
  have live: "mem_live (w_out review_world)" "o_now memory_outside (w_out review_world) = (5000000, w_out review_world)"
    "mm_lists (w_out review_world) (aml_history_key ''c'') = log_entries []"
    by (simp_all add: mem_live_def review_world_def idle_memory_def log_entries_def)
  show ?thesis
    using aml_history_refines_log [OF mem_history.history_store_axioms live(1) live(3) _ live(2),
        of "uc_aml example_use_case" PIX "Dec 700 (-2)"] by auto
qed

section \<open>The idempotency lock\<close>

text \<open>
  C19: the lock excludes.  Against a Redis that keeps keys, of two requests for the same merchant and key
  the first to ask for a free lock gets it, and every later one is refused as long as the outside keeps
  the key; the locks of other scoped keys are left as they were.
\<close>

theorem lock_excludes:
  fixes w :: "('e, 'm) world_scheme" and v :: "('e, 'n) world_scheme"
  assumes "lock_store env live held" and "live (w_out w)"
    and "\<not> held (w_out w) (idempotency_scoped_key m k)"
    and "acquire env svc m k w = (r, w')" and "w_out v = w_out w'"
  shows "r = Inr True \<and> fst (acquire env svc' m k v) = Inr False \<and>
    (\<forall>key. key \<noteq> idempotency_scoped_key m k \<longrightarrow> held (w_out w') key = held (w_out w) key)"
proof -
  from lock_store.acquire_run [OF assms(1,2), of svc m k] assms(3,4) obtain e where
    r: "r = Inr True" and w': "w' = w\<lparr>w_out := e\<rparr>" and live: "live e"
    and held: "held e = (held (w_out w))(idempotency_scoped_key m k := True)" by auto
  from lock_store.acquire_run [OF assms(1), of v svc' m k] live held assms(5) w'
  have "fst (acquire env svc' m k v) = Inr False" by auto
  then show ?thesis using r held w' by auto
qed

lemma lock_excludes_witness:
  "fst (acquire memory_outside \<lparr>is_ttl_seconds = 300\<rparr> ''m1'' ''k1'' review_world) = Inr True \<and>
   fst (acquire memory_outside \<lparr>is_ttl_seconds = 300\<rparr> ''m1'' ''k1''
     (snd (acquire memory_outside \<lparr>is_ttl_seconds = 300\<rparr> ''m1'' ''k1'' review_world))) = Inr False"
proof -
  have live: "mem_live (w_out review_world)" "\<not> mm_strings (w_out review_world) (idempotency_scoped_key ''m1'' ''k1'') \<noteq> None"
    by (simp_all add: mem_live_def review_world_def idle_memory_def)
  show ?thesis
    using lock_excludes [OF mem_lock.lock_store_axioms live prod.collapse [symmetric] refl, of "\<lparr>is_ttl_seconds = 300\<rparr>"
        "\<lparr>is_ttl_seconds = 300\<rparr>"] by blast
qed

end
