(* ===== verification/EventBus.thy ===== *)
theory EventBus
  imports Processor
begin

text \<open>
  \<open>payments_processor/event_bus\<close>: the choice of the publisher, the routing keys and messages of
  the two brokers, and the producer the Kafka publisher keeps.
\<close>

section \<open>The factory\<close>

record event_bus_settings =
  eb_backend :: string
  eb_url :: "string option"
  eb_exchange :: string
  eb_routing_prefix :: string
  eb_kafka_bootstrap_servers :: string
  eb_kafka_topic :: string

datatype publisher =
    NoopPublisher
  | RabbitMqPublisher (rabbit_url: string) (rabbit_exchange: string) (rabbit_prefix: string)
  | KafkaPublisher (kafka_servers: string) (kafka_topic: string)

definition build_event_bus_publisher :: "event_bus_settings \<Rightarrow> exn + publisher" where
  "build_event_bus_publisher s =
     (let backend = py_lower (py_strip (eb_backend s)) in
      if backend = ''none'' then Inr NoopPublisher
      else if backend = ''rabbitmq'' then
        (case eb_url s of
           None \<Rightarrow> Inl (ValueError ''EVENT_BUS_URL must be set when EVENT_BUS_BACKEND=rabbitmq'')
         | Some url \<Rightarrow>
             if url = [] then Inl (ValueError ''EVENT_BUS_URL must be set when EVENT_BUS_BACKEND=rabbitmq'')
             else Inr (RabbitMqPublisher url (eb_exchange s) (eb_routing_prefix s)))
      else if backend = ''kafka'' then
        (if eb_kafka_bootstrap_servers s = []
         then Inl (ValueError ''EVENT_BUS_KAFKA_BOOTSTRAP_SERVERS must be set when EVENT_BUS_BACKEND=kafka'')
         else Inr (KafkaPublisher (eb_kafka_bootstrap_servers s) (eb_kafka_topic s)))
      else Inl (ValueError (''Unsupported event bus backend: '' @ eb_backend s)))"

primrec is_enabled :: "publisher \<Rightarrow> bool" where
  "is_enabled NoopPublisher = False"
| "is_enabled (RabbitMqPublisher u x r) = True"
| "is_enabled (KafkaPublisher b t) = True"

section \<open>Keys and messages\<close>

definition kafka_routing_key :: "string \<Rightarrow> string" where
  "kafka_routing_key etype =
     py_lower (py_replace_char CHR ''-'' ''_'' (py_replace_char CHR ''.'' ''_'' etype))"

definition rabbit_routing_key :: "string \<Rightarrow> string \<Rightarrow> string" where
  "rabbit_routing_key prefix etype =
     (let normalized = py_lower (py_replace_char CHR ''-'' ''_'' (py_replace_char CHR ''.'' ''_'' etype))
      in prefix @ ''.'' @ normalized)"

text \<open>\<open>isoformat\<close> of a UTC time: the microseconds are written only when there are some.\<close>

definition pad_left :: "nat \<Rightarrow> string \<Rightarrow> string" where
  "pad_left n s = replicate (n - length s) CHR ''0'' @ s"

definition time_text :: "moment \<Rightarrow> string" where
  "time_text t =
     (let s = nat ((t mod day) div second); us = nat (t mod second) in
      pad_left 2 (show_nat (s div 3600)) @ '':'' @ pad_left 2 (show_nat ((s div 60) mod 60)) @ '':'' @
      pad_left 2 (show_nat (s mod 60)) @ (if us = 0 then [] else ''.'' @ pad_left 6 (show_nat us)))"

definition iso_date :: "moment \<Rightarrow> string" where
  "iso_date t = (case civil_date (nat (t div day)) of (y, m, d) \<Rightarrow>
     show_nat y @ ''-'' @ pad2 m @ ''-'' @ pad2 d)"

definition isoformat_utc :: "moment \<Rightarrow> string" where
  "isoformat_utc t = iso_date t @ ''T'' @ time_text t @ ''+00:00''"

text \<open>\<open>published_at\<close> is the text of the local clock.\<close>

definition kafka_message :: "outbox_row \<Rightarrow> string \<Rightarrow> pyval" where
  "kafka_message event published_at = PDict
     [(KStr ''event_id'', PStr (ob_event_id event)),
      (KStr ''aggregate_id'', PStr (ob_aggregate_id event)),
      (KStr ''event_type'', PStr (event_type_value (ob_event_type event))),
      (KStr ''created_at'', PStr (isoformat_utc (ob_created_at event))),
      (KStr ''payload'', ob_payload event),
      (KStr ''attempts'', PInt (ob_attempts event)),
      (KStr ''published_at'', PStr published_at)]"

definition rabbit_payload :: "outbox_row \<Rightarrow> pyval" where
  "rabbit_payload event = PDict
     [(KStr ''event_id'', PStr (ob_event_id event)),
      (KStr ''aggregate_id'', PStr (ob_aggregate_id event)),
      (KStr ''event_type'', PStr (event_type_value (ob_event_type event))),
      (KStr ''created_at'', PStr (isoformat_utc (ob_created_at event))),
      (KStr ''payload'', ob_payload event),
      (KStr ''attempts'', PInt (ob_attempts event))]"

section \<open>The Kafka producer\<close>

text \<open>
  The publisher's \<open>_producer\<close>: \<open>None\<close>, or a producer that has been started or not.  \<open>build\<close> and
  \<open>start\<close> are the outcomes of the library calls.
\<close>

datatype producer = Producer (producer_started: bool)

definition kafka_get_producer ::
  "exn + unit \<Rightarrow> exn + unit \<Rightarrow> producer option \<Rightarrow> (exn + producer) \<times> producer option" where
  "kafka_get_producer build start producer =
     (case producer of
        Some p \<Rightarrow> (Inr p, Some p)
      | None \<Rightarrow>
          (case build of
             Inl x \<Rightarrow> (Inl x, None)
           | Inr _ \<Rightarrow>
               (case start of
                  Inl x \<Rightarrow> (Inl x, Some (Producer False))
                | Inr _ \<Rightarrow> (Inr (Producer True), Some (Producer True)))))"

definition kafka_close :: "producer option \<Rightarrow> producer option" where
  "kafka_close producer = (case producer of None \<Rightarrow> None | Some p \<Rightarrow> None)"

lemma kafka_failed_start_sticks:
  assumes "kafka_get_producer (Inr ()) (Inl x) None = (r, p)"
  shows "r = Inl x \<and> kafka_get_producer build start p = (Inr (Producer False), p)"
  using assms by (auto simp: kafka_get_producer_def)

lemma factory_enabled_iff:
  "build_event_bus_publisher s = Inr p \<Longrightarrow>
     is_enabled p \<longleftrightarrow> py_lower (py_strip (eb_backend s)) \<noteq> ''none''"
  by (auto simp: build_event_bus_publisher_def Let_def split: if_splits option.splits)

lemma routing_keys_distinct:
  "kafka_routing_key (event_type_value t) = kafka_routing_key (event_type_value u) \<Longrightarrow> t = u"
  by (cases t; cases u)
     (simp_all add: kafka_routing_key_def py_lower_def py_replace_char_def lower_char_def code_of_def)

end
