(* ===== verification/ProviderMock.thy ===== *)
theory ProviderMock
  imports Processor
begin

text \<open>
  The provider mock: the simulation engine (\<open>simulation/engine.py\<close>) and its routes
  (\<open>api/routes_provider.py\<close>).  \<open>draws seed i\<close> is the i-th \<open>random()\<close> of a generator seeded with
  the text \<open>seed\<close>; latencies and rates are rationals.
\<close>

record fault_config =
  fc_seed :: int
  fc_base_latency_ms :: int
  fc_latency_spike_ms :: int
  fc_timeout_ms :: int
  fc_fault_5xx_rate :: rat
  fc_timeout_rate :: rat
  fc_latency_spike_rate :: rat
  fc_duplicate_rate :: rat
  fc_partial_failure_rate :: rat

definition rng_seed :: "fault_config \<Rightarrow> string \<Rightarrow> uuid \<Rightarrow> string" where
  "rng_seed cfg slug payment_id = show_int (fc_seed cfg) @ '':'' @ slug @ '':'' @ payment_id"

definition latency_seconds :: "fault_config \<Rightarrow> rat \<Rightarrow> rat" where
  "latency_seconds cfg u =
     of_int (if u < fc_latency_spike_rate cfg then fc_base_latency_ms cfg + fc_latency_spike_ms cfg
             else fc_base_latency_ms cfg) / 1000"

text \<open>The sleeps made, and the outcome.\<close>

definition simulate ::
  "(string \<Rightarrow> nat \<Rightarrow> rat) \<Rightarrow> fault_config \<Rightarrow> string \<Rightarrow> provider_request \<Rightarrow>
   rat list \<times> (exn + provider_response)" where
  "simulate draws cfg slug payload =
     (let r = draws (rng_seed cfg slug (pr_payment_id payload));
          first = latency_seconds cfg (r 0)
      in if r 1 < fc_timeout_rate cfg
         then ([first, of_int (fc_timeout_ms cfg) / 1000], Inl (TimeoutError ''Simulated provider timeout''))
         else if r 2 < fc_fault_5xx_rate cfg then ([first], Inl (RuntimeError ''Simulated provider 5xx''))
         else
           let duplicate = r 3 < fc_duplicate_rate cfg;
               partial_failure = r 4 < fc_partial_failure_rate cfg
           in ([first], Inr
                \<lparr>rs_provider_reference = slug @ ''-'' @ pr_payment_id payload,
                 rs_confirmed = (\<not> partial_failure), rs_provider = slug @ ''-provider'',
                 rs_duplicate = duplicate, rs_partial_failure = partial_failure\<rparr>))"

definition is_timeout_error :: "exn \<Rightarrow> bool" where
  "is_timeout_error x = (case x of TimeoutError _ \<Rightarrow> True | _ \<Rightarrow> False)"

definition simulate_provider ::
  "(string \<Rightarrow> nat \<Rightarrow> rat) \<Rightarrow> fault_config \<Rightarrow> string \<Rightarrow> provider_request \<Rightarrow> exn + provider_response" where
  "simulate_provider draws cfg slug payload =
     (case snd (simulate draws cfg slug payload) of
        Inr response \<Rightarrow> Inr response
      | Inl x \<Rightarrow>
          if is_timeout_error x then Inl (HTTPException 504 ''Provider timeout'' [])
          else if is_runtime_error x then Inl (HTTPException 503 ''Provider unavailable'' [])
          else Inl x)"

definition mock_confirm ::
  "(string \<Rightarrow> nat \<Rightarrow> rat) \<Rightarrow> fault_config \<Rightarrow> payment_method \<Rightarrow> provider_request \<Rightarrow> exn + provider_response" where
  "mock_confirm draws cfg rail payload =
     (case provider_slug_for_method rail of
        None \<Rightarrow> Inl (KeyError (method_value rail))
      | Some slug \<Rightarrow> simulate_provider draws cfg slug payload)"

text \<open>The router: the prefix and the four paths.\<close>

definition mock_routes :: "(string \<times> payment_method) list" where
  "mock_routes =
     [(''/providers'' @ ''/pix/confirm'', PIX), (''/providers'' @ ''/boleto/confirm'', BOLETO),
      (''/providers'' @ ''/ted/confirm'', TED), (''/providers'' @ ''/card/confirm'', CARD)]"

text \<open>What a client sees: FastAPI answers an \<open>HTTPException\<close> with its status.\<close>

definition mock_serve ::
  "(string \<Rightarrow> nat \<Rightarrow> rat) \<Rightarrow> fault_config \<Rightarrow> string \<Rightarrow> provider_request \<Rightarrow> http_reply" where
  "mock_serve draws cfg path payload =
     (case map_of mock_routes path of
        None \<Rightarrow> HttpReply 404 None
      | Some rail \<Rightarrow>
          (case mock_confirm draws cfg rail payload of
             Inr response \<Rightarrow> HttpReply 200 (Some response)
           | Inl (HTTPException code detail headers) \<Rightarrow> HttpReply code None
           | Inl x \<Rightarrow> HttpReply 500 None))"

lemma simulate_provider_cases:
  obtains response where "simulate_provider draws cfg slug payload = Inr response"
      "rs_confirmed response = (\<not> rs_partial_failure response)"
      "rs_provider response = slug @ ''-provider''"
      "rs_provider_reference response = slug @ ''-'' @ pr_payment_id payload"
  | code detail where "simulate_provider draws cfg slug payload = Inl (HTTPException code detail [])"
      "code = 503 \<or> code = 504"
proof -
  let ?r = "draws (rng_seed cfg slug (pr_payment_id payload))"
  note defs = simulate_provider_def simulate_def Let_def is_timeout_error_def is_runtime_error_def
  consider (timeout) "?r 1 < fc_timeout_rate cfg"
    | (fault) "\<not> ?r 1 < fc_timeout_rate cfg" "?r 2 < fc_fault_5xx_rate cfg"
    | (answer) "\<not> ?r 1 < fc_timeout_rate cfg" "\<not> ?r 2 < fc_fault_5xx_rate cfg" by blast
  then show thesis
  proof cases
    case timeout
    then have "simulate_provider draws cfg slug payload = Inl (HTTPException 504 ''Provider timeout'' [])"
      by (simp add: defs)
    then show thesis using that(2) by blast
  next
    case fault
    then have "simulate_provider draws cfg slug payload = Inl (HTTPException 503 ''Provider unavailable'' [])"
      by (simp add: defs)
    then show thesis using that(2) by blast
  next
    case answer
    then show thesis using that(1) by (simp add: defs)
  qed
qed

end
