(* ===== verification/PlatformProperties.thy ===== *)
theory PlatformProperties
  imports Alone EventBus ProviderMock Logging
begin

text \<open>
  The properties of the resilience library and of the provider command that uses it: circuit breaker, backoff,
  retries and bulkhead.
\<close>

section \<open>Circuit breaker\<close>

text \<open>
  C23: every breaker reached from a new one by any sequence of calls at any times is in a sane state:
  closed with no opening time and fewer failures than the threshold, or open or probing with an
  opening time and at least the threshold; and its configuration never changes.
\<close>

theorem breaker_reachable_ok:
  assumes "1 \<le> cc_failure_threshold cfg" and "breaker_run (new_breaker cfg) tr cb"
  shows "cb_config cb = cfg \<and> 0 \<le> cb_failures cb \<and>
    (if cb_state cb = CLOSED then cb_opened_at cb = None \<and> cb_failures cb < cc_failure_threshold cfg
     else cb_opened_at cb \<noteq> None \<and> cc_failure_threshold cfg \<le> cb_failures cb)"
proof -
  have "cb_config cb = cb_config (new_breaker cfg)"
    using assms(2) by (induction rule: breaker_run.induct) (auto dest: breaker_config_step)
  then have c: "cb_config cb = cfg" by (simp add: new_breaker_def)
  from breaker_ok_run [OF assms(2) breaker_ok_new [OF assms(1)]] show ?thesis
    by (auto simp: breaker_ok_def c)
qed

lemma breaker_reachable_ok_witness:
  "cb_state (breaker_on_failure (breaker_on_failure (new_breaker \<lparr>cc_failure_threshold = 2, cc_recovery_timeout_seconds = 5\<rparr>) 1) 2) = OPEN \<and>
   cb_opened_at (breaker_on_failure (breaker_on_failure (new_breaker \<lparr>cc_failure_threshold = 2, cc_recovery_timeout_seconds = 5\<rparr>) 1) 2) \<noteq> None"
proof -
  let ?cfg = "\<lparr>cc_failure_threshold = 2, cc_recovery_timeout_seconds = 5\<rparr>"
  let ?cb = "breaker_on_failure (breaker_on_failure (new_breaker ?cfg) 1) 2"
  have run: "breaker_run (new_breaker ?cfg) [(1, BFailure), (2, BFailure)] ?cb"
    by (rule run_cons [OF step_failure run_cons [OF step_failure run_nil]])
  have "cb_state ?cb = OPEN" by code_simp
  with breaker_reachable_ok [OF _ run] show ?thesis by simp
qed

text \<open>
  C24: failures in a row trip a closed breaker exactly at the threshold: after one less than are missing it is
  still closed, and the next one opens it.
\<close>

theorem breaker_trips_at_threshold:
  assumes "breaker_ok cb" and "cb_state cb = CLOSED"
    and "int (length ts) = cc_failure_threshold (cb_config cb) - cb_failures cb - 1"
  shows "cb_state (fold (\<lambda>t c. breaker_on_failure c t) ts cb) = CLOSED \<and>
    cb_state (breaker_on_failure (fold (\<lambda>t c. breaker_on_failure c t) ts cb) now) = OPEN"
  using failures_trip [OF assms] .

lemma breaker_trips_at_threshold_witness:
  "cb_state (breaker_on_failure (fold (\<lambda>t c. breaker_on_failure c t) [10, 20]
      (new_breaker \<lparr>cc_failure_threshold = 3, cc_recovery_timeout_seconds = 5\<rparr>)) 30) = OPEN"
proof -
  let ?cb = "new_breaker \<lparr>cc_failure_threshold = 3, cc_recovery_timeout_seconds = 5\<rparr>"
  have "breaker_ok ?cb" by (rule breaker_ok_new) simp
  from breaker_trips_at_threshold [OF this, of "[10, 20]" 30] show ?thesis by (simp add: new_breaker_def)
qed

text \<open>
  C25: an open circuit protects the provider.  While the breaker of the payment's provider is open and its
  recovery time has not passed, the provider command reads the clock, raises \<open>CircuitBreakerOpenError\<close> and
  does nothing else: no HTTP call, no retry, no change of the tables, the breaker or the bulkhead.
\<close>

theorem open_circuit_no_call:
  fixes w :: "('e, 'm) proc_world_scheme"
  assumes "provider_name_for_method (p_method p) = Some provider"
    and "pw_breakers w provider = Some cb" and "cb_state cb = OPEN" and "cb_opened_at cb = Some opened"
    and "o_now env (w_out w) = (now, e)"
    and "now < opened + cc_recovery_timeout_seconds (cb_config cb) * second"
  shows "provider_execute env p w = (Inl (CircuitBreakerOpenError ''Circuit is open''), w\<lparr>w_out := e\<rparr>)"
proof -
  have half: "\<not> can_half_open cb now" using assms(4,6) by (simp add: can_half_open_def)
  obtain path where "provider_confirm_path_for_method (p_method p) = Some path"
    by (cases "p_method p") (auto simp: provider_confirm_path_for_method_def)
  then have s: "for_method (p_method p) = ret \<lparr>ps_provider_name = provider, ps_path = path\<rparr>"
    using assms(1) by (simp add: for_method_def fun_eq_iff)
  have "(pw_breakers w)(provider \<mapsto> cb) = pw_breakers w" using assms(2) by (simp add: fun_upd_idem)
  then have "allow_call env provider w = (Inl (CircuitBreakerOpenError ''Circuit is open''), w\<lparr>w_out := e\<rparr>)"
    using assms(2,3,4,5) open_refuses [OF assms(3) half]
    by (simp add: allow_call_def get_breaker_def clock_if_def set_breaker_def outside_def prog_defs
        from_result_def)
  then show ?thesis by (simp add: provider_execute_def s Let_def bindM_def)
qed

definition open_world :: "memory proc_world" where
  "open_world = \<lparr>w_out = idle_memory, w_db = review_tables, w_pending = [], w_telemetry = [], w_correlation = [],
     pw_breakers = [''pix-provider'' \<mapsto> \<lparr>cb_config = \<lparr>cc_failure_threshold = 3, cc_recovery_timeout_seconds = 5\<rparr>,
        cb_state = OPEN, cb_failures = 3, cb_opened_at = Some 4000000\<rparr>],
     pw_bulkhead = \<lparr>bh_limit = 25, bh_permits = Map.empty\<rparr>\<rparr>"

lemma open_circuit_no_call_witness:
  "provider_execute memory_outside review_payment open_world =
     (Inl (CircuitBreakerOpenError ''Circuit is open''), open_world)"
  using open_circuit_no_call [of review_payment "''pix-provider''" open_world _ 4000000 memory_outside 5000000 idle_memory]
  by (simp add: open_world_def review_payment_def idle_memory_def second_def)

section \<open>Backoff and retries\<close>

text \<open>
  The delay of the exponential backoff, for the jitter and the base, cap and attempt the code passes, lies
  within the jitter of the capped power of two, so a retried event is due again after at most
  six and a quarter seconds and never in the past.
\<close>

theorem backoff_delay_in_range:
  fixes w :: "('e, 'm) world_scheme"
  assumes "\<And>e u e'. o_random env e = (u, e') \<Longrightarrow> 0 \<le> u \<and> u \<le> 1"
    and "exponential_backoff env attempt (1 / 2) 5 (1 / 4) w = (Inr delay, w')"
  shows "3 / 4 * backoff_raw attempt (1 / 2) 5 \<le> delay \<and> delay \<le> 5 / 4 * backoff_raw attempt (1 / 2) 5 \<and>
    0 < delay \<and> delay \<le> 25 / 4"
proof -
  obtain u e' where u: "o_random env (w_out w) = (u, e')" by (metis prod.exhaust)
  then have d: "delay = backoff_delay attempt (1 / 2) 5 (1 / 4) u"
    using assms(2) by (simp add: exponential_backoff_def bindM_def outside_def)
  have u01: "0 \<le> u" "u \<le> 1" using assms(1) [OF u] by auto
  have pos: "0 < backoff_raw attempt (1 / 2) 5" by (simp add: backoff_raw_def)
  show ?thesis
    using backoff_delay_bounds [of "1 / 2" 5 "1 / 4" u attempt] u01 pos unfolding d by simp
qed

lemma backoff_delay_in_range_witness:
  "\<exists>delay w'. exponential_backoff memory_outside 3 (1 / 2) 5 (1 / 4) review_world = (Inr delay, w') \<and> delay \<le> 25 / 4"
proof -
  let ?run = "exponential_backoff memory_outside 3 (1 / 2) 5 (1 / 4) review_world"
  obtain delay w' where run: "?run = (Inr delay, w')"
    by (simp add: exponential_backoff_def bindM_def outside_def memory_outside_def)
  have "\<And>e u e'. o_random memory_outside e = (u, e') \<Longrightarrow> 0 \<le> u \<and> u \<le> 1"
    by (auto simp: memory_outside_def)
  then show ?thesis using backoff_delay_in_range [OF _ run] run by blast
qed

lemma retry_loop_calls:
  fixes operation :: "('e, 'm, 'a) act" and w :: "('e, 'm) world_scheme"
  assumes op: "\<And>v :: ('e, 'm) world_scheme. c (w_out (snd (operation v))) = c (w_out v) + (1 :: nat)"
    and quiet: "\<And>e. c (snd (o_random env e)) = c e" "\<And>t e. c (o_sleep env t e) = c e"
    and run: "retry_loop env operation sr n base [k..n] le w = (r, w')" and "k \<le> n"
  shows "\<exists>v. operation v = (r, w') \<and> c (w_out w') \<le> c (w_out w) + nat (n - k + 1) \<and> c (w_out w) < c (w_out w') \<and>
    ((\<exists>x. r = Inl x \<and> sr x) \<longrightarrow> c (w_out w') = c (w_out w) + nat (n - k + 1))"
  using run \<open>k \<le> n\<close>
proof (induction "nat (n - k)" arbitrary: k le w)
  case 0
  then have k: "k = n" by simp
  obtain q v where o: "operation w = (q, v)" by (metis prod.exhaust)
  then have "c (w_out v) = c (w_out w) + 1" using op [of w] by simp
  then show ?case using 0 o k by (auto simp: try_else_def split: sum.splits)
next
  case (Suc m)
  then have k: "k < n" "[k..n] = k # [k + 1..n]" by (simp_all add: upto_rec1)
  obtain q v where o: "operation w = (q, v)" by (metis prod.exhaust)
  then have c: "c (w_out v) = c (w_out w) + 1" using op [of w] by simp
  show ?case
  proof (cases "\<exists>x. q = Inl x \<and> sr x")
    case False
    then have "r = q \<and> w' = v" using Suc.prems(1) o k by (auto simp: try_else_def split: sum.splits)
    then show ?thesis using o c False k by auto
  next
    case True
    then obtain x where x: "q = Inl x" "sr x" by blast
    obtain u e1 where u: "o_random env (w_out v) = (u, e1)" by (metis prod.exhaust)
    let ?v = "v\<lparr>w_out := o_sleep env (backoff_delay k base 2 (1 / 4) u) e1\<rparr>"
    have "c (w_out ?v) = c (w_out v)" using quiet(1) [of "w_out v"] quiet(2) u by simp
    moreover have "retry_loop env operation sr n base [k + 1..n] (Some x) ?v = (r, w')"
      using Suc.prems(1) k o x u
      by (simp add: try_else_def exponential_backoff_def bindM_def outside_def)
    moreover have "m = nat (n - (k + 1))" "k + 1 \<le> n" using Suc.hyps(2) k by auto
    ultimately show ?thesis
      using Suc.hyps(1) [of "k + 1" "Some x" ?v] c k by (fastforce simp: nat_add_distrib)
  qed
qed

text \<open>
  C26: retries end.  Let \<open>c\<close> count the calls of an operation, each adding one and the pauses none.  Then
  \<open>retry_async\<close> with at least one attempt makes at least one and at most \<open>n\<close> calls and returns what its last call returned; it
  gives up on a retryable error only after all \<open>n\<close> calls, and it never raises anything but an error of the operation.
\<close>

theorem retry_calls_bounded:
  fixes operation :: "('e, 'm, 'a) act" and w :: "('e, 'm) world_scheme"
  assumes "\<And>v :: ('e, 'm) world_scheme. c (w_out (snd (operation v))) = c (w_out v) + (1 :: nat)"
    and "\<And>e. c (snd (o_random env e)) = c e" and "\<And>t e. c (o_sleep env t e) = c e"
    and "retry_async env operation should_retry n base w = (r, w')" and "1 \<le> n"
  shows "(\<exists>v. operation v = (r, w')) \<and> c (w_out w) + 1 \<le> c (w_out w') \<and> c (w_out w') \<le> c (w_out w) + nat n \<and>
    ((\<exists>x. r = Inl x \<and> should_retry x) \<longrightarrow> c (w_out w') = c (w_out w) + nat n)"
  using retry_loop_calls [where c = c, OF assms(1-3) assms(4) [unfolded retry_async_def] assms(5)] by auto

lemma retry_calls_bounded_witness:
  "\<exists>r w'. retry_async memory_outside (call_once memory_outside \<lparr>ps_provider_name = ''p'', ps_path = ''/p''\<rparr> review_payment)
      is_transient 3 (5 / 100) review_world = (r, w') \<and> length (mm_calls (w_out w')) \<le> 3"
proof -
  let ?op = "call_once memory_outside \<lparr>ps_provider_name = ''p'', ps_path = ''/p''\<rparr> review_payment :: (memory, unit, provider_response) act"
  obtain r w' where run: "retry_async memory_outside ?op is_transient 3 (5 / 100) review_world = (r, w')"
    by (metis prod.exhaust)
  have one: "length (mm_calls (w_out (snd (?op v)))) = length (mm_calls (w_out v)) + 1" for v
    by (auto simp: call_once_def adapter_confirm_def bindM_def outside_def memory_outside_def Let_def from_result_def
        split: list.splits sum.splits prod.splits)
  have quiet: "length (mm_calls (snd (o_random memory_outside e))) = length (mm_calls e)"
    "length (mm_calls (o_sleep memory_outside t e)) = length (mm_calls e)" for t e
    by (simp_all add: memory_outside_def)
  have "length (mm_calls (w_out review_world)) = 0" by (simp add: review_world_def idle_memory_def)
  with retry_calls_bounded [where c = "\<lambda>e. length (mm_calls e)", OF one quiet run] run show ?thesis by auto
qed

section \<open>Bulkhead\<close>

text \<open>
  C27: the bulkhead.  Starting from unused semaphores, however tasks enter and leave, never more than the
  limit run under one key at a time, and every permit is accounted for.
\<close>

theorem bulkhead_never_exceeds_limit:
  assumes "0 \<le> limit" and "bulkhead_step\<^sup>*\<^sup>* (\<lparr>bh_limit = limit, bh_permits = Map.empty\<rparr>, \<lambda>_. 0) (bh, inside)"
  shows "0 \<le> inside k \<and> inside k \<le> limit \<and> permits_of bh k = limit - inside k"
proof -
  have "bulkhead_ok limit (\<lparr>bh_limit = limit, bh_permits = Map.empty\<rparr>, \<lambda>_. 0)"
    using assms(1) by (simp add: bulkhead_ok_def permits_of_def)
  from bulkhead_ok_steps [OF assms(2) this]
  have "0 \<le> inside k" "0 \<le> permits_of bh k" "inside k + permits_of bh k = limit" by (auto simp: bulkhead_ok_def)
  then show ?thesis by simp
qed

lemma bulkhead_never_exceeds_limit_witness:
  "permits_of (bulkhead_leave (\<lparr>bh_limit = 1, bh_permits = [''k'' \<mapsto> 0]\<rparr>) ''k'') ''k'' = 1"
proof -
  let ?b0 = "\<lparr>bh_limit = 1, bh_permits = Map.empty\<rparr>" and ?b1 = "\<lparr>bh_limit = 1, bh_permits = [''k'' \<mapsto> 0]\<rparr>"
  have "bulkhead_enter ?b0 ''k'' = Some ?b1" by (simp add: bulkhead_enter_def permits_of_def)
  from enter [OF this, of "\<lambda>_. 0"] have "bulkhead_step (?b0, \<lambda>_. 0) (?b1, (\<lambda>_. 0)(''k'' := 1))" by simp
  moreover have "bulkhead_step (?b1, (\<lambda>_. 0)(''k'' := 1)) (bulkhead_leave ?b1 ''k'', ((\<lambda>_. 0)(''k'' := 1))(''k'' := 0))"
    using leave [of "(\<lambda>_. 0)(''k'' := 1)" "''k''" ?b1] by simp
  ultimately have "bulkhead_step\<^sup>*\<^sup>* (?b0, \<lambda>_. 0) (bulkhead_leave ?b1 ''k'', ((\<lambda>_. 0)(''k'' := 1))(''k'' := 0))"
    by (meson converse_rtranclp_into_rtranclp rtranclp.rtrancl_refl)
  from bulkhead_never_exceeds_limit [OF _ this, of "''k''"] show ?thesis by simp
qed

end
