(* ===== verification/Redaction.thy ===== *)
theory Redaction
  imports Logging
begin

text \<open>
  What \<open>_redact_string\<close> leaves behind.  A match of the card pattern is a maximal run of 12 to 19
  digits between word boundaries, so redacting the runs from left to right creates no new match.
\<close>

abbreviation run_length :: "string \<Rightarrow> nat" where
  "run_length s \<equiv> length (takeWhile is_digit s)"

lemma digit_is_word: "is_digit c \<Longrightarrow> is_word c"
  by (simp add: is_word_def)

text \<open>A match is the whole run of digits at the front.\<close>

lemma run_length_eq:
  assumes "k \<le> length s" and "list_all is_digit (take k s)" and "k = length s \<or> \<not> is_digit (s ! k)"
  shows "run_length s = k"
proof -
  have "takeWhile is_digit s = take k s"
  proof (cases "k = length s")
    case True
    then show ?thesis using assms(2) by (simp add: list_all_iff takeWhile_eq_all_conv)
  next
    case False
    then have k: "k < length s" "\<not> is_digit (s ! k)" using assms by auto
    show ?thesis
      using assms(2) k by (intro takeWhile_eq_take_P_nth) (auto simp: list_all_length)
  qed
  then show ?thesis using assms(1) by simp
qed

lemma run_prefix: "list_all is_digit (take (run_length s) s)"
  by (induction s) simp_all

lemma find_only:
  assumes only: "\<And>k. P k \<Longrightarrow> k = r"
  shows "find P xs = (if r \<in> set xs \<and> P r then Some r else None)"
proof (cases "P r")
  case True
  then have "P = (\<lambda>k. k = r)" using only by blast
  then show ?thesis by (simp, induction xs) auto
next
  case False
  then have "\<not> P k" for k using only by blast
  then show ?thesis by (simp add: find_None_iff)
qed

lemma card_match_run:
  "card_match prev s =
     (let k = run_length s in
      if \<not> prev \<and> 12 \<le> k \<and> k \<le> 19 \<and> (k = length s \<or> \<not> is_word (s ! k)) then Some k else None)"
proof -
  let ?ok = "\<lambda>k. k \<le> length s \<and> list_all is_digit (take k s) \<and> (k = length s \<or> \<not> is_word (s ! k))"
  have only: "?ok k \<Longrightarrow> k = run_length s" for k
    using run_length_eq [of k s] digit_is_word by metis
  have ok: "?ok (run_length s) \<longleftrightarrow> run_length s = length s \<or> \<not> is_word (s ! run_length s)"
    using run_prefix by (simp add: length_takeWhile_le)
  let ?L = "[19, 18, 17, 16, 15, 14, 13, 12] :: nat list"
  have f: "find ?ok ?L = (if run_length s \<in> set ?L \<and> ?ok (run_length s) then Some (run_length s) else None)"
    by (rule find_only [OF only])
  have mem: "run_length s \<in> set ?L \<longleftrightarrow> 12 \<le> run_length s \<and> run_length s \<le> 19"
    by (simp, presburger)
  show ?thesis unfolding card_match_def f ok mem Let_def by (simp add: conj_assoc)
qed

text \<open>Does a match start anywhere in the text?\<close>

fun has_card :: "bool \<Rightarrow> string \<Rightarrow> bool" where
  "has_card prev [] = False"
| "has_card prev (c # cs) = (card_match prev (c # cs) \<noteq> None \<or> has_card (is_word c) cs)"

lemma card_match_nondigit: "\<not> is_digit c \<Longrightarrow> card_match prev (c # cs) = None"
  by (simp add: card_match_run)

text \<open>
  Within a word redaction leaves the digits in front as they are, and the character after them: the
  front of the text, as far as a match looks at it, is unchanged.
\<close>

lemma redact_front:
  "run_length (redact_from True s) = run_length s \<and>
   (run_length s = length s \<longleftrightarrow> run_length s = length (redact_from True s)) \<and>
   (run_length s < length s \<longrightarrow> redact_from True s ! run_length s = s ! run_length s)"
proof (induction s)
  case (Cons c s)
  have m: "card_match True (c # s) = None" by (simp add: card_match_def)
  show ?case
  proof (cases "is_digit c")
    case True
    then show ?thesis using Cons digit_is_word by (simp add: m)
  next
    case False
    then show ?thesis by (simp add: m)
  qed
qed simp

lemma has_card_front: "s = [] \<or> \<not> is_digit (hd s) \<Longrightarrow> has_card p s = has_card q s"
  by (cases s) (auto simp: card_match_nondigit)

lemma redact_from_front: "s = [] \<or> \<not> is_digit (hd s) \<Longrightarrow> redact_from p s = [] \<or> \<not> is_digit (hd (redact_from p s))"
  by (cases s) (auto simp: card_match_nondigit)

lemma no_card_left: "\<not> has_card prev (redact_from prev s)"
proof (induction prev s rule: redact_from.induct)
  case (2 prev c cs)
  show ?case
  proof (cases "card_match prev (c # cs)")
    case None
    have "card_match prev (c # redact_from (is_word c) cs) = None"
    proof (cases "is_digit c")
      case True
      then have "is_word c" by (rule digit_is_word)
      then show ?thesis
        using None True redact_front [of cs] length_takeWhile_le [of is_digit cs]
        by (auto simp: card_match_run Let_def split: if_splits)
    qed (rule card_match_nondigit)
    then show ?thesis using "2.IH"(1) [OF None] None by simp
  next
    case (Some k)
    let ?rest = "drop k (c # cs)"
    have k: "\<not> prev" "k = run_length (c # cs)" "k = length (c # cs) \<or> \<not> is_word ((c # cs) ! k)"
      using Some by (auto simp: card_match_run Let_def split: if_splits)
    have "?rest = [] \<or> \<not> is_digit (hd ?rest)"
      using k(3) digit_is_word by (cases "k < length (c # cs)") (auto simp: hd_drop_conv_nth)
    from has_card_front [OF redact_from_front [OF this]]
    have "has_card False (redact_from True ?rest) = has_card True (redact_from True ?rest)" .
    moreover have "has_card False (REDACTED @ r) = has_card False r" for r
      by (simp add: REDACTED_def card_match_nondigit is_word_def code_of_def is_digit_def)
    ultimately show ?thesis using "2.IH"(2) [OF Some] Some k(1) by simp
  qed
qed simp

end
