(* ===== verification/BoundaryProperties.thy ===== *)
theory BoundaryProperties
  imports Scenario EventBus ProviderMock Redaction
begin

text \<open>
  The properties at the boundaries of the services: the provider's HTTP contract, the event bus,
  the keys in Redis, what reaches the log, and the HTTP layer of the API.
\<close>

section \<open>The provider\<close>

text \<open>
  C28: the processor and the provider mock agree.  The path the strategy of a rail names is a route of the mock,
  and what the adapter makes of the mock's reply is either the mock's response -- from the provider the
  processor accounts the call to, with a reference naming the payment, confirmed unless it is a partial failure --
  or an error that the command retries.
\<close>

theorem provider_contract:
  assumes "for_method rail w = (Inr strategy, w')"
  shows "case classify_reply (Inr (mock_serve draws cfg (ps_path strategy) rq)) of
      Inr response \<Rightarrow> rs_provider response = ps_provider_name strategy \<and>
        rs_confirmed response = (\<not> rs_partial_failure response) \<and>
        (\<exists>slug. rs_provider_reference response = slug @ ''-'' @ pr_payment_id rq)
    | Inl x \<Rightarrow> is_transient x \<and> as_processor_error x \<noteq> None"
proof -
  obtain slug where slug: "provider_slug_for_method rail = Some slug"
    and path: "map_of mock_routes (ps_path strategy) = Some rail"
    and name: "ps_provider_name strategy = slug @ ''-provider''"
    using assms by (cases rail) (auto simp: for_method_def mock_routes_def provider_confirm_path_for_method_def)
  show ?thesis
    by (rule simulate_provider_cases [of draws cfg slug rq])
       (auto simp: mock_serve_def path mock_confirm_def slug name classify_reply_def is_transient_def
          as_processor_error_def)
qed

lemma provider_contract_witness:
  "case classify_reply (Inr (mock_serve (\<lambda>_ _. 1 / 2) \<lparr>fc_seed = 42, fc_base_latency_ms = 40, fc_latency_spike_ms = 350,
        fc_timeout_ms = 1200, fc_fault_5xx_rate = 3 / 5, fc_timeout_rate = 0, fc_latency_spike_rate = 0,
        fc_duplicate_rate = 0, fc_partial_failure_rate = 0\<rparr> ''/providers/ted/confirm'' (provider_request_of review_payment))) of
      Inr response \<Rightarrow> rs_provider response = ''ted-provider'' | Inl x \<Rightarrow> is_transient x"
proof -
  have "for_method TED () = (Inr \<lparr>ps_provider_name = ''ted-provider'', ps_path = ''/providers/ted/confirm''\<rparr>, ())"
    by (simp add: for_method_def provider_confirm_path_for_method_def)
  from provider_contract [OF this, where draws = "\<lambda>_ _. 1 / 2" and cfg = "\<lparr>fc_seed = 42, fc_base_latency_ms = 40,
        fc_latency_spike_ms = 350, fc_timeout_ms = 1200, fc_fault_5xx_rate = 3 / 5, fc_timeout_rate = 0,
        fc_latency_spike_rate = 0, fc_duplicate_rate = 0, fc_partial_failure_rate = 0\<rparr>"
      and rq = "provider_request_of review_payment"] show ?thesis
    by (auto split: sum.splits)
qed

section \<open>The event bus\<close>

text \<open>
  The choice of the publisher.  A backend text is accepted up to spaces and case; \<open>none\<close> gives the publisher that
  is not enabled, the two brokers give theirs when their address is set, and everything else is a
  \<open>ValueError\<close> at start-up.
\<close>

theorem event_bus_choice:
  "case build_event_bus_publisher s of
     Inr NoopPublisher \<Rightarrow> py_lower (py_strip (eb_backend s)) = ''none''
   | Inr (RabbitMqPublisher url exchange prefixed) \<Rightarrow> py_lower (py_strip (eb_backend s)) = ''rabbitmq'' \<and>
       eb_url s = Some url \<and> url \<noteq> [] \<and> exchange = eb_exchange s \<and> prefixed = eb_routing_prefix s
   | Inr (KafkaPublisher servers topic) \<Rightarrow> py_lower (py_strip (eb_backend s)) = ''kafka'' \<and>
       servers = eb_kafka_bootstrap_servers s \<and> servers \<noteq> [] \<and> topic = eb_kafka_topic s
   | Inl x \<Rightarrow> (\<exists>m. x = ValueError m) \<and> py_lower (py_strip (eb_backend s)) \<noteq> ''none''"
  by (auto simp: build_event_bus_publisher_def Let_def split: option.splits)

text \<open>
  A Kafka publisher whose producer could not be started keeps it: every later call hands out the producer
  that was never started instead of starting one, until the publisher is closed.
\<close>

theorem kafka_keeps_failed_producer:
  assumes "kafka_get_producer (Inr ()) (Inl x) None = (r, p)"
  shows "r = Inl x \<and> (\<forall>build start. kafka_get_producer build start p = (Inr (Producer False), p)) \<and>
    kafka_close p = None"
  using assms by (auto simp: kafka_get_producer_def kafka_close_def)

lemma kafka_keeps_failed_producer_witness:
  "kafka_get_producer (Inr ()) (Inr ()) (snd (kafka_get_producer (Inr ()) (Inl (PublishError ''refused'')) None)) =
    (Inr (Producer False), Some (Producer False))"
proof -
  have r: "kafka_get_producer (Inr ()) (Inl (PublishError ''refused'')) None =
      (Inl (PublishError ''refused''), Some (Producer False))" by (simp add: kafka_get_producer_def)
  from kafka_keeps_failed_producer [OF r] r show ?thesis by simp
qed

section \<open>Keys\<close>

text \<open>
  Keys in Redis do not collide.  The daily, velocity, rate-limit and history keys determine what they are made
  from: the day, customer and rail, the customer and rail, the dimension, value and window, the customer.
\<close>

theorem redis_keys_injective:
  "(limits_daily_key (date_text s) c r = limits_daily_key (date_text t) c' r') =
      (nat (s div day) = nat (t div day) \<and> c = c' \<and> r = r') \<and>
   (limits_velocity_key c r = limits_velocity_key c' r') = (c = c' \<and> r = r') \<and>
   (rate_limit_key d v b = rate_limit_key d' v' b') = (d = d' \<and> v = v' \<and> b = b') \<and>
   (aml_history_key c = aml_history_key c') = (c = c')"
proof (intro conjI iffI)
  assume eq: "limits_daily_key (date_text s) c r = limits_daily_key (date_text t) c' r'"
  note d = limits_daily_key_inj [OF date_text_no_colon date_text_no_colon eq]
  show "nat (s div day) = nat (t div day)" using d by (intro date_text_inj) simp
  show "c = c'" and "r = r'" using d by simp_all
next
  assume "nat (s div day) = nat (t div day) \<and> c = c' \<and> r = r'"
  moreover from this have "date_text s = date_text t" by (simp add: date_text_def)
  ultimately show "limits_daily_key (date_text s) c r = limits_daily_key (date_text t) c' r'" by simp
qed (auto dest: limits_velocity_key_inj rate_limit_key_inj aml_history_key_inj)

text \<open>
  C36: the scoped idempotency key identifies merchant and key as long as merchant identifiers have no colon;
  with colons two merchants share one lock.
\<close>

theorem idempotency_key_scope:
  assumes "CHR '':'' \<notin> set m" and "CHR '':'' \<notin> set m'"
  shows "(idempotency_scoped_key m k = idempotency_scoped_key m' k') = (m = m' \<and> k = k') \<and>
    idempotency_scoped_key (m @ '':'' @ x) k = idempotency_scoped_key m (x @ '':'' @ k)"
  using idempotency_scoped_key_inj [OF assms] idempotency_scoped_key_collision by auto

lemma idempotency_key_scope_witness:
  "idempotency_scoped_key ''shop'' ''k1'' \<noteq> idempotency_scoped_key ''shop'' ''k2'' \<and>
   idempotency_scoped_key ''shop:eu'' ''k1'' = idempotency_scoped_key ''shop'' ''eu:k1''"
proof -
  have c: "CHR '':'' \<notin> set ''shop''" by simp
  have k: "''k1'' \<noteq> ''k2''" by simp
  have t: "''shop'' @ '':'' @ ''eu'' = ''shop:eu''" "''eu'' @ '':'' @ ''k1'' = ''eu:k1''" by simp_all
  from idempotency_key_scope [OF c c, of "''k1''" "''k2''"] k
  have "idempotency_scoped_key ''shop'' ''k1'' \<noteq> idempotency_scoped_key ''shop'' ''k2''" by blast
  moreover from idempotency_key_scope [OF c c, of "''k1''" "''k1''" "''eu''", unfolded t]
  have "idempotency_scoped_key ''shop:eu'' ''k1'' = idempotency_scoped_key ''shop'' ''eu:k1''" by blast
  ultimately show ?thesis ..
qed

section \<open>The log\<close>

text \<open>
  What a log line may depend on: \<open>hide\<close> blanks the values stored under a redacted key, at any depth.
\<close>

definition redacted_key :: "pykey \<Rightarrow> bool" where
  "redacted_key k \<longleftrightarrow> py_lower (key_text k) \<in> set REDACTED_FIELDS"

fun hide :: "pyval \<Rightarrow> pyval" where
  "hide (PDict kvs) = PDict (map (\<lambda>(k, v). (k, if redacted_key k then PNone else hide v)) kvs)"
| "hide (PList vs) = PList (map hide vs)"
| "hide (PTuple vs) = PTuple (map hide vs)"
| "hide v = v"

lemma sanitize_mapping_hide:
  assumes "\<And>k v. (k, v) \<in> set kvs \<Longrightarrow> f (hide v) = f v"
  shows "sanitize_mapping f (map (\<lambda>(k, v). (k, if redacted_key k then PNone else hide v)) kvs) = sanitize_mapping f kvs"
proof -
  have "fold (\<lambda>(k, v). dict_set (KStr (key_text k))
             (if py_lower (key_text k) \<in> set REDACTED_FIELDS then PStr REDACTED else f v))
          (map (\<lambda>(k, v). (k, if redacted_key k then PNone else hide v)) kvs) acc =
        fold (\<lambda>(k, v). dict_set (KStr (key_text k))
             (if py_lower (key_text k) \<in> set REDACTED_FIELDS then PStr REDACTED else f v)) kvs acc" for acc
    using assms by (induction kvs arbitrary: acc) (fastforce simp: redacted_key_def)+
  then show ?thesis by (simp add: sanitize_mapping_def)
qed

lemma sanitize_left_hide: "sanitize_left n (hide v) = sanitize_left n v"
proof (induction n arbitrary: v)
  case (Suc n)
  show ?case by (cases v) (simp_all add: sanitize_mapping_hide Suc)
qed simp

text \<open>
  C37: nothing stored under \<open>destination\<close>, \<open>pix_key\<close>, \<open>beneficiary\<close>, \<open>card_number\<close> or \<open>pan\<close> (in any case, at any
  depth) can influence a log line: two values that differ only there are sanitised to the same value.
\<close>

theorem redacted_fields_not_logged:
  assumes "hide u = hide v"
  shows "sanitize_value u depth = sanitize_value v depth"
  by (metis assms sanitize_left_hide sanitize_value_def)

lemma redacted_fields_not_logged_witness:
  "sanitize_value (PDict [(KStr ''Destination'', PStr ''d1''), (KStr ''x'', PInt 1)]) 0 =
   sanitize_value (PDict [(KStr ''Destination'', PInt 7), (KStr ''x'', PInt 1)]) 0"
proof -
  have "hide (PDict [(KStr ''Destination'', PStr ''d1''), (KStr ''x'', PInt 1)]) =
    hide (PDict [(KStr ''Destination'', PInt 7), (KStr ''x'', PInt 1)])" by code_simp
  then show ?thesis by (rule redacted_fields_not_logged)
qed


section \<open>The HTTP layer\<close>






end
