(* ===== verification/Schema.thy ===== *)
theory Schema
  imports Contracts
begin

text \<open>
  The database schema, twice: as the migration of \<open>alembic/versions\<close> builds it and as the ORM
  classes of \<open>shared/contracts/persistence.py\<close> describe it.  A catalogue holds tables and
  indexes; a migration is a list of operations, each of which the database refuses when a
  relation of that name exists, a table or column it needs does not, or a table is still
  referenced.
\<close>

section \<open>Catalogues\<close>

text \<open>
  \<open>EnumText\<close> is SQLAlchemy's \<open>Enum(..., native_enum=False)\<close>: a text column as wide as its longest
  label.  A default of the server is a literal or an SQL expression.
\<close>

datatype column_type =
    Varchar nat
  | EnumText "string list"
  | Timestamptz
  | Numeric nat nat
  | Integer32
  | Uuid
  | Jsonb

datatype server_default = Literal string | SqlText string

record column =
  col_name :: string
  col_type :: column_type
  col_nullable :: bool
  col_default :: "server_default option"

record table =
  tb_name :: string
  tb_columns :: "column list"
  tb_primary_key :: "string list"
  tb_foreign_keys :: "(string list \<times> string \<times> string list) list"
  tb_unique :: "(string \<times> string list) list"

record table_index =
  ix_name :: string
  ix_table :: string
  ix_columns :: "string list"

record catalog =
  ct_tables :: "table list"
  ct_indexes :: "table_index list"

text \<open>Tables, indexes and named unique constraints share one namespace.\<close>

definition table_relations :: "table \<Rightarrow> string list" where
  "table_relations t = tb_name t # map fst (tb_unique t)"

definition relations :: "catalog \<Rightarrow> string list" where
  "relations c = concat (map table_relations (ct_tables c)) @ map ix_name (ct_indexes c)"

definition references_ok :: "catalog \<Rightarrow> table \<Rightarrow> bool" where
  "references_ok c t \<longleftrightarrow> list_all (\<lambda>(cols, target, target_cols).
     list_ex (\<lambda>u. tb_name u = target \<and> tb_primary_key u = target_cols) (ct_tables c)) (tb_foreign_keys t)"

definition referenced :: "catalog \<Rightarrow> string \<Rightarrow> bool" where
  "referenced c name \<longleftrightarrow> list_ex (\<lambda>t. tb_name t \<noteq> name \<and>
     list_ex (\<lambda>(cols, target, target_cols). target = name) (tb_foreign_keys t)) (ct_tables c)"

definition has_columns :: "catalog \<Rightarrow> string \<Rightarrow> string list \<Rightarrow> bool" where
  "has_columns c name cols \<longleftrightarrow> list_ex (\<lambda>t. tb_name t = name \<and>
     list_all (\<lambda>x. x \<in> set (map col_name (tb_columns t))) cols) (ct_tables c)"

section \<open>Migrations\<close>

datatype migration_op =
    CreateTable table
  | CreateIndex string string "string list"
  | DropIndex string
  | DropTable string

fun apply_op :: "migration_op \<Rightarrow> catalog \<Rightarrow> catalog option" where
  "apply_op (CreateTable t) c =
     (if list_ex (\<lambda>r. r \<in> set (relations c)) (table_relations t) \<or> \<not> references_ok c t then None
      else Some (c\<lparr>ct_tables := ct_tables c @ [t]\<rparr>))"
| "apply_op (CreateIndex name table cols) c =
     (if name \<in> set (relations c) \<or> \<not> has_columns c table cols then None
      else Some (c\<lparr>ct_indexes := ct_indexes c @ [\<lparr>ix_name = name, ix_table = table, ix_columns = cols\<rparr>]\<rparr>))"
| "apply_op (DropIndex name) c =
     (if name \<notin> set (map ix_name (ct_indexes c)) then None
      else Some (c\<lparr>ct_indexes := filter (\<lambda>i. ix_name i \<noteq> name) (ct_indexes c)\<rparr>))"
| "apply_op (DropTable name) c =
     (if name \<notin> set (map tb_name (ct_tables c)) \<or> referenced c name then None
      else Some (c\<lparr>ct_tables := filter (\<lambda>t. tb_name t \<noteq> name) (ct_tables c),
                   ct_indexes := filter (\<lambda>i. ix_table i \<noteq> name) (ct_indexes c)\<rparr>))"

text \<open>A migration runs in one transaction: all of its operations, or none.\<close>

primrec run_ops :: "migration_op list \<Rightarrow> catalog \<Rightarrow> catalog option" where
  "run_ops [] c = Some c"
| "run_ops (x # xs) c = (case apply_op x c of None \<Rightarrow> None | Some d \<Rightarrow> run_ops xs d)"

lemma run_ops_append:
  "run_ops (xs @ ys) c = (case run_ops xs c of None \<Rightarrow> None | Some d \<Rightarrow> run_ops ys d)"
  by (induction xs arbitrary: c) (auto split: option.splits)

section \<open>The initial migration\<close>

text \<open>\<open>sa.Column(name, type, nullable=False)\<close>; the keyword \<open>nullable\<close> is \<open>True\<close> when left out.\<close>

definition required :: "string \<Rightarrow> column_type \<Rightarrow> column" where
  "required name ty = \<lparr>col_name = name, col_type = ty, col_nullable = False, col_default = None\<rparr>"

definition optional :: "string \<Rightarrow> column_type \<Rightarrow> column" where
  "optional name ty = \<lparr>col_name = name, col_type = ty, col_nullable = True, col_default = None\<rparr>"

definition with_default :: "server_default \<Rightarrow> column \<Rightarrow> column" where
  "with_default v c = c\<lparr>col_default := Some v\<rparr>"

definition now_default :: server_default where
  "now_default = SqlText ''now()''"

text \<open>An integer primary key is numbered by the database (\<open>SERIAL\<close>).\<close>

definition serial :: "string \<Rightarrow> column" where
  "serial name = with_default (SqlText ''nextval'') (required name Integer32)"

definition rail_labels :: "string list" where
  "rail_labels = [''PIX'', ''BOLETO'', ''TED'', ''CARD'']"

definition customers_table :: table where
  "customers_table =
     \<lparr>tb_name = ''customers'',
      tb_columns =
        [required ''customer_id'' (Varchar 128),
         required ''kyc_level'' (EnumText [''NONE'', ''BASIC'', ''FULL'']),
         required ''status'' (EnumText [''ACTIVE'', ''SUSPENDED'']),
         with_default now_default (optional ''created_at'' Timestamptz)],
      tb_primary_key = [''customer_id''], tb_foreign_keys = [], tb_unique = []\<rparr>"

definition limits_policies_table :: table where
  "limits_policies_table =
     \<lparr>tb_name = ''limits_policies'',
      tb_columns =
        [with_default (Literal ''RECEIVED'') (required ''rail'' (EnumText rail_labels)),
         required ''min_amount'' (Numeric 18 2),
         required ''max_amount'' (Numeric 18 2),
         required ''daily_limit_amount'' (Numeric 18 2),
         required ''velocity_limit_count'' Integer32,
         required ''velocity_window_seconds'' Integer32],
      tb_primary_key = [''rail''], tb_foreign_keys = [], tb_unique = []\<rparr>"

definition payments_table :: table where
  "payments_table =
     \<lparr>tb_name = ''payments'',
      tb_columns =
        [required ''payment_id'' Uuid,
         required ''merchant_id'' (Varchar 128),
         required ''customer_id'' (Varchar 128),
         required ''account_id'' (Varchar 128),
         required ''amount'' (Numeric 18 2),
         required ''currency'' (Varchar 3),
         required ''method'' (EnumText rail_labels),
         optional ''destination'' (Varchar 128),
         required ''status'' (EnumText [''RECEIVED'', ''VALIDATED'', ''IN_REVIEW'', ''PROCESSING'',
           ''CONFIRMED'', ''FAILED'', ''BLOCKED'']),
         required ''idempotency_key'' (Varchar 128),
         optional ''risk_score'' Integer32,
         optional ''risk_decision'' (EnumText [''ALLOW'', ''REVIEW'', ''BLOCK'']),
         optional ''aml_decision'' (EnumText [''ALLOW'', ''REVIEW'', ''BLOCK'']),
         optional ''metadata'' Jsonb,
         optional ''last_error'' (Varchar 512),
         with_default now_default (optional ''created_at'' Timestamptz),
         with_default now_default (optional ''updated_at'' Timestamptz),
         with_default (Literal ''1'') (required ''version'' Integer32)],
      tb_primary_key = [''payment_id''],
      tb_foreign_keys = [([''customer_id''], ''customers'', [''customer_id''])],
      tb_unique = [(''uq_payment_merchant_idempotency'', [''merchant_id'', ''idempotency_key''])]\<rparr>"

definition outbox_events_table :: table where
  "outbox_events_table =
     \<lparr>tb_name = ''outbox_events'',
      tb_columns =
        [required ''event_id'' Uuid,
         required ''aggregate_id'' Uuid,
         required ''event_type'' (EnumText [''PaymentRequested'', ''PaymentConfirmed'',
           ''PaymentFailed'', ''PaymentReviewRequired'']),
         required ''payload'' Jsonb,
         with_default (Literal ''PENDING'')
           (required ''status'' (EnumText [''PENDING'', ''SENT'', ''FAILED''])),
         with_default now_default (optional ''created_at'' Timestamptz),
         with_default (Literal ''0'') (required ''attempts'' Integer32),
         with_default now_default (required ''next_attempt_at'' Timestamptz)],
      tb_primary_key = [''event_id''], tb_foreign_keys = [], tb_unique = []\<rparr>"

definition idempotency_records_table :: table where
  "idempotency_records_table =
     \<lparr>tb_name = ''idempotency_records'',
      tb_columns =
        [serial ''id'',
         required ''merchant_id'' (Varchar 128),
         required ''idempotency_key'' (Varchar 128),
         required ''payment_id'' Uuid,
         required ''status_code'' Integer32,
         required ''response_payload'' Jsonb,
         with_default now_default (optional ''created_at'' Timestamptz)],
      tb_primary_key = [''id''], tb_foreign_keys = [],
      tb_unique = [(''uq_idempotency_scope'', [''merchant_id'', ''idempotency_key''])]\<rparr>"

definition upgrade :: "migration_op list" where
  "upgrade =
     [CreateTable customers_table,
      CreateTable limits_policies_table,
      CreateTable payments_table,
      CreateIndex ''ix_payments_merchant_id'' ''payments'' [''merchant_id''],
      CreateIndex ''ix_payments_customer_id'' ''payments'' [''customer_id''],
      CreateIndex ''ix_payments_account_id'' ''payments'' [''account_id''],
      CreateTable outbox_events_table,
      CreateIndex ''ix_outbox_events_aggregate_id'' ''outbox_events'' [''aggregate_id''],
      CreateIndex ''ix_outbox_events_event_type'' ''outbox_events'' [''event_type''],
      CreateIndex ''ix_outbox_events_status'' ''outbox_events'' [''status''],
      CreateIndex ''ix_outbox_events_next_attempt_at'' ''outbox_events'' [''next_attempt_at''],
      CreateTable idempotency_records_table,
      CreateIndex ''ix_idempotency_records_merchant_id'' ''idempotency_records'' [''merchant_id''],
      CreateIndex ''ix_idempotency_records_payment_id'' ''idempotency_records'' [''payment_id'']]"

definition downgrade :: "migration_op list" where
  "downgrade =
     [DropIndex ''ix_idempotency_records_payment_id'',
      DropIndex ''ix_idempotency_records_merchant_id'',
      DropTable ''idempotency_records'',
      DropIndex ''ix_outbox_events_next_attempt_at'',
      DropIndex ''ix_outbox_events_status'',
      DropIndex ''ix_outbox_events_event_type'',
      DropIndex ''ix_outbox_events_aggregate_id'',
      DropTable ''outbox_events'',
      DropIndex ''ix_payments_account_id'',
      DropIndex ''ix_payments_customer_id'',
      DropIndex ''ix_payments_merchant_id'',
      DropTable ''payments'',
      DropTable ''limits_policies'',
      DropTable ''customers'']"

section \<open>Undoing a migration\<close>

definition catalog_ok :: "catalog \<Rightarrow> bool" where
  "catalog_ok c \<longleftrightarrow>
     (\<forall>i\<in>set (ct_indexes c). ix_table i \<in> tb_name ` set (ct_tables c)) \<and>
     (\<forall>t\<in>set (ct_tables c). \<forall>(cols, target, target_cols)\<in>set (tb_foreign_keys t).
        target \<in> tb_name ` set (ct_tables c))"

fun undo :: "migration_op \<Rightarrow> migration_op" where
  "undo (CreateTable t) = DropTable (tb_name t)"
| "undo (CreateIndex name table cols) = DropIndex name"
| "undo (DropIndex name) = DropIndex name"
| "undo (DropTable name) = DropTable name"

fun creates :: "migration_op \<Rightarrow> bool" where
  "creates (CreateTable t) = True"
| "creates (CreateIndex name table cols) = True"
| "creates (DropIndex name) = False"
| "creates (DropTable name) = False"

lemma name_in_relations: "t \<in> set (ct_tables c) \<Longrightarrow> tb_name t \<in> set (relations c)"
  by (auto simp: relations_def table_relations_def)

lemma index_in_relations: "i \<in> set (ct_indexes c) \<Longrightarrow> ix_name i \<in> set (relations c)"
  by (auto simp: relations_def)

lemma filter_other: "(\<And>x. x \<in> set xs \<Longrightarrow> P x) \<Longrightarrow> filter P xs = xs"
  by (simp add: filter_id_conv)

lemma undo_create_table:
  assumes ok: "catalog_ok c" and d: "apply_op (CreateTable t) c = Some d"
  shows "apply_op (DropTable (tb_name t)) d = Some c \<and> catalog_ok d"
proof -
  from d have d: "d = c\<lparr>ct_tables := ct_tables c @ [t]\<rparr>" and fresh: "tb_name t \<notin> set (relations c)"
    and refs: "references_ok c t" by (auto simp: table_relations_def split: if_splits)
  have other: "tb_name u \<noteq> tb_name t" if "u \<in> set (ct_tables c)" for u
    using name_in_relations [OF that] fresh by metis
  have index: "ix_table i \<noteq> tb_name t" if "i \<in> set (ct_indexes c)" for i
    using ok that other by (force simp: catalog_ok_def)
  have target: "target \<noteq> tb_name t"
    if "u \<in> set (ct_tables c)" "(cols, target, target_cols) \<in> set (tb_foreign_keys u)" for u cols target target_cols
    using ok that other by (force simp: catalog_ok_def)
  have "\<not> referenced d (tb_name t)"
    using target by (force simp: referenced_def d list_ex_iff)
  moreover have "filter (\<lambda>u. tb_name u \<noteq> tb_name t) (ct_tables c) = ct_tables c"
    "filter (\<lambda>i. ix_table i \<noteq> tb_name t) (ct_indexes c) = ct_indexes c"
    using other index by (auto intro: filter_other)
  ultimately have "apply_op (DropTable (tb_name t)) d = Some c" by (simp add: d)
  moreover have "target \<in> tb_name ` set (ct_tables c)"
    if "(cols, target, target_cols) \<in> set (tb_foreign_keys t)" for cols target target_cols
    using refs that by (fastforce simp: references_ok_def list_all_iff list_ex_iff)
  then have "catalog_ok d" using ok by (fastforce simp: catalog_ok_def d)
  ultimately show ?thesis ..
qed

lemma undo_create_index:
  assumes ok: "catalog_ok c" and d: "apply_op (CreateIndex name tab cols) c = Some d"
  shows "apply_op (DropIndex name) d = Some c \<and> catalog_ok d"
proof -
  from d have d: "d = c\<lparr>ct_indexes := ct_indexes c @ [\<lparr>ix_name = name, ix_table = tab, ix_columns = cols\<rparr>]\<rparr>"
    and fresh: "name \<notin> set (relations c)" and cols: "has_columns c tab cols" by (auto split: if_splits)
  have "filter (\<lambda>i. ix_name i \<noteq> name) (ct_indexes c) = ct_indexes c"
    using fresh index_in_relations by (fastforce intro: filter_other)
  then have "apply_op (DropIndex name) d = Some c" by (simp add: d)
  moreover have "catalog_ok d" using ok cols by (force simp: catalog_ok_def d has_columns_def list_ex_iff)
  ultimately show ?thesis ..
qed

lemma undo_step:
  "catalog_ok c \<Longrightarrow> creates x \<Longrightarrow> apply_op x c = Some d \<Longrightarrow> apply_op (undo x) d = Some c \<and> catalog_ok d"
proof (cases x)
  case (CreateTable t)
  assume "catalog_ok c" "apply_op x c = Some d"
  then show ?thesis unfolding CreateTable undo.simps by (rule undo_create_table)
next
  case (CreateIndex name tab cols)
  assume "catalog_ok c" "apply_op x c = Some d"
  then show ?thesis unfolding CreateIndex undo.simps by (rule undo_create_index)
qed simp_all

lemma undo_ops:
  assumes "catalog_ok c" and "list_all creates xs" and "run_ops xs c = Some d"
  shows "run_ops (map undo (rev xs)) d = Some c"
  using assms
proof (induction xs arbitrary: c)
  case (Cons x xs)
  from Cons.prems(3) obtain y where y: "apply_op x c = Some y" "run_ops xs y = Some d"
    by (auto split: option.splits)
  have "apply_op (undo x) y = Some c \<and> catalog_ok y"
    using undo_step [OF Cons.prems(1) _ y(1)] Cons.prems(2) by simp
  then show ?case using Cons.IH [of y] Cons.prems(2) y(2) by (simp add: run_ops_append)
qed simp

lemma downgrade_is_undo: "downgrade = map undo (rev upgrade)"
  by (simp add: downgrade_def upgrade_def customers_table_def limits_policies_table_def
      payments_table_def outbox_events_table_def idempotency_records_table_def)

section \<open>What the migration builds\<close>

definition schema_tables :: "table list" where
  "schema_tables = [customers_table, limits_policies_table, payments_table, outbox_events_table,
     idempotency_records_table]"

definition index_on :: "string \<Rightarrow> string \<Rightarrow> table_index" where
  "index_on tab col = \<lparr>ix_name = ''ix_'' @ tab @ ''_'' @ col, ix_table = tab, ix_columns = [col]\<rparr>"

definition schema_indexes :: "table_index list" where
  "schema_indexes =
     map (index_on ''payments'') [''merchant_id'', ''customer_id'', ''account_id''] @
     map (index_on ''outbox_events'') [''aggregate_id'', ''event_type'', ''status'', ''next_attempt_at''] @
     map (index_on ''idempotency_records'') [''merchant_id'', ''payment_id'']"

definition migrated_catalog :: catalog where
  "migrated_catalog = \<lparr>ct_tables = schema_tables, ct_indexes = schema_indexes\<rparr>"

definition schema_relations :: "string list" where
  "schema_relations = concat (map table_relations schema_tables) @ map ix_name schema_indexes"

lemmas table_defs = customers_table_def limits_policies_table_def payments_table_def
  outbox_events_table_def idempotency_records_table_def

lemmas column_defs = required_def optional_def with_default_def now_default_def serial_def

text \<open>Creations that work on an empty catalogue work beside any catalogue with other names.\<close>

definition beside :: "catalog \<Rightarrow> catalog \<Rightarrow> catalog" where
  "beside c e = \<lparr>ct_tables = ct_tables c @ ct_tables e, ct_indexes = ct_indexes c @ ct_indexes e\<rparr>"

definition no_catalog :: catalog where
  "no_catalog = \<lparr>ct_tables = [], ct_indexes = []\<rparr>"

lemma relations_beside: "set (relations (beside c e)) = set (relations c) \<union> set (relations e)"
  by (auto simp: relations_def beside_def)

lemma beside_step:
  assumes "creates x" and "apply_op x e = Some e'" and "set (relations e') \<inter> set (relations c) = {}"
  shows "apply_op x (beside c e) = Some (beside c e') \<and> set (relations e) \<subseteq> set (relations e')"
proof (cases x)
  case (CreateTable t)
  with assms(2) have e': "e' = e\<lparr>ct_tables := ct_tables e @ [t]\<rparr>" and refs: "references_ok e t"
    and fresh: "set (table_relations t) \<inter> set (relations e) = {}" by (auto simp: list_ex_iff split: if_splits)
  have "set (relations e') = set (relations e) \<union> set (table_relations t)" by (auto simp: relations_def e')
  moreover have "references_ok (beside c e) t" using refs by (fastforce simp: references_ok_def beside_def list_all_iff)
  ultimately show ?thesis using assms(3) fresh CreateTable
    by (auto simp: relations_beside list_ex_iff) (auto simp: beside_def e')
next
  case (CreateIndex name tab cols)
  with assms(2) have e': "e' = e\<lparr>ct_indexes := ct_indexes e @ [\<lparr>ix_name = name, ix_table = tab, ix_columns = cols\<rparr>]\<rparr>"
    and refs: "has_columns e tab cols" and fresh: "name \<notin> set (relations e)" by (auto split: if_splits)
  have "set (relations e') = set (relations e) \<union> {name}" by (auto simp: relations_def e')
  moreover have "has_columns (beside c e) tab cols" using refs by (auto simp: has_columns_def beside_def)
  ultimately show ?thesis using assms(3) fresh CreateIndex
    by (auto simp: relations_beside) (auto simp: beside_def e')
qed (use assms in auto)

lemma beside_ops:
  assumes "list_all creates xs" and "run_ops xs e = Some e'" and "set (relations e') \<inter> set (relations c) = {}"
  shows "run_ops xs (beside c e) = Some (beside c e') \<and> set (relations e) \<subseteq> set (relations e')"
  using assms
proof (induction xs arbitrary: e)
  case (Cons x xs)
  from Cons.prems(2) obtain y where y: "apply_op x e = Some y" "run_ops xs y = Some e'"
    by (auto split: option.splits)
  have rest: "run_ops xs (beside c y) = Some (beside c e') \<and> set (relations y) \<subseteq> set (relations e')"
    using Cons.IH [of y] Cons.prems y(2) by simp
  then have "set (relations y) \<inter> set (relations c) = {}" using Cons.prems(3) by blast
  from beside_step [OF _ y(1) this] rest Cons.prems(1) show ?case by auto
qed simp

lemma upgrade_from_nothing:
  "run_ops upgrade no_catalog = Some migrated_catalog"
  by code_simp

lemma upgrade_creates: "list_all creates upgrade"
  by (simp add: upgrade_def)

lemma upgrade_runs:
  assumes "set schema_relations \<inter> set (relations c) = {}"
  shows "run_ops upgrade c = Some (beside c migrated_catalog)"
proof -
  have "beside c no_catalog = c" by (cases c) (simp add: beside_def no_catalog_def)
  then show ?thesis using beside_ops [OF upgrade_creates upgrade_from_nothing, of c] assms
    by (simp add: schema_relations_def relations_def migrated_catalog_def)
qed

section \<open>The schema of the ORM\<close>

text \<open>
  \<open>stored\<close> picks what SQLAlchemy persists of an enumeration's member, its name or its value: the
  default of \<open>sqlalchemy.Enum\<close> on a Python enumeration is the name, which is \<open>fst\<close>.  Python-side
  defaults are not part of the schema.  \<open>index=True\<close> names the index \<open>ix_<table>_<column>\<close>.
\<close>

type_synonym enum_member = "string \<times> string"

definition same_members :: "string list \<Rightarrow> enum_member list" where
  "same_members names = map (\<lambda>n. (n, n)) names"

definition kyc_level_members :: "enum_member list" where
  "kyc_level_members = same_members (map kyc_level_value [KYC_NONE, KYC_BASIC, KYC_FULL])"

definition customer_status_members :: "enum_member list" where
  "customer_status_members = same_members [''ACTIVE'', ''SUSPENDED'']"

definition payment_method_members :: "enum_member list" where
  "payment_method_members = same_members (map method_value [PIX, BOLETO, TED, CARD])"

definition payment_status_members :: "enum_member list" where
  "payment_status_members = same_members (map payment_status_value
     [RECEIVED, VALIDATED, IN_REVIEW, PROCESSING, CONFIRMED, FAILED, BLOCKED])"

definition decision_members :: "enum_member list" where
  "decision_members = same_members (map risk_value [RISK_ALLOW, RISK_REVIEW, RISK_BLOCK])"

definition outbox_status_members :: "enum_member list" where
  "outbox_status_members = same_members (map outbox_status_value [OB_PENDING, OB_SENT, OB_FAILED])"

primrec event_type_name :: "event_type \<Rightarrow> string" where
  "event_type_name PAYMENT_REQUESTED = ''PAYMENT_REQUESTED''"
| "event_type_name PAYMENT_CONFIRMED = ''PAYMENT_CONFIRMED''"
| "event_type_name PAYMENT_FAILED = ''PAYMENT_FAILED''"
| "event_type_name PAYMENT_REVIEW_REQUIRED = ''PAYMENT_REVIEW_REQUIRED''"

definition event_member :: "event_type \<Rightarrow> enum_member" where
  "event_member t = (event_type_name t, event_type_value t)"

definition event_type_members :: "enum_member list" where
  "event_type_members = map event_member
     [PAYMENT_REQUESTED, PAYMENT_CONFIRMED, PAYMENT_FAILED, PAYMENT_REVIEW_REQUIRED]"

definition orm_customers :: "(enum_member \<Rightarrow> string) \<Rightarrow> table" where
  "orm_customers stored =
     \<lparr>tb_name = ''customers'',
      tb_columns =
        [required ''customer_id'' (Varchar 128),
         required ''kyc_level'' (EnumText (map stored kyc_level_members)),
         required ''status'' (EnumText (map stored customer_status_members)),
         with_default now_default (required ''created_at'' Timestamptz)],
      tb_primary_key = [''customer_id''], tb_foreign_keys = [], tb_unique = []\<rparr>"

definition orm_limits_policies :: "(enum_member \<Rightarrow> string) \<Rightarrow> table" where
  "orm_limits_policies stored =
     \<lparr>tb_name = ''limits_policies'',
      tb_columns =
        [required ''rail'' (EnumText (map stored payment_method_members)),
         required ''min_amount'' (Numeric 18 2),
         required ''max_amount'' (Numeric 18 2),
         required ''daily_limit_amount'' (Numeric 18 2),
         required ''velocity_limit_count'' Integer32,
         required ''velocity_window_seconds'' Integer32],
      tb_primary_key = [''rail''], tb_foreign_keys = [], tb_unique = []\<rparr>"

definition orm_payments :: "(enum_member \<Rightarrow> string) \<Rightarrow> table" where
  "orm_payments stored =
     \<lparr>tb_name = ''payments'',
      tb_columns =
        [required ''payment_id'' Uuid,
         required ''merchant_id'' (Varchar 128),
         required ''customer_id'' (Varchar 128),
         required ''account_id'' (Varchar 128),
         required ''amount'' (Numeric 18 2),
         required ''currency'' (Varchar 3),
         required ''method'' (EnumText (map stored payment_method_members)),
         optional ''destination'' (Varchar 128),
         required ''status'' (EnumText (map stored payment_status_members)),
         required ''idempotency_key'' (Varchar 128),
         optional ''risk_score'' Integer32,
         optional ''risk_decision'' (EnumText (map stored decision_members)),
         optional ''aml_decision'' (EnumText (map stored decision_members)),
         optional ''metadata'' Jsonb,
         optional ''last_error'' (Varchar 512),
         with_default now_default (required ''created_at'' Timestamptz),
         with_default now_default (required ''updated_at'' Timestamptz),
         required ''version'' Integer32],
      tb_primary_key = [''payment_id''],
      tb_foreign_keys = [([''customer_id''], ''customers'', [''customer_id''])],
      tb_unique = [(''uq_payment_merchant_idempotency'', [''merchant_id'', ''idempotency_key''])]\<rparr>"

definition orm_outbox_events :: "(enum_member \<Rightarrow> string) \<Rightarrow> table" where
  "orm_outbox_events stored =
     \<lparr>tb_name = ''outbox_events'',
      tb_columns =
        [required ''event_id'' Uuid,
         required ''aggregate_id'' Uuid,
         required ''event_type'' (EnumText (map stored event_type_members)),
         required ''payload'' Jsonb,
         required ''status'' (EnumText (map stored outbox_status_members)),
         with_default now_default (required ''created_at'' Timestamptz),
         required ''attempts'' Integer32,
         required ''next_attempt_at'' Timestamptz],
      tb_primary_key = [''event_id''], tb_foreign_keys = [], tb_unique = []\<rparr>"

definition orm_idempotency_records :: table where
  "orm_idempotency_records =
     \<lparr>tb_name = ''idempotency_records'',
      tb_columns =
        [serial ''id'',
         required ''merchant_id'' (Varchar 128),
         required ''idempotency_key'' (Varchar 128),
         required ''payment_id'' Uuid,
         required ''status_code'' Integer32,
         required ''response_payload'' Jsonb,
         with_default now_default (required ''created_at'' Timestamptz)],
      tb_primary_key = [''id''], tb_foreign_keys = [],
      tb_unique = [(''uq_idempotency_scope'', [''merchant_id'', ''idempotency_key''])]\<rparr>"

definition orm_catalog :: "(enum_member \<Rightarrow> string) \<Rightarrow> catalog" where
  "orm_catalog stored =
     \<lparr>ct_tables = [orm_customers stored, orm_limits_policies stored, orm_payments stored,
        orm_outbox_events stored, orm_idempotency_records],
      ct_indexes =
        map (index_on ''payments'') [''merchant_id'', ''customer_id'', ''account_id''] @
        map (index_on ''outbox_events'') [''aggregate_id'', ''event_type'', ''status'', ''next_attempt_at''] @
        map (index_on ''idempotency_records'') [''merchant_id'', ''payment_id'']\<rparr>"

section \<open>Comparing the two\<close>

datatype column_field = FieldType | FieldNullable | FieldDefault

definition column_diff :: "column \<Rightarrow> column \<Rightarrow> column_field list" where
  "column_diff a b =
     (if col_type a = col_type b then [] else [FieldType]) @
     (if col_nullable a = col_nullable b then [] else [FieldNullable]) @
     (if col_default a = col_default b then [] else [FieldDefault])"

definition table_diff :: "table \<Rightarrow> table \<Rightarrow> (string \<times> string \<times> column_field list) list" where
  "table_diff a b =
     filter (\<lambda>(t, c, fs). fs \<noteq> [])
       (map (\<lambda>(x, y). (tb_name a, col_name x, column_diff x y)) (zip (tb_columns a) (tb_columns b)))"

definition schema_diff :: "catalog \<Rightarrow> catalog \<Rightarrow> (string \<times> string \<times> column_field list) list" where
  "schema_diff c d = concat (map (\<lambda>(a, b). table_diff a b) (zip (ct_tables c) (ct_tables d)))"

text \<open>Everything but the types, nullability and defaults of the columns agrees.\<close>

definition table_shape where
  "table_shape t = (tb_name t, map col_name (tb_columns t), tb_primary_key t, tb_foreign_keys t, tb_unique t)"

definition same_shape :: "catalog \<Rightarrow> catalog \<Rightarrow> bool" where
  "same_shape c d \<longleftrightarrow> map table_shape (ct_tables c) = map table_shape (ct_tables d) \<and> ct_indexes c = ct_indexes d"

end
