(* ===== verification/Conformance.thy ===== *)
theory Conformance
  imports Schema System QuietRuns
begin

text \<open>
  The rows the program stores against the columns the migration creates.  \<open>misfits\<close> lists the
  columns of a table whose value the database would refuse.  Every row that the services write,
  from requests that the request model accepts, fits its table, except for the type of the
  review event.
\<close>

section \<open>Values and columns\<close>

datatype cell =
    CNull
  | CText string
  | CInt int
  | CDec decimal
  | CTime moment
  | CUuid uuid
  | CJson pyval

definition int32 :: "int \<Rightarrow> bool" where
  "int32 n \<longleftrightarrow> - (2 ^ 31) \<le> n \<and> n < 2 ^ 31"

text \<open>\<open>NUMERIC(p, s)\<close>: at most \<open>s\<close> decimals and fewer than \<open>p\<close> digits in all.\<close>

definition fits_numeric :: "nat \<Rightarrow> nat \<Rightarrow> decimal \<Rightarrow> bool" where
  "fits_numeric p s d \<longleftrightarrow> - int s \<le> exponent d \<and>
     \<bar>coefficient d * 10 ^ nat (exponent d + int s)\<bar> < 10 ^ p"

definition enum_width :: "string list \<Rightarrow> nat" where
  "enum_width labels = foldr (\<lambda>s n. max (length s) n) labels 0"

fun fits_type :: "column_type \<Rightarrow> cell \<Rightarrow> bool" where
  "fits_type (Varchar n) (CText s) = (length s \<le> n)"
| "fits_type (EnumText labels) (CText s) = (length s \<le> enum_width labels)"
| "fits_type Timestamptz (CTime t) = True"
| "fits_type (Numeric p s) (CDec d) = fits_numeric p s d"
| "fits_type Integer32 (CInt n) = int32 n"
| "fits_type Uuid (CUuid u) = True"
| "fits_type Jsonb (CJson v) = True"
| "fits_type _ _ = False"

text \<open>A column that is not given a value gets its default, or null.\<close>

definition fits :: "column \<Rightarrow> cell option \<Rightarrow> bool" where
  "fits c v = (case v of
       None \<Rightarrow> col_default c \<noteq> None \<or> col_nullable c
     | Some CNull \<Rightarrow> col_nullable c
     | Some x \<Rightarrow> fits_type (col_type c) x)"

definition misfits :: "table \<Rightarrow> (string \<times> cell) list \<Rightarrow> string list" where
  "misfits t cells =
     map col_name (filter (\<lambda>c. \<not> fits c (map_of cells (col_name c))) (tb_columns t))"

section \<open>The rows\<close>

definition opt_cell :: "('a \<Rightarrow> cell) \<Rightarrow> 'a option \<Rightarrow> cell" where
  "opt_cell f x = (case x of None \<Rightarrow> CNull | Some a \<Rightarrow> f a)"

primrec customer_status_value :: "customer_status \<Rightarrow> string" where
  "customer_status_value ACTIVE = ''ACTIVE''"
| "customer_status_value SUSPENDED = ''SUSPENDED''"

text \<open>
  Name and value of a member differ only in \<open>EventType\<close>, so \<open>stored\<close> matters only there.
\<close>

definition customer_cells :: "customer_row \<Rightarrow> (string \<times> cell) list" where
  "customer_cells c =
     [(''customer_id'', CText (cu_customer_id c)),
      (''kyc_level'', CText (kyc_level_value (cu_kyc_level c))),
      (''status'', CText (customer_status_value (cu_status c))),
      (''created_at'', opt_cell CTime (cu_created_at c))]"

definition limits_cells :: "limits_policy_row \<Rightarrow> (string \<times> cell) list" where
  "limits_cells l =
     [(''rail'', CText (method_value (lr_rail l))),
      (''min_amount'', CDec (lr_min_amount l)),
      (''max_amount'', CDec (lr_max_amount l)),
      (''daily_limit_amount'', CDec (lr_daily_limit_amount l)),
      (''velocity_limit_count'', CInt (lr_velocity_limit_count l)),
      (''velocity_window_seconds'', CInt (lr_velocity_window_seconds l))]"

definition payment_cells :: "payment_row \<Rightarrow> (string \<times> cell) list" where
  "payment_cells p =
     [(''payment_id'', CUuid (p_payment_id p)),
      (''merchant_id'', CText (p_merchant_id p)),
      (''customer_id'', CText (p_customer_id p)),
      (''account_id'', CText (p_account_id p)),
      (''amount'', CDec (p_amount p)),
      (''currency'', CText (p_currency p)),
      (''method'', CText (method_value (p_method p))),
      (''destination'', opt_cell CText (p_destination p)),
      (''status'', CText (payment_status_value (p_status p))),
      (''idempotency_key'', CText (p_idempotency_key p)),
      (''risk_score'', opt_cell CInt (p_risk_score p)),
      (''risk_decision'', opt_cell (\<lambda>r. CText (risk_value r)) (p_risk_decision p)),
      (''aml_decision'', opt_cell (\<lambda>r. CText (aml_value r)) (p_aml_decision p)),
      (''metadata'', opt_cell CJson (p_metadata p)),
      (''last_error'', opt_cell CText (p_last_error p)),
      (''created_at'', CTime (p_created_at p)),
      (''updated_at'', CTime (p_updated_at p)),
      (''version'', CInt (p_version p))]"

definition outbox_cells :: "(enum_member \<Rightarrow> string) \<Rightarrow> outbox_row \<Rightarrow> (string \<times> cell) list" where
  "outbox_cells stored e =
     [(''event_id'', CUuid (ob_event_id e)),
      (''aggregate_id'', CUuid (ob_aggregate_id e)),
      (''event_type'', CText (stored (event_member (ob_event_type e)))),
      (''payload'', CJson (ob_payload e)),
      (''status'', CText (outbox_status_value (ob_status e))),
      (''created_at'', CTime (ob_created_at e)),
      (''attempts'', CInt (ob_attempts e)),
      (''next_attempt_at'', CTime (ob_next_attempt_at e))]"

definition idempotency_cells :: "idempotency_row \<Rightarrow> (string \<times> cell) list" where
  "idempotency_cells r =
     [(''merchant_id'', CText (ir_merchant_id r)),
      (''idempotency_key'', CText (ir_idempotency_key r)),
      (''payment_id'', CUuid (ir_payment_id r)),
      (''status_code'', CInt (ir_status_code r)),
      (''response_payload'', CJson (ir_response_payload r)),
      (''created_at'', CTime (ir_created_at r))]"

text \<open>What each row has to satisfy, written out.\<close>

definition short :: "nat \<Rightarrow> string option \<Rightarrow> bool" where
  "short n x \<longleftrightarrow> (case x of None \<Rightarrow> True | Some s \<Rightarrow> length s \<le> n)"

lemma fits_None [simp]: "fits c None \<longleftrightarrow> col_default c \<noteq> None \<or> col_nullable c"
  by (simp add: fits_def)

lemma fits_Some: "fits c (Some v) \<longleftrightarrow> (if v = CNull then col_nullable c else fits_type (col_type c) v)"
  by (cases v) (simp_all add: fits_def)

lemma fits_given [simp]:
  "fits c (Some (CText s)) = fits_type (col_type c) (CText s)"
  "fits c (Some (CInt n)) = fits_type (col_type c) (CInt n)"
  "fits c (Some (CDec d)) = fits_type (col_type c) (CDec d)"
  "fits c (Some (CTime t)) = fits_type (col_type c) (CTime t)"
  "fits c (Some (CUuid u)) = fits_type (col_type c) (CUuid u)"
  "fits c (Some (CJson j)) = fits_type (col_type c) (CJson j)"
  by (simp_all add: fits_Some)

lemma fits_opt:
  "fits c (Some (opt_cell f x)) \<longleftrightarrow> (case x of None \<Rightarrow> col_nullable c | Some a \<Rightarrow> fits c (Some (f a)))"
  by (cases x) (simp_all add: opt_cell_def fits_Some)

lemma misfits_columns:
  "set (misfits t cells) = {col_name c |c. c \<in> set (tb_columns t) \<and> \<not> fits c (map_of cells (col_name c))}"
  by (auto simp: misfits_def)

lemma method_width [simp]: "length (method_value m) \<le> 6" by (cases m) simp_all
lemma status_width [simp]: "length (payment_status_value s) \<le> 10" by (cases s) simp_all
lemma risk_width [simp]: "length (risk_value r) \<le> 6" by (cases r) simp_all
lemma aml_width [simp]: "length (aml_value a) \<le> 6" by (cases a) simp_all
lemma kyc_width [simp]: "length (kyc_level_value k) \<le> 5" by (cases k) simp_all
lemma customer_status_width [simp]: "length (customer_status_value c) \<le> 9" by (cases c) simp_all
lemma outbox_status_width [simp]: "length (outbox_status_value b) \<le> 7" by (cases b) simp_all

lemma enum_widths [simp]:
  "enum_width rail_labels = 6" "enum_width [''NONE'', ''BASIC'', ''FULL''] = 5"
  "enum_width [''ACTIVE'', ''SUSPENDED''] = 9"
  "enum_width [''RECEIVED'', ''VALIDATED'', ''IN_REVIEW'', ''PROCESSING'', ''CONFIRMED'', ''FAILED'', ''BLOCKED''] = 10"
  "enum_width [''ALLOW'', ''REVIEW'', ''BLOCK''] = 6" "enum_width [''PENDING'', ''SENT'', ''FAILED''] = 7"
  "enum_width [''PaymentRequested'', ''PaymentConfirmed'', ''PaymentFailed'', ''PaymentReviewRequired''] = 21"
  by (simp_all add: enum_width_def rail_labels_def)

definition typed_payment :: "payment_row \<Rightarrow> bool" where
  "typed_payment p \<longleftrightarrow>
     length (p_merchant_id p) \<le> 128 \<and> length (p_customer_id p) \<le> 128 \<and> length (p_account_id p) \<le> 128 \<and>
     fits_numeric 18 2 (p_amount p) \<and> length (p_currency p) \<le> 3 \<and> short 128 (p_destination p) \<and>
     length (p_idempotency_key p) \<le> 128 \<and>
     (case p_risk_score p of None \<Rightarrow> True | Some n \<Rightarrow> int32 n) \<and> short 512 (p_last_error p)"

lemma payment_misfits:
  "typed_payment p \<Longrightarrow> set (misfits payments_table (payment_cells p)) \<subseteq> {''version''}"
  by (simp add: misfits_def payments_table_def payment_cells_def column_defs fits_opt typed_payment_def short_def
      split: option.splits)

definition typed_snapshot :: "idempotency_row \<Rightarrow> bool" where
  "typed_snapshot r \<longleftrightarrow> length (ir_merchant_id r) \<le> 128 \<and> length (ir_idempotency_key r) \<le> 128 \<and>
     int32 (ir_status_code r)"

definition typed_limits :: "limits_policy_row \<Rightarrow> bool" where
  "typed_limits l \<longleftrightarrow> fits_numeric 18 2 (lr_min_amount l) \<and> fits_numeric 18 2 (lr_max_amount l) \<and>
     fits_numeric 18 2 (lr_daily_limit_amount l) \<and> int32 (lr_velocity_limit_count l) \<and>
     int32 (lr_velocity_window_seconds l)"

lemma other_misfits:
  "typed_snapshot r \<Longrightarrow> misfits idempotency_records_table (idempotency_cells r) = []"
  "typed_limits l \<Longrightarrow> misfits limits_policies_table (limits_cells l) = []"
  "length (cu_customer_id c) \<le> 128 \<Longrightarrow> misfits customers_table (customer_cells c) = []"
  by (simp add: misfits_def idempotency_records_table_def idempotency_cells_def column_defs typed_snapshot_def)
    (simp add: misfits_def limits_policies_table_def limits_cells_def column_defs typed_limits_def,
     simp add: misfits_def customers_table_def customer_cells_def column_defs fits_opt split: option.splits)

text \<open>
  An event fits unless its counter has overflown, or it asks for a review: the name of that type has 23
  characters and the column holds 21.
\<close>

lemma outbox_misfits:
  "set (misfits outbox_events_table (outbox_cells fst e)) =
     (if ob_event_type e = PAYMENT_REVIEW_REQUIRED then {''event_type''} else {}) \<union>
     (if int32 (ob_attempts e) then {} else {''attempts''})"
  by (cases "ob_event_type e")
     (simp_all add: misfits_def outbox_events_table_def outbox_cells_def column_defs event_member_def)

section \<open>Rows that stay typed\<close>

definition typed_tables :: "database \<Rightarrow> bool" where
  "typed_tables d \<longleftrightarrow> list_all typed_payment (db_payments d) \<and> list_all typed_snapshot (db_idempotency d) \<and>
     list_all typed_limits (db_limits d) \<and> list_all (\<lambda>c. length (cu_customer_id c) \<le> 128) (db_customers d)"

text \<open>Inside a transaction the pending writes keep the tables typed too.\<close>

definition typing :: "('e, 'm) world_scheme \<Rightarrow> bool" where
  "typing w \<longleftrightarrow> typed_tables (w_db w) \<and>
     (\<forall>f\<in>set (w_pending w). \<forall>d. typed_tables d \<longrightarrow> typed_tables (f d))"

lemma quiet_typing [keeps_intros]: "quiet typing"
  by (simp add: quiet_def typing_def)

lemma typed_fold: "typed_tables d \<Longrightarrow> (\<And>f d. f \<in> set fs \<Longrightarrow> typed_tables d \<Longrightarrow> typed_tables (f d)) \<Longrightarrow>
  typed_tables (fold (\<lambda>f d. f d) fs d)"
  by (induction fs arbitrary: d) auto

lemma typed_view: "typing w \<Longrightarrow> typed_tables (db_view w)"
  unfolding db_view_def typing_def by (intro typed_fold) auto

lemmas typed_view_pending = typed_view [unfolded typing_def, OF conjI]

definition others_typed :: "'e outside \<Rightarrow> bool" where
  "others_typed env \<longleftrightarrow> (\<forall>d e. typed_tables d \<longrightarrow> typed_tables (fst (o_interfere env d e)))"

lemma typing_interfere [keeps_intros]: "others_typed env \<Longrightarrow> keeps typing (interfere env)"
  by (auto simp: keeps_def interfere_def typing_def others_typed_def split: prod.split) (metis fst_conv)

lemma typing_commit [keeps_intros]: "others_typed env \<Longrightarrow> keeps typing (db_commit env)"
  unfolding db_commit_def
  by (intro keeps_bindM typing_interfere) (auto simp: keeps_def typing_def intro!: typed_view_pending)

lemma typing_rollback [keeps_intros]: "keeps typing db_rollback"
  by (simp add: keeps_def db_rollback_def typing_def)

lemma typing_session [keeps_intros]:
  fixes m :: "('e, 'm, 'a) act"
  assumes "keeps typing m"
  shows "keeps typing (in_session m)"
proof (rule keepsI)
  fix w :: "('e, 'm) world_scheme" assume "typing w"
  then have "typing (w\<lparr>w_pending := []\<rparr>)" by (simp add: typing_def)
  then have "typing (snd (m (w\<lparr>w_pending := []\<rparr>)))" using assms by (simp add: keeps_def)
  then show "typing (snd (in_session m w))" by (simp add: in_session_def case_prod_beta typing_def)
qed

lemma typing_write: "(\<And>d. typed_tables d \<Longrightarrow> typed_tables (f d)) \<Longrightarrow> keeps typing (db_write f)"
  by (auto simp: keeps_def db_write_def typing_def)

lemma typed_core: "typed_payment p \<longleftrightarrow> typed_payment (p_core p) \<and> short 512 (p_last_error p)"
  by (auto simp: typed_payment_def p_core_def short_def)

lemma typing_update_payments [keeps_intros]:
  assumes "others_typed env"
    and g: "\<And>p. p_core (g p) = p_core p \<and> (p_last_error (g p) = p_last_error p \<or> short 512 (p_last_error (g p)))"
  shows "keeps typing (db_update_payments env q g)"
proof -
  have "typed_payment (g p)" if "typed_payment p" for p
    using that g [of p] typed_core [of p] typed_core [of "g p"] by auto
  then show ?thesis unfolding db_update_payments_def
    by (intro keeps_intros typing_write assms(1)) (auto simp: typed_tables_def list_all_iff)
qed

lemma typing_update_outbox [keeps_intros]: "others_typed env \<Longrightarrow> keeps typing (db_update_outbox env q g)"
  unfolding db_update_outbox_def by (intro keeps_intros typing_write) (simp_all add: typed_tables_def)

lemma typing_add_event [keeps_intros]:
  "keeps typing (add_event env i t v)" "keeps typing (emit_event env i t v)"
  unfolding emit_event_add add_event_def
  by (intro keeps_intros typing_write; simp add: typed_tables_def)+

section \<open>The API\<close>

text \<open>
  The request model of \<open>POST /payments\<close>: \<open>amount > 0\<close>, a currency of three characters, brought to
  upper case, and a destination of at most 128.  \<open>amount\<close>, \<open>rail\<close> and \<open>metadata\<close> are already of their types.
\<close>

definition validate_create_request ::
  "decimal \<Rightarrow> string \<Rightarrow> payment_method \<Rightarrow> string option \<Rightarrow> pyval option \<Rightarrow> exn + create_payment_request" where
  "validate_create_request amount currency rail destination metadata =
     (if \<not> dec_lt (Dec 0 0) amount \<or> length currency \<noteq> 3 \<or> \<not> short 128 destination
      then Inl (PydanticValidationError ''CreatePaymentRequest'')
      else Inr \<lparr>rq_amount = amount, rq_currency = py_upper currency, rq_method = rail,
                rq_destination = destination, rq_metadata = metadata\<rparr>)"

text \<open>The column type of amounts: what \<open>NUMERIC(18, 2)\<close> accepts, it stores as a value it can hold.\<close>

definition numeric_column :: "'e outside \<Rightarrow> bool" where
  "numeric_column env \<longleftrightarrow> (\<forall>x y. o_numeric_18_2 env x = Some y \<longrightarrow> fits_numeric 18 2 y)"

definition typed_context :: "request_context \<times> create_payment_request \<Rightarrow> bool" where
  "typed_context x \<longleftrightarrow> (case x of (rx, request) \<Rightarrow>
     length (rx_merchant_id rx) \<le> 128 \<and> length (rx_customer_id rx) \<le> 128 \<and> length (rx_account_id rx) \<le> 128 \<and>
     length (rx_idempotency_key rx) \<le> 128 \<and> length (rq_currency request) \<le> 3 \<and> short 128 (rq_destination request))"

lemma normalize_currency_length: "normalize_currency uc c = Inr d \<Longrightarrow> length d = 3"
  by (auto simp: normalize_currency_def ensure_supported_currency_def CURRENCY_CODE_LENGTH_def Let_def
      split: sum.splits exn.splits if_splits)

lemma context_typed:
  assumes "build_request_context uc headers request w = (Inr x, w')" and "short 128 (rq_destination request)"
  shows "typed_context x"
  using assms unfolding build_request_context_def
  by (auto elim!: bindM_elim simp: from_result_def require_header_Inr MAX_HEADER_LENGTH_def typed_context_def
      dest!: normalize_currency_length split: sum.splits)

lemma score_typed:
  assumes "evaluate_controls env uc customer request evaluation cid w = (Inr decision, w')"
  shows "int32 (cd_risk_score decision)"
proof -
  have "int32 (risk_total c)" for c using risk_total_bounds [of c] by (simp add: int32_def)
  then show ?thesis
    using assms unfolding evaluate_controls_def evaluate_risk_def evaluate_aml_def risk_evaluate_def
    by (auto elim!: bindM_elim simp: Let_def split: prod.splits)
qed

lemma typing_create_row:
  assumes "numeric_column env" and "typed_context (rx, request)" and "int32 (cd_risk_score decision)"
  shows "keeps typing (create_payment_row env (payment_data rx request decision response))"
proof -
  have "typed_payment (new_payment_row (payment_data rx request decision response) amount now)"
    if "o_numeric_18_2 env (rq_amount request) = Some amount" for amount now
    using assms that
    by (auto simp: typed_payment_def new_payment_row_def payment_data_def typed_context_def numeric_column_def short_def)
  moreover have "pc_amount (payment_data rx request decision response) = rq_amount request"
    by (simp add: payment_data_def)
  ultimately show ?thesis unfolding create_payment_row_def
    by (cases "o_numeric_18_2 env (rq_amount request)")
       (auto intro!: keeps_intros typing_write simp: typed_tables_def)
qed

lemma typing_snapshot:
  assumes "typed_context (rx, request)"
  shows "keeps typing (create_snapshot env (rx_merchant_id rx) (rx_idempotency_key rx) i 202 v)"
  using assms unfolding create_snapshot_def
  by (intro keeps_intros typing_write) (simp add: typed_tables_def typed_snapshot_def typed_context_def int32_def)

lemma typing_transaction:
  assumes o: "others_typed env" and "numeric_column env" "typed_context (rx, request)" "int32 (cd_risk_score decision)"
  shows "keeps typing (persist_payment_transaction env rx request decision response)"
  unfolding persist_payment_transaction_def persist_payment_and_outbox_def persist_outbox_events_def
  by (intro keeps_intros typing_create_row assms typing_snapshot [where request = request])

lemma typing_create:
  fixes env :: "'e outside"
  assumes o: "others_typed env" and n: "numeric_column env" and request: "short 128 (rq_destination request)"
  shows "keeps typing (create_execute env uc request headers :: ('e, 'm, _) act)"
  unfolding create_execute_def acquire_idempotency_lock_def
proof (rule keeps_value [OF _ context_typed [OF _ request]])
  show "keeps typing (build_request_context uc headers request :: ('e, 'm, _) act)"
    by (rule keeps_use_case(9) [OF typing_interfere [OF o] quiet_typing])
next
  fix x :: "request_context \<times> create_payment_request" assume x: "typed_context x"
  obtain rx rq where eq: "x = (rx, rq)" by (cases x)
  note i = typing_interfere [OF o] quiet_typing
  have main: "keeps typing (bindM (build_response_payload env decision) (\<lambda>response.
      bindM (update_decision_correlation_fields decision) (\<lambda>_.
      bindM (persist_payment_transaction env rx rq decision response) (\<lambda>replayed.
      case replayed of Some r \<Rightarrow> ret r
      | None \<Rightarrow> bindM (after_commit_observability env uc rx rq response decision) (\<lambda>_. ret response)))) :: ('e, 'm, _) act)"
    if "int32 (cd_risk_score decision)" for decision
    by (intro keeps_bindM keeps_option keeps_ret keeps_use_case(6,7,8) [OF i] typing_transaction [OF o n x [unfolded eq] that])
  have controls: "keeps typing (create_payment_with_controls env uc rx rq :: ('e, 'm, _) act)"
    unfolding create_payment_with_controls_def
    by (rule keeps_bindM [OF keeps_use_case(3) [OF i]], rule keeps_bindM [OF keeps_use_case(4) [OF i]],
        rule keeps_value [OF keeps_use_case(5) [OF i] score_typed main])
  show "keeps typing ((case x of (rx, request) \<Rightarrow> in_session
       (bindM (try_return_replayed_response env rx) (\<lambda>replayed.
        case replayed of
          Some r \<Rightarrow> ret r
        | None \<Rightarrow>
            bindM (acquire env (uc_idempotency uc) (rx_merchant_id rx) (rx_idempotency_key rx)) (\<lambda>acquired.
            if \<not> acquired then resolve_pending_idempotent_request env rx
            else create_payment_with_controls env uc rx request)))) :: ('e, 'm, _) act)"
    unfolding eq prod.case by (intro keeps_intros controls o)
qed

lemma typing_review:
  assumes o: "others_typed env"
  shows "keeps typing (approve_execute env pid)" "keeps typing (reject_execute env pid)" "keeps typing (get_execute env pid)"
  unfolding approve_execute_def reject_execute_def get_execute_def load_review_payment_or_raise_def update_status_def
    record_review_queue_size_def build_review_response_def enqueue_payment_requested_def get_by_payment_id_def
  by (intro keeps_intros o; simp add: p_core_def short_def)+

lemma typing_seed:
  assumes o: "others_typed env"
  shows "keeps typing (init_db env)"
proof -
  have "keeps typing (db_write (insert_customers (seed_customers now)))" "keeps typing (db_write (insert_limits seed_limits_policies))" for now
    by (rule typing_write, simp add: typed_tables_def insert_customers_def seed_customers_def seed_customer_def)
      (rule typing_write, simp add: typed_tables_def insert_limits_def seed_limits_policies_def seed_policy_def
         typed_limits_def fits_numeric_def int32_def)
  then show ?thesis
    unfolding init_db_def seed_customers_step_def seed_limits_step_def by (intro keeps_intros o)
qed

section \<open>The processor\<close>

text \<open>
  What becomes the error of a payment is the message of a provider error.  The HTTP library raises
  errors of its own only, and a status code has three digits.
\<close>

definition http_library :: "'e outside \<Rightarrow> bool" where
  "http_library env \<longleftrightarrow> (\<forall>url rq e. case fst (o_http_post env url rq e) of
       Inl x \<Rightarrow> as_processor_error x = None
     | Inr (HttpReply code body) \<Rightarrow> 100 \<le> code \<and> code \<le> 999)"

definition short_error :: "exn \<Rightarrow> bool" where
  "short_error x \<longleftrightarrow> (case as_processor_error x of None \<Rightarrow> True | Some (category, message) \<Rightarrow> length message \<le> 512)"

lemma short_error_simps [simp]:
  "short_error (KeyError m)" "short_error (RuntimeError m)" "short_error WouldBlock" "short_error (CircuitBreakerOpenError m)"
  "short_error (DatabaseError m)" "short_error IntegrityError" "short_error MultipleResultsFound"
  by (simp_all add: short_error_def as_processor_error_def)

lemma raises_gets [raises_intros]: "raises C (gets f)"
  by (simp add: raises_def)

lemma raises_modify [raises_intros]: "raises C (modify f)"
  by (simp add: raises_def)

lemma raises_try_else:
  "raises D m \<Longrightarrow> (\<And>x. D x \<Longrightarrow> raises C (h x)) \<Longrightarrow> (\<And>a. raises C (k a)) \<Longrightarrow> raises C (try_else m h k)"
  by (fastforce simp: raises_def try_else_def split: prod.splits sum.splits)

lemma raises_prod [raises_intros]: "(\<And>a b. raises C (f a b)) \<Longrightarrow> raises C (case x of (a, b) \<Rightarrow> f a b)"
  by (simp split: prod.split)

lemma raises_the_key: "(\<And>m. C (KeyError m)) \<Longrightarrow> raises C (the_key x)"
  by (cases x) (simp_all add: the_key_def raises_def)

lemma show_int_three: "100 \<le> n \<Longrightarrow> n \<le> 999 \<Longrightarrow> length (show_int n) = 3"
proof -
  assume n: "100 \<le> n" "n \<le> 999"
  have one: "length (show_nat k) = 1" if "k < 10" for k using that by (subst show_nat.simps) simp
  have two: "length (show_nat k) = 2" if "10 \<le> k" "k < 100" for k
  proof -
    have "k div 10 < 10" using that by (simp add: div_less_iff_less_mult)
    then show ?thesis using that one [of "k div 10"] by (subst show_nat.simps) simp
  qed
  have "10 \<le> nat n div 10" "nat n div 10 < 100" using n by linarith+
  then have "length (show_nat (nat n)) = 3" using n two [of "nat n div 10"] by (subst show_nat.simps) simp
  then show ?thesis using n by (simp add: show_int_def)
qed

lemma raises_adapter:
  assumes "http_library env"
  shows "raises short_error (adapter_confirm env strategy payload)"
proof -
  have "short_error x" if post: "o_http_post env url rq e = (r, e')" and c: "classify_reply r = Inl x" for url rq e r e' x
  proof (cases r)
    case (Inl y)
    then have "as_processor_error y = None" using assms [unfolded http_library_def, rule_format, of url rq e] post by simp
    moreover have "x = y \<or> x = default_provider_timeout"
      using c Inl by (cases y) (auto simp: classify_reply_def)
    ultimately show ?thesis by (auto simp: short_error_def default_provider_timeout_def as_processor_error_def)
  next
    case (Inr y)
    obtain code body where y: "y = HttpReply code body" by (cases y)
    have "100 \<le> code \<and> code \<le> 999"
      using assms [unfolded http_library_def, rule_format, of url rq e] post Inr y by simp
    then have "length (show_int code) = 3" using show_int_three by blast
    then show ?thesis using c Inr y
      by (auto simp: classify_reply_def short_error_def as_processor_error_def split: if_splits option.splits)
  qed
  then show ?thesis
    by (auto simp: adapter_confirm_def raises_def bindM_def outside_def from_result_def split: prod.splits sum.splits)
qed

lemma raises_retry:
  assumes "raises short_error m" and "case last_error of None \<Rightarrow> True | Some x \<Rightarrow> short_error x"
  shows "raises short_error (retry_loop env m sr n b attempts last_error)"
  using assms(2)
proof (induction attempts arbitrary: last_error)
  case Nil
  then show ?case by (auto simp: raises_def split: option.splits)
next
  case (Cons a as)
  show ?case unfolding retry_loop.simps exponential_backoff_def
    by (rule raises_try_else [OF assms(1)]) (intro raises_intros raises_raise Cons.IH; simp)+
qed

lemma raises_provider_execute:
  fixes env :: "'e outside"
  assumes "http_library env"
  shows "raises short_error (provider_execute env p :: ('e, 'm, _) pact)"
proof -
  have k: "raises short_error (the_key x)" for x by (rule raises_the_key) simp
  have b: "raises short_error (get_breaker name)" for name
    unfolding get_breaker_def by (intro raises_intros k)
  have s: "raises short_error (set_breaker name cb)" for name cb
    unfolding set_breaker_def by (intro raises_intros)
  have c: "raises short_error (clock_if env t)" for t
    unfolding clock_if_def by (intro raises_intros)
  have open_only: "raises short_error ((case breaker_allow_call cb now of (r, cb') \<Rightarrow>
      bindM (set_breaker name cb') (\<lambda>_. from_result r)) :: ('e, 'm, unit) pact)" for cb now name
  proof (cases "breaker_allow_call cb now")
    case (Pair r cb')
    then have "short_error x" if "r = Inl x" for x
      using that by (auto simp: breaker_allow_call_def Let_def split: if_splits)
    then show ?thesis unfolding Pair prod.case by (intro raises_intros s raises_from_result)
  qed
  have allow: "raises short_error (allow_call env name :: ('e, 'm, unit) pact)" for name
    unfolding allow_call_def by (intro raises_bindM b c open_only)
  have bulk: "raises short_error (with_bulkhead name m)" if m: "raises short_error m" for name m
    unfolding with_bulkhead_def Let_def
    by (intro raises_intros raises_raise raises_try_else [OF m]) simp_all
  show ?thesis
    unfolding provider_execute_def for_method_def retry_async_def call_once_def on_success_def on_failure_def Let_def
    by (intro raises_intros allow bulk k b s c raises_try_else [OF raises_retry] raises_adapter raises_raise assms)
       simp_all
qed

text \<open>A value known to satisfy a predicate whenever an exception is caught.\<close>

lemma keeps_catch_raises:
  "raises C m \<Longrightarrow> keeps P m \<Longrightarrow> (\<And>x. C x \<Longrightarrow> keeps P (h x)) \<Longrightarrow> keeps P (catch m h)"
  by (fastforce simp: raises_def keeps_def catch_def split: prod.splits sum.splits)

lemma raises_writes [raises_intros]:
  "raises C (db_write f)" "raises C (db_update_payments env q g)" "raises C (db_update_outbox env o1 h)"
  "raises C (add_event env i t v)" "raises C (emit_event env i t v)"
proof -
  show w: "raises C (db_write f)" for f by (simp add: raises_def db_write_def)
  have i: "raises C (interfere env)" for env by (auto simp: raises_def interfere_def split: prod.splits)
  show "raises C (db_update_payments env q g)" "raises C (db_update_outbox env o1 h)"
    "raises C (add_event env i t v)" "raises C (emit_event env i t v)"
    unfolding db_update_payments_def db_update_outbox_def emit_event_add add_event_def
    by (intro raises_intros w i)+
qed

lemma typing_payment_writes [keeps_intros]:
  "others_typed env \<Longrightarrow> keeps typing (mark_processing env p)"
  "others_typed env \<Longrightarrow> keeps typing (mark_confirmed env p)"
  "others_typed env \<Longrightarrow> length reason \<le> 512 \<Longrightarrow> keeps typing (mark_payment_failed env p reason)"
  unfolding mark_processing_def mark_confirmed_def mark_payment_failed_def
  by (intro keeps_intros; simp add: p_core_def short_def)+

lemma typing_event_writes [keeps_intros]:
  "others_typed env \<Longrightarrow> keeps typing (mark_sent env i)"
  "others_typed env \<Longrightarrow> keeps typing (mark_event_failed env i n)"
  "others_typed env \<Longrightarrow> keeps typing (reschedule env i n t)"
  "others_typed env \<Longrightarrow> keeps typing (fetch_pending_requested env k)"
  "others_typed env \<Longrightarrow> keeps typing (fetch_pending_fanout_events env k)"
  "others_typed env \<Longrightarrow> keeps typing (backlog_size env)"
  "others_typed env \<Longrightarrow> keeps typing (oldest_pending_lag env)"
  "others_typed env \<Longrightarrow> keeps typing (get_by_id env i)"
  unfolding processor_repository_defs by (intro keeps_intros; assumption)+

lemma typing_finalize [keeps_intros]:
  "others_typed env \<Longrightarrow> keeps typing (finalize_confirm env p provider reference)"
  "others_typed env \<Longrightarrow> length reason \<le> 512 \<Longrightarrow> keeps typing (finalize_fail env p provider category reason)"
  unfolding finalize_confirm_def finalize_fail_def by (intro keeps_intros; assumption)+

lemma typing_process_payment_event:
  fixes env :: "'e outside"
  assumes o: "others_typed env" and h: "http_library env"
  shows "keeps typing (process_payment_event env ws event p :: ('e, 'm, unit) pact)"
proof -
  have call: "keeps typing (provider_execute env p :: ('e, 'm, _) pact)"
    by (rule keeps_provider_execute [OF quiet_typing]) (simp_all add: typing_def)
  have partial: "length ''Partial failure'' \<le> 512" "length ''Unexpected processor failure'' \<le> 512" by simp_all
  have fail: "keeps typing (handle_processor_error env ws event p category message :: ('e, 'm, unit) pact)"
    if "length message \<le> 512" for category message
    unfolding handle_processor_error_def for_method_def exponential_backoff_def Let_def
    by (intro keeps_intros o that)
  show ?thesis unfolding process_payment_event_def
  proof (intro keeps_bindM keeps_catch_raises [where C = short_error], goal_cases)
    case 1
    show ?case unfolding finalize_confirm_def finalize_fail_def mark_confirmed_def mark_payment_failed_def mark_sent_def
      by (intro raises_intros raises_provider_execute h)
  next
    case 2
    show ?case by (rule call)
  next
    case (3 response)
    show ?case by (intro keeps_intros o partial)
  next
    case (4 response _)
    show ?case by (intro keeps_intros o)
  next
    case (5 x)
    then show ?case
      by (cases "as_processor_error x") (auto simp: short_error_def intro!: keeps_intros o fail partial)
  next
    case (6 _)
    show ?case by (intro keeps_intros o)
  qed
qed

lemma typing_run_once:
  fixes env :: "'e outside"
  assumes o: "others_typed env" and h: "http_library env"
  shows "keeps typing (run_once env ws :: ('e, 'm, unit) pact)"
  unfolding run_once_def process_event_def mark_processing_execute_def publish_fanout_events_def publish_fanout_event_def
    publish_def handle_fanout_failure_def exponential_backoff_def Let_def
  by (intro keeps_intros o typing_process_payment_event [OF o h])

section \<open>The system\<close>

text \<open>
  The runs of the system from requests that the request model accepts; every session starts with
  nothing pending.
\<close>

inductive served :: "'e outside \<Rightarrow> database \<Rightarrow> database \<Rightarrow> bool" for env where
  served_create: "validate_create_request amount currency rail destination metadata = Inr request \<Longrightarrow>
     w_pending (w :: 'e world) = [] \<Longrightarrow> snd (create_execute env uc request headers w) = w' \<Longrightarrow>
     served env (w_db w) (w_db w')"
| served_approve: "w_pending (w :: 'e world) = [] \<Longrightarrow> snd (approve_execute env pid w) = w' \<Longrightarrow>
     served env (w_db w) (w_db w')"
| served_reject: "w_pending (w :: 'e world) = [] \<Longrightarrow> snd (reject_execute env pid w) = w' \<Longrightarrow>
     served env (w_db w) (w_db w')"
| served_get: "w_pending (w :: 'e world) = [] \<Longrightarrow> snd (get_execute env pid w) = w' \<Longrightarrow>
     served env (w_db w) (w_db w')"
| served_seed: "w_pending (w :: 'e world) = [] \<Longrightarrow> snd (init_db env w) = w' \<Longrightarrow> served env (w_db w) (w_db w')"
| served_work: "w_pending (w :: 'e proc_world) = [] \<Longrightarrow> snd (run_once env ws w) = w' \<Longrightarrow>
     served env (w_db w) (w_db w')"

lemma served_system: "served env d d' \<Longrightarrow> system_step env d d'"
  by (erule served.cases) (auto intro: system_step.intros)

definition typed_outside :: "'e outside \<Rightarrow> bool" where
  "typed_outside env \<longleftrightarrow> others_typed env \<and> numeric_column env \<and> http_library env"

lemma typing_end:
  assumes "keeps typing m" and "w_pending w = []" and "typed_tables (w_db w)" and "snd (m w) = w'"
  shows "typed_tables (w_db w')"
proof -
  have "typing w" using assms by (simp add: typing_def)
  then have "typing w'" using assms(1,4) by (auto simp: keeps_def)
  then show ?thesis by (simp add: typing_def)
qed

lemma served_typed:
  assumes "served env d d'" and "typed_outside env" and "typed_tables d"
  shows "typed_tables d'"
  using assms(1,3)
proof (induction rule: served.induct)
  case (served_create amount currency rail destination metadata request w uc headers w')
  have "short 128 (rq_destination request)"
    using served_create.hyps(1) by (auto simp: validate_create_request_def split: if_splits)
  then have "keeps typing (create_execute env uc request headers :: ('a, unit, _) act)"
    using assms(2) by (intro typing_create) (auto simp: typed_outside_def)
  from typing_end [OF this served_create.hyps(2) served_create.prems served_create.hyps(3)] show ?case .
next
  case (served_work w ws w')
  have "keeps typing (run_once env ws :: ('a, unit, _) pact)"
    using assms(2) by (intro typing_run_once) (auto simp: typed_outside_def)
  from typing_end [OF this served_work.hyps(1) served_work.prems served_work.hyps(2)] show ?case .
qed (use assms(2) in \<open>auto simp: typed_outside_def
       intro: typing_end [OF typing_review(1)] typing_end [OF typing_review(2)] typing_end [OF typing_review(3)]
         typing_end [OF typing_seed]\<close>)

lemma served_steps_typed:
  "(served env)\<^sup>*\<^sup>* d d' \<Longrightarrow> typed_outside env \<Longrightarrow> typed_tables d \<Longrightarrow> typed_tables d'"
  by (induction rule: rtranclp_induct) (auto intro: served_typed)

end
