(* ===== verification/Applications.thy ===== *)
theory Applications
  imports Settings QuietRuns
begin

text \<open>
  The three processes: what start-up builds and installs, in which order, and what shutdown gives back
  (\<open>main.py\<close> of each service, \<open>shared/observability/otel.py\<close>, \<open>configure_logging\<close> of
  \<open>shared/logging/logger.py\<close>, the constructors in \<open>db/session.py\<close> and \<open>providers/factory.py\<close>).  The
  state adds to the worker's world what a process holds.  Building and closing the libraries' objects may
  fail: \<open>lb_build\<close> and \<open>lb_close\<close> are the outcomes of the libraries.
\<close>

section \<open>Logging and telemetry\<close>

record root_logger =
  lg_handlers :: "string list"
  lg_level :: string

definition configure_logging :: "string \<Rightarrow> root_logger \<Rightarrow> root_logger" where
  "configure_logging level logger =
     (if lg_handlers logger \<noteq> [] then logger
      else logger\<lparr>lg_handlers := lg_handlers logger @ [''JsonFormatter''], lg_level := level\<rparr>)"

datatype exporter = OtlpExporter | ConsoleExporter

record telemetry_provider =
  tp_resource :: "(string \<times> string) list"
  tp_exporter :: "exporter option"

text \<open>
  The state keeps the providers handed to \<open>set_tracer_provider\<close> and \<open>set_meter_provider\<close>, oldest first.
\<close>

record otel_state =
  ot_initialized_services :: "string set"
  ot_tracer_providers :: "telemetry_provider list"
  ot_meter_providers :: "telemetry_provider list"

type_synonym environment = "string \<rightharpoonup> string"

definition getenv :: "environment \<Rightarrow> string \<Rightarrow> string \<Rightarrow> string" where
  "getenv vars name default_text = (case vars name of None \<Rightarrow> default_text | Some t \<Rightarrow> t)"

definition build_resource :: "environment \<Rightarrow> string \<Rightarrow> (string \<times> string) list" where
  "build_resource vars service_name =
     [(''service.name'', service_name), (''deployment.environment'', getenv vars ''APP_ENV'' ''local'')]"

definition exporter_of_mode :: "string \<Rightarrow> exporter option" where
  "exporter_of_mode mode =
     (if mode = ''otlp'' then Some OtlpExporter
      else if mode = ''console'' then Some ConsoleExporter else None)"

definition configure_otel :: "environment \<Rightarrow> string \<Rightarrow> otel_state \<Rightarrow> otel_state" where
  "configure_otel vars service_name st =
     (if service_name \<in> ot_initialized_services st then st
      else
        let resource = build_resource vars service_name;
            tracer_provider = \<lparr>tp_resource = resource,
              tp_exporter = exporter_of_mode (getenv vars ''OTEL_TRACES_EXPORTER'' ''console'')\<rparr>;
            meter_provider = \<lparr>tp_resource = resource,
              tp_exporter = exporter_of_mode (getenv vars ''OTEL_METRICS_EXPORTER'' ''console'')\<rparr>
        in st\<lparr>ot_tracer_providers := ot_tracer_providers st @ [tracer_provider],
              ot_meter_providers := ot_meter_providers st @ [meter_provider],
              ot_initialized_services := insert service_name (ot_initialized_services st)\<rparr>)"

section \<open>Reading a payment\<close>

text \<open>\<open>GET /payments/{payment_id}\<close>, and what \<open>PaymentStatusResponse\<close> is dumped to.\<close>

definition dump_status :: "payment_status_response \<Rightarrow> pyval" where
  "dump_status r = PDict
     [(KStr ''payment_id'', PStr (sr_payment_id r)), (KStr ''merchant_id'', PStr (sr_merchant_id r)),
      (KStr ''customer_id'', PStr (sr_customer_id r)), (KStr ''account_id'', PStr (sr_account_id r)),
      (KStr ''amount'', PDecimal (sr_amount r)), (KStr ''currency'', PStr (sr_currency r)),
      (KStr ''method'', PStr (method_value (sr_method r))),
      (KStr ''status'', PStr (payment_status_value (sr_status r))),
      (KStr ''idempotency_key'', PStr (sr_idempotency_key r)),
      (KStr ''risk_score'', case sr_risk_score r of None \<Rightarrow> PNone | Some n \<Rightarrow> PInt n),
      (KStr ''risk_decision'', opt_str (map_option risk_value (sr_risk_decision r))),
      (KStr ''aml_decision'', opt_str (map_option aml_value (sr_aml_decision r))),
      (KStr ''created_at'', PDatetime (isoformat_utc (sr_created_at r))),
      (KStr ''updated_at'', PDatetime (isoformat_utc (sr_updated_at r))),
      (KStr ''last_error'', opt_str (sr_last_error r))]"

definition route_get_payment ::
  "'e outside \<Rightarrow> auth_settings option \<Rightarrow> string option \<Rightarrow> uuid \<Rightarrow> ('e, 'm, http_response) act" where
  "route_get_payment env auth authorization payment_id =
     bindM (from_result (enforce_api_auth auth authorization)) (\<lambda>_.
     bindM (get_execute env payment_id) (\<lambda>r.
     ret \<lparr>hr_status_code = 200, hr_content = dump_status r, hr_headers = Map.empty\<rparr>))"

section \<open>Processes\<close>

datatype resource =
    DatabaseEngine string
  | RedisClient string
  | ProviderClient string rat
  | EventPublisher publisher

record 'e libraries =
  lb_build :: "resource \<Rightarrow> exn option"
  lb_close :: "resource \<Rightarrow> 'e \<Rightarrow> exn option \<times> 'e"

record 'e process = "'e proc_world" +
  pc_logger :: root_logger
  pc_otel :: otel_state
  pc_open :: "resource list"
  pc_fault_config :: "fault_config option"

type_synonym ('e, 'm, 'a) process_act = "(('e, 'm) process_scheme, exn, 'a) prog"

definition set_up_observability :: "environment \<Rightarrow> string \<Rightarrow> string \<Rightarrow> ('e, 'm, unit) process_act" where
  "set_up_observability vars log_level service_name =
     bindM (modify (\<lambda>w. w\<lparr>pc_logger := configure_logging log_level (pc_logger w)\<rparr>)) (\<lambda>_.
     modify (\<lambda>w. w\<lparr>pc_otel := configure_otel vars service_name (pc_otel w)\<rparr>))"

definition build :: "'e libraries \<Rightarrow> resource \<Rightarrow> ('e, 'm, unit) process_act" where
  "build lib r = (case lb_build lib r of
       Some x \<Rightarrow> raise x
     | None \<Rightarrow> modify (\<lambda>w. w\<lparr>pc_open := pc_open w @ [r]\<rparr>))"

text \<open>A resource whose closing raises stays open.\<close>

definition close :: "'e libraries \<Rightarrow> resource \<Rightarrow> ('e, 'm, unit) process_act" where
  "close lib r = bindM (outside (lb_close lib r)) (\<lambda>failure.
     case failure of
       Some x \<Rightarrow> raise x
     | None \<Rightarrow> modify (\<lambda>w. w\<lparr>pc_open := removeAll r (pc_open w)\<rparr>))"

section \<open>The payments API\<close>

definition api_startup ::
  "'e outside \<Rightarrow> 'e libraries \<Rightarrow> environment \<Rightarrow> api_settings \<Rightarrow> ('e, 'm, unit) process_act" where
  "api_startup env lib vars s =
     bindM (set_up_observability vars (as_log_level s) (as_service_name s)) (\<lambda>_.
     bindM (build lib (DatabaseEngine (as_postgres_dsn s))) (\<lambda>_.
     bindM (build lib (RedisClient (as_redis_url s))) (\<lambda>_.
     if as_app_env s = ''local'' then init_db env else ret ())))"

definition api_shutdown :: "'e libraries \<Rightarrow> api_settings \<Rightarrow> ('e, 'm, unit) process_act" where
  "api_shutdown lib s =
     bindM (close lib (RedisClient (as_redis_url s))) (\<lambda>_.
     close lib (DatabaseEngine (as_postgres_dsn s)))"

text \<open>The application serves between the two halves of its lifespan.\<close>

definition api_lifespan ::
  "'e outside \<Rightarrow> 'e libraries \<Rightarrow> environment \<Rightarrow> api_settings \<Rightarrow> ('e, 'm, unit) process_act \<Rightarrow>
   ('e, 'm, unit) process_act" where
  "api_lifespan env lib vars s serving =
     bindM (api_startup env lib vars s) (\<lambda>_. bindM serving (\<lambda>_. api_shutdown lib s))"

section \<open>The processor\<close>

definition processor_startup ::
  "'e libraries \<Rightarrow> environment \<Rightarrow> processor_settings \<Rightarrow> ('e, 'm, publisher) process_act" where
  "processor_startup lib vars s =
     bindM (set_up_observability vars (ps_log_level s) (ps_service_name s)) (\<lambda>_.
     bindM (build lib (DatabaseEngine (ps_postgres_dsn s))) (\<lambda>_.
     bindM (build lib (ProviderClient (resolved_provider_mock_base_url s) (ps_provider_timeout_seconds s))) (\<lambda>_.
     bindM (from_result (build_event_bus_publisher (event_bus_of_settings s))) (\<lambda>publisher.
     bindM (modify (\<lambda>w. w\<lparr>pc_open := pc_open w @ [EventPublisher publisher],
         pw_breakers := build_provider_breakers,
         pw_bulkhead := \<lparr>bh_limit = ps_bulkhead_limit_per_provider s, bh_permits = Map.empty\<rparr>\<rparr>)) (\<lambda>_.
     ret publisher)))))"

definition processor_shutdown :: "'e libraries \<Rightarrow> processor_settings \<Rightarrow> publisher \<Rightarrow> ('e, 'm, unit) process_act" where
  "processor_shutdown lib s publisher =
     bindM (close lib (EventPublisher publisher)) (\<lambda>_.
     bindM (close lib (ProviderClient (resolved_provider_mock_base_url s) (ps_provider_timeout_seconds s))) (\<lambda>_.
     close lib (DatabaseEngine (ps_postgres_dsn s))))"

text \<open>
  \<open>run\<close>, interrupted while it sleeps after \<open>n\<close> rounds of the worker; \<open>main\<close> logs that it was stopped.
\<close>

definition processor_run ::
  "'e outside \<Rightarrow> 'e libraries \<Rightarrow> environment \<Rightarrow> processor_settings \<Rightarrow> nat \<Rightarrow> ('e, 'm, unit) process_act" where
  "processor_run env lib vars s n =
     bindM (from_result (load_processor_settings s)) (\<lambda>settings.
     bindM (processor_startup lib vars settings) (\<lambda>publisher.
     try_else (run_rounds n env (worker_of_settings settings publisher))
       (\<lambda>x. bindM (processor_shutdown lib settings publisher) (\<lambda>_. raise x))
       (\<lambda>_. processor_shutdown lib settings publisher)))"

definition processor_main ::
  "'e outside \<Rightarrow> 'e libraries \<Rightarrow> environment \<Rightarrow> processor_settings \<Rightarrow> nat \<Rightarrow> ('e, 'm, unit) process_act" where
  "processor_main env lib vars s n =
     bindM (processor_run env lib vars s n) (\<lambda>_. emit (LogLine ''processor_stopped'' []))"

section \<open>The provider mock\<close>

definition mock_startup :: "environment \<Rightarrow> mock_settings \<Rightarrow> ('e, 'm, unit) process_act" where
  "mock_startup vars s =
     bindM (set_up_observability vars (ms_log_level s) (ms_service_name s)) (\<lambda>_.
     modify (\<lambda>w. w\<lparr>pc_fault_config := Some (fault_config_of_settings s)\<rparr>))"

definition mock_telemetry_middleware ::
  "'e outside \<Rightarrow> string \<Rightarrow> string \<Rightarrow> ('e, 'm, http_response) act \<Rightarrow> ('e, 'm, http_response) act" where
  "mock_telemetry_middleware env path http_method call_next =
     bindM (outside (o_perf_counter env)) (\<lambda>start.
     bindM (emit (CounterAdd ''provider_mock_request_total'' [(''path'', path), (''method'', http_method)])) (\<lambda>_.
     bindM call_next (\<lambda>response.
     bindM (outside (o_perf_counter env)) (\<lambda>stop.
     bindM (emit (HistogramRecord ''provider_mock_latency_ms'' (stop - start) [(''path'', path)])) (\<lambda>_.
     bindM (if 400 \<le> hr_status_code response
            then emit (CounterAdd ''provider_mock_error_total''
              [(''status_code'', show_int (hr_status_code response))])
            else ret ()) (\<lambda>_.
     bindM (outside (o_trace_id env)) (\<lambda>trace_id.
     ret (response\<lparr>hr_headers :=
            apply_security_headers ((hr_headers response)(''X-Trace-Id'' \<mapsto> trace_id))\<rparr>))))))))"

definition health :: http_response where
  "health = \<lparr>hr_status_code = 200, hr_content = PDict [(KStr ''status'', PStr ''ok'')], hr_headers = Map.empty\<rparr>"

section \<open>What the worker leaves alone\<close>

text \<open>A predicate of what the process holds besides the worker's world is kept by every round.\<close>

definition framed :: "(('e, 'm) proc_world_scheme \<Rightarrow> bool) \<Rightarrow> bool" where
  "framed P \<longleftrightarrow> quiet P \<and> (\<forall>w. P w \<longrightarrow> (\<forall>d. P (w\<lparr>w_db := d\<rparr>)) \<and> (\<forall>p. P (w\<lparr>w_pending := p\<rparr>)) \<and>
     (\<forall>b. P (w\<lparr>pw_breakers := b\<rparr>)) \<and> (\<forall>h. P (w\<lparr>pw_bulkhead := h\<rparr>)))"

lemma framed_quiet: "framed P \<Longrightarrow> quiet P"
  by (simp add: framed_def)

lemma keeps_framed:
  assumes f: "framed P"
  shows "keeps P (interfere env)" "keeps P (db_write g)" "keeps P (db_commit env)"
    "keeps P (db_update_payments env q h)" "keeps P (db_update_outbox env q' h')"
    "keeps P m \<Longrightarrow> keeps P (in_session m)" "keeps P (provider_execute env p)"
proof -
  have q: "quiet P" and s: "\<And>w d. P w \<Longrightarrow> P (w\<lparr>w_db := d\<rparr>)" "\<And>w p. P w \<Longrightarrow> P (w\<lparr>w_pending := p\<rparr>)"
    "\<And>w b. P w \<Longrightarrow> P (w\<lparr>pw_breakers := b\<rparr>)" "\<And>w b. P w \<Longrightarrow> P (w\<lparr>pw_bulkhead := b\<rparr>)"
    using f unfolding framed_def by blast+
  have both: "P (w\<lparr>w_db := d, w_out := e\<rparr>)" "P (w\<lparr>w_db := d, w_pending := p\<rparr>)" if "P w" for w d e p
    using s(1) [OF that] quietD(1) [OF q] s(2) by blast+
  show i: "keeps P (interfere env)" by (auto simp: keeps_def interfere_def both split: prod.splits)
  show w: "keeps P (db_write g)" for g by (auto simp: keeps_def db_write_def s)
  have "keeps P (\<lambda>w. if constraints_ok (db_view w) then (Inr (), w\<lparr>w_db := db_view w, w_pending := []\<rparr>) else (Inl IntegrityError, w))"
    by (auto simp: keeps_def both)
  then show "keeps P (db_commit env)" unfolding db_commit_def by (intro keeps_bindM i)
  show "keeps P (db_update_payments env q h)" "keeps P (db_update_outbox env q' h')"
    unfolding db_update_payments_def db_update_outbox_def by (intro keeps_intros i w)+
  show "keeps P (in_session m)" if "keeps P m"
    using that by (auto simp: keeps_def in_session_def s split: prod.splits) (metis s(2) snd_conv)
  show "keeps P (provider_execute env p)" by (rule keeps_provider_execute [OF q s(3,4)])
qed

lemma framed_rounds:
  assumes f: "framed P"
  shows "keeps P (run_rounds n env ws)"
proof -
  note q = framed_quiet [OF f] and k = keeps_framed [OF f]
  have "keeps P (run_once env ws)"
    unfolding run_once_def process_event_def process_payment_event_def mark_processing_execute_def
      publish_fanout_events_def publish_fanout_event_def publish_def handle_fanout_failure_def handle_processor_error_def
      finalize_confirm_def finalize_fail_def for_method_def exponential_backoff_def processor_repository_defs Let_def
    by (intro keeps_intros q k)
  then have "keeps P (worker_iteration env ws)" unfolding worker_iteration_def by (intro keeps_intros q)
  then show ?thesis by (induction n) (auto intro!: keeps_intros)
qed

text \<open>A round never raises, so the loop goes on for ever unless it is interrupted.\<close>

lemma rounds_return: "\<exists>w'. run_rounds n env ws w = (Inr (), w')"
proof (induction n arbitrary: w)
  case (Suc n)
  have "\<exists>u. worker_iteration env ws w = (Inr (), u)"
    by (auto simp: worker_iteration_def bindM_def catch_def outside_def split: prod.splits sum.splits)
  then obtain u where "worker_iteration env ws w = (Inr (), u)" ..
  then show ?case using Suc.IH [of u] by (simp add: bindM_def)
qed simp

lemma configure_otel_once: "configure_otel vars name (configure_otel vars' name st) = configure_otel vars' name st"
  by (simp add: configure_otel_def Let_def)

lemma every_rail_has_breaker:
  "\<exists>name. provider_name_for_method rail = Some name \<and>
     build_provider_breakers name = Some (new_breaker \<lparr>cc_failure_threshold = 3, cc_recovery_timeout_seconds = 5\<rparr>)"
  by (cases rail) (simp_all add: build_provider_breakers_def supported_provider_names_def rail_profiles_def)

section \<open>Start-up and shutdown of the processor\<close>

abbreviation processor_engine :: "processor_settings \<Rightarrow> resource" where
  "processor_engine s \<equiv> DatabaseEngine (ps_postgres_dsn s)"

abbreviation processor_client :: "processor_settings \<Rightarrow> resource" where
  "processor_client s \<equiv> ProviderClient (resolved_provider_mock_base_url s) (ps_provider_timeout_seconds s)"

text \<open>
  What a shutdown that ended with \<open>r\<close> leaves open: nothing when it returned; when it raised, the resource
  whose closing raised and those that would have been closed after it.
\<close>

definition left_open :: "'e libraries \<Rightarrow> resource list \<Rightarrow> exn + unit \<Rightarrow> resource list \<Rightarrow> bool" where
  "left_open lib held r rest \<longleftrightarrow> (case r of
       Inr _ \<Rightarrow> rest = []
     | Inl x \<Rightarrow> rest \<noteq> [] \<and> rest = take (length rest) held \<and> (\<exists>e e'. lb_close lib (last rest) e = (Some x, e')))"

lemma processor_shutdown_run:
  assumes "pc_open w = [processor_engine s, processor_client s, EventPublisher p]"
  shows "\<exists>r w'. processor_shutdown lib s p w = (r, w') \<and> w_db w' = w_db w \<and> left_open lib (pc_open w) r (pc_open w')"
  using assms
  by (auto simp: processor_shutdown_def close_def bindM_def outside_def left_open_def split: prod.splits option.splits) blast+

lemma processor_startup_run:
  fixes w :: "('e, 'm) process_scheme"
  assumes "\<And>r. lb_build lib r = None" and "pc_open w = []"
  shows "case build_event_bus_publisher (event_bus_of_settings s) of
      Inl x \<Rightarrow> \<exists>w'. processor_startup lib vars s w = (Inl x, w') \<and> w_db w' = w_db w \<and>
        pc_open w' = [processor_engine s, processor_client s]
    | Inr p \<Rightarrow> \<exists>u. processor_startup lib vars s w = (Inr p, u) \<and> w_db u = w_db w \<and> w_pending u = w_pending w \<and>
        pc_open u = [processor_engine s, processor_client s, EventPublisher p] \<and> pw_breakers u = build_provider_breakers \<and>
        pw_bulkhead u = \<lparr>bh_limit = ps_bulkhead_limit_per_provider s, bh_permits = Map.empty\<rparr>"
  using assms
  by (auto simp: processor_startup_def set_up_observability_def build_def bindM_def from_result_def split: sum.split)

lemma processor_main_run:
  fixes w :: "('e, 'm) process_scheme"
  assumes b: "\<And>r. lb_build lib r = None" and o: "pc_open w = []" and s: "load_processor_settings s = Inr s"
  shows "case build_event_bus_publisher (event_bus_of_settings s) of
      Inl x \<Rightarrow> \<exists>w'. processor_main env lib vars s n w = (Inl x, w') \<and> w_db w' = w_db w \<and>
        pc_open w' = [processor_engine s, processor_client s]
    | Inr p \<Rightarrow> \<exists>(u :: ('e, 'm) process_scheme) v r w'. processor_main env lib vars s n w = (r, w') \<and>
        w_db u = w_db w \<and> w_pending u = w_pending w \<and>
        pw_breakers u = build_provider_breakers \<and>
        pw_bulkhead u = \<lparr>bh_limit = ps_bulkhead_limit_per_provider s, bh_permits = Map.empty\<rparr> \<and>
        run_rounds n env (worker_of_settings s p) u = (Inr (), v) \<and> w_db w' = w_db v \<and>
        left_open lib [processor_engine s, processor_client s, EventPublisher p] r (pc_open w')"
proof (cases "build_event_bus_publisher (event_bus_of_settings s)")
  case (Inl x)
  then show ?thesis using processor_startup_run [OF b o, where s = s and vars = vars] s
    by (auto simp: processor_main_def processor_run_def bindM_def from_result_def)
next
  case (Inr p)
  let ?held = "[processor_engine s, processor_client s, EventPublisher p]"
  obtain u where start: "processor_startup lib vars s w = (Inr p, u)" and u: "w_db u = w_db w" "w_pending u = w_pending w"
      "pc_open u = ?held" "pw_breakers u = build_provider_breakers"
      "pw_bulkhead u = \<lparr>bh_limit = ps_bulkhead_limit_per_provider s, bh_permits = Map.empty\<rparr>"
    using processor_startup_run [OF b o, where s = s and vars = vars] Inr by auto
  obtain v where rounds: "run_rounds n env (worker_of_settings s p) u = (Inr (), v)" using rounds_return by blast
  have "framed (\<lambda>w :: ('e, 'm) process_scheme. pc_open w = ?held)" by (simp add: framed_def quiet_def)
  from keepsD [OF framed_rounds [OF this] u(3) rounds] have held: "pc_open v = ?held" .
  obtain r w' where stop: "processor_shutdown lib s p v = (r, w')" and w': "w_db w' = w_db v" "left_open lib ?held r (pc_open w')"
    using processor_shutdown_run [OF held, of lib] unfolding held by blast
  have "\<exists>w''. processor_main env lib vars s n w = (r, w'') \<and> w_db w'' = w_db w' \<and> pc_open w'' = pc_open w'"
    using start rounds stop s
    by (cases r) (auto simp: processor_main_def processor_run_def bindM_def from_result_def try_else_def)
  then obtain w'' where main: "processor_main env lib vars s n w = (r, w'')" and "w_db w'' = w_db w'" "pc_open w'' = pc_open w'" by blast
  then have "w_db w'' = w_db v" "left_open lib ?held r (pc_open w'')" using w' by simp_all
  then show ?thesis unfolding Inr sum.case using main u(1,2,4,5) rounds by blast
qed

end
