(* ===== verification/Tracing.thy ===== *)
theory Tracing
  imports ReviewPayment "HOL-Library.Word"
begin

text \<open>
  Trace propagation: \<open>shared/observability/propagation.py\<close> and the worker's
  \<open>_extract_context\<close>.  A trace crosses from the API to the processor in the payload of the
  event, as the \<open>traceparent\<close> text.  \<open>inject\<close> and \<open>extr\<close> are OpenTelemetry's propagator, with the laws
  of the locale \<open>propagator\<close>; the trace context of the W3C recommendation meets them.
\<close>

record span_context =
  sc_trace_id :: "128 word"
  sc_span_id :: "64 word"
  sc_flags :: "8 word"

definition is_valid :: "span_context \<Rightarrow> bool" where
  "is_valid c \<longleftrightarrow> sc_trace_id c \<noteq> 0 \<and> sc_span_id c \<noteq> 0"

text \<open>\<open>format(n, "032x")\<close> and the like: \<open>k\<close> lower-case hexadecimal digits.\<close>

definition hex_digit :: "nat \<Rightarrow> char" where
  "hex_digit n = ''0123456789abcdef'' ! n"

primrec hex_text :: "nat \<Rightarrow> nat \<Rightarrow> string" where
  "hex_text 0 n = []"
| "hex_text (Suc k) n = hex_text k (n div 16) @ [hex_digit (n mod 16)]"

definition current_trace_id :: "span_context \<Rightarrow> string" where
  "current_trace_id active = (if \<not> is_valid active then [] else hex_text 32 (unat (sc_trace_id active)))"

type_synonym headers = "string \<rightharpoonup> string"
type_synonym injector = "span_context \<Rightarrow> headers \<Rightarrow> headers"
type_synonym extractor = "headers \<Rightarrow> span_context"

text \<open>An empty dict is falsy, so it is replaced by a new one.\<close>

definition inject_headers :: "injector \<Rightarrow> span_context \<Rightarrow> headers option \<Rightarrow> headers" where
  "inject_headers inject active hs = inject active (case hs of None \<Rightarrow> Map.empty | Some h \<Rightarrow> h)"

definition extract_context_from_headers :: "extractor \<Rightarrow> headers \<Rightarrow> span_context" where
  "extract_context_from_headers extr hs = extr hs"

definition current_traceparent :: "injector \<Rightarrow> span_context \<Rightarrow> string option" where
  "current_traceparent inject active = inject active Map.empty ''traceparent''"

definition extract_context :: "extractor \<Rightarrow> outbox_row \<Rightarrow> span_context option" where
  "extract_context extr event =
     (case dict_get (ob_payload event) ''traceparent'' of
        Some (PStr traceparent) \<Rightarrow>
          if traceparent = [] then None
          else Some (extract_context_from_headers extr [''traceparent'' \<mapsto> traceparent])
      | _ \<Rightarrow> None)"

section \<open>The contract of the propagator\<close>

locale propagator =
  fixes inject :: injector and extr :: extractor
  assumes invalid_not_injected: "\<not> is_valid c \<Longrightarrow> inject c h = h"
    and injected: "is_valid c \<Longrightarrow> \<exists>t. t \<noteq> [] \<and> inject c h ''traceparent'' = Some t \<and> extr [''traceparent'' \<mapsto> t] = c"
    and others_kept: "k \<noteq> ''traceparent'' \<Longrightarrow> k \<noteq> ''tracestate'' \<Longrightarrow> inject c h k = h k"
begin

lemma traceparent_valid:
  "if is_valid c then \<exists>t. current_traceparent inject c = Some t \<and> t \<noteq> [] \<and> extr [''traceparent'' \<mapsto> t] = c
   else current_traceparent inject c = None"
  using injected [of c Map.empty] invalid_not_injected [of c Map.empty] by (auto simp: current_traceparent_def)

lemma requested_context:
  assumes "ob_payload event = payment_requested_payload pid merchant trace (current_traceparent inject c)"
  shows "extract_context extr event = (if is_valid c then Some c else None)"
  using traceparent_valid [of c] assms
  by (auto simp: extract_context_def extract_context_from_headers_def dict_get_def payment_requested_payload_def opt_str_def
      split: if_splits)

lemma content_type_sent: "inject_headers inject c (Some h) ''Content-Type'' = h ''Content-Type''"
  by (simp add: inject_headers_def others_kept)

end

section \<open>The text of a span\<close>

definition hex_value :: "char \<Rightarrow> nat" where
  "hex_value c = (let n = of_char c :: nat in if n \<le> 57 then n - 48 else n - 87)"

definition hex_number :: "string \<Rightarrow> nat" where
  "hex_number s = foldl (\<lambda>n c. 16 * n + hex_value c) 0 s"

lemma hex_value_digit:
  assumes "n < 16"
  shows "hex_value (hex_digit n) = n"
proof -
  have "list_all (\<lambda>n. hex_value (hex_digit n) = n) [0..<16]" by code_simp
  then show ?thesis using assms by (simp add: list_all_iff)
qed

lemma length_hex_text [simp]: "length (hex_text k n) = k"
  by (induction k arbitrary: n) simp_all

lemma hex_number_text: "n < 16 ^ k \<Longrightarrow> hex_number (hex_text k n) = n"
proof (induction k arbitrary: n)
  case (Suc k)
  have "n div 16 < 16 ^ k" using Suc.prems by (simp add: less_mult_imp_div_less mult.commute)
  then show ?case using Suc.IH [of "n div 16"] by (simp add: hex_number_def hex_value_digit)
qed (simp add: hex_number_def)

definition w3c_text :: "span_context \<Rightarrow> string" where
  "w3c_text c = ''00-'' @ hex_text 32 (unat (sc_trace_id c)) @ ''-'' @ hex_text 16 (unat (sc_span_id c)) @
     ''-'' @ hex_text 2 (unat (sc_flags c))"

definition w3c_inject :: injector where
  "w3c_inject c h = (if is_valid c then h(''traceparent'' \<mapsto> w3c_text c) else h)"

definition no_span :: span_context where
  "no_span = \<lparr>sc_trace_id = 0, sc_span_id = 0, sc_flags = 0\<rparr>"

definition w3c_extract :: extractor where
  "w3c_extract h = (case h ''traceparent'' of
       None \<Rightarrow> no_span
     | Some t \<Rightarrow> \<lparr>sc_trace_id = of_nat (hex_number (take 32 (drop 3 t))),
                  sc_span_id = of_nat (hex_number (take 16 (drop 36 t))),
                  sc_flags = of_nat (hex_number (take 2 (drop 53 t)))\<rparr>)"

lemma w3c_extract_text: "w3c_extract [''traceparent'' \<mapsto> w3c_text c] = c"
proof -
  have "unat (sc_trace_id c) < 16 ^ 32" "unat (sc_span_id c) < 16 ^ 16" "unat (sc_flags c) < 16 ^ 2"
    using unsigned_less [of "sc_trace_id c", where ?'a = nat] unsigned_less [of "sc_span_id c", where ?'a = nat] unsigned_less [of "sc_flags c", where ?'a = nat] by simp_all
  then show ?thesis by (simp add: w3c_extract_def w3c_text_def hex_number_text del: hex_text.simps)
qed

interpretation w3c: propagator w3c_inject w3c_extract
  by unfold_locales (use w3c_extract_text in \<open>auto simp: w3c_inject_def w3c_text_def simp del: hex_text.simps\<close>)

lemma current_trace_id_inj:
  assumes "is_valid c" "is_valid d"
  shows "current_trace_id c = current_trace_id d \<longleftrightarrow> sc_trace_id c = sc_trace_id d"
proof -
  have "unat (sc_trace_id c) < 16 ^ 32" "unat (sc_trace_id d) < 16 ^ 32"
    using unsigned_less [of "sc_trace_id c", where ?'a = nat] unsigned_less [of "sc_trace_id d", where ?'a = nat] by simp_all
  note digits = this [THEN hex_number_text]
  have "hex_text 32 (unat (sc_trace_id c)) = hex_text 32 (unat (sc_trace_id d)) \<longleftrightarrow> sc_trace_id c = sc_trace_id d"
  proof
    assume "hex_text 32 (unat (sc_trace_id c)) = hex_text 32 (unat (sc_trace_id d))"
    from arg_cong [OF this, of hex_number] have "unat (sc_trace_id c) = unat (sc_trace_id d)" unfolding digits .
    then show "sc_trace_id c = sc_trace_id d" by (rule unsigned_word_eqI)
  qed (rule arg_cong)
  then show ?thesis unfolding current_trace_id_def using assms by (simp only: not_True_eq_False if_False)
qed

section \<open>From the API to the worker\<close>

text \<open>The outside reports the span that \<open>current\<close> reads off it, and reading it changes nothing of that.\<close>

definition reports_span :: "injector \<Rightarrow> ('e \<Rightarrow> span_context) \<Rightarrow> 'e outside \<Rightarrow> bool" where
  "reports_span inject current env \<longleftrightarrow>
     (\<forall>e. fst (o_trace_id env e) = current_trace_id (current e) \<and> current (snd (o_trace_id env e)) = current e) \<and>
     (\<forall>e. fst (o_traceparent env e) = current_traceparent inject (current e))"

lemma enqueue_context:
  fixes w :: "('e, 'm) world_scheme"
  assumes "propagator inject extr" and "reports_span inject current env"
  shows "\<exists>ev w'. enqueue_payment_requested env pid merchant w = (Inr (), w') \<and>
    w_pending w' = w_pending w @ [insert_event ev] \<and> ob_event_type ev = PAYMENT_REQUESTED \<and> ob_aggregate_id ev = pid \<and>
    extract_context extr ev = (if is_valid (current (w_out w)) then Some (current (w_out w)) else None)"
proof -
  let ?c = "current (w_out w)"
  obtain e where t: "o_trace_id env (w_out w) = (current_trace_id ?c, e)" and e: "current e = ?c"
    using assms(2) unfolding reports_span_def by (metis prod.collapse)
  obtain e' where p: "o_traceparent env e = (current_traceparent inject ?c, e')"
    using assms(2) e unfolding reports_span_def by (metis prod.collapse)
  let ?payload = "payment_requested_payload pid merchant (current_trace_id ?c) (current_traceparent inject ?c)"
  obtain ev x where add: "add_event env pid PAYMENT_REQUESTED ?payload (w\<lparr>w_out := e'\<rparr>) =
      (Inr (), w\<lparr>w_out := x, w_pending := w_pending w @ [insert_event ev]\<rparr>)"
    and ev: "ob_event_type ev = PAYMENT_REQUESTED" "ob_aggregate_id ev = pid" "ob_payload ev = ?payload"
    using add_event_run [of env pid PAYMENT_REQUESTED ?payload "w\<lparr>w_out := e'\<rparr>"] by auto
  have "enqueue_payment_requested env pid merchant w = (Inr (), w\<lparr>w_out := x, w_pending := w_pending w @ [insert_event ev]\<rparr>)"
    using t p add by (simp add: enqueue_payment_requested_def bindM_def outside_def)
  then show ?thesis using propagator.requested_context [OF assms(1) ev(3)] ev(1,2) by auto
qed

lemma persist_enqueues:
  "ac_status response = RECEIVED \<Longrightarrow>
     persist_outbox_events env rx response = enqueue_payment_requested env (ac_payment_id response) (rx_merchant_id rx)"
  by (simp add: persist_outbox_events_def enqueue_payment_requested_def)

end
