(* ===== verification/Brokers.thy ===== *)
theory Brokers
  imports EventBus
begin

text \<open>
  The publishers of the two brokers (\<open>event_bus/rabbitmq.py\<close>, \<open>event_bus/kafka.py\<close>) with the connections
  they keep.  \<open>'b amqp\<close> and \<open>'b kafka_library\<close> are the client libraries with the broker behind them, on
  an abstract state \<open>'b\<close>; a call answers with an exception or a value, handles are numbers.
\<close>

text \<open>The state of a publisher: what it holds, and the library's.\<close>

record ('b, 'h) client =
  cl_library :: 'b
  cl_held :: 'h

definition call :: "('b \<Rightarrow> (exn + 'a) \<times> 'b) \<Rightarrow> (('b, 'h) client, exn, 'a) prog" where
  "call f = (\<lambda>s. case f (cl_library s) of (r, b) \<Rightarrow> (r, s\<lparr>cl_library := b\<rparr>))"

definition hold :: "('h \<Rightarrow> 'h) \<Rightarrow> (('b, 'h) client, exn, unit) prog" where
  "hold f = modify (\<lambda>s. s\<lparr>cl_held := f (cl_held s)\<rparr>)"

section \<open>RabbitMQ\<close>

record amqp_message =
  mg_body :: pyval
  mg_content_type :: string
  mg_message_id :: string
  mg_timestamp :: moment

record 'b amqp =
  am_connect :: "string \<Rightarrow> 'b \<Rightarrow> (exn + nat) \<times> 'b"
  am_channel :: "nat \<Rightarrow> 'b \<Rightarrow> (exn + nat) \<times> 'b"
  am_declare_exchange :: "nat \<Rightarrow> string \<Rightarrow> 'b \<Rightarrow> (exn + nat) \<times> 'b"
  am_publish :: "nat \<Rightarrow> amqp_message \<Rightarrow> string \<Rightarrow> 'b \<Rightarrow> (exn + unit) \<times> 'b"
  am_now :: "'b \<Rightarrow> (exn + moment) \<times> 'b"
  am_channel_closed :: "nat \<Rightarrow> 'b \<Rightarrow> bool"
  am_connection_closed :: "nat \<Rightarrow> 'b \<Rightarrow> bool"
  am_close_channel :: "nat \<Rightarrow> 'b \<Rightarrow> (exn + unit) \<times> 'b"
  am_close_connection :: "nat \<Rightarrow> 'b \<Rightarrow> (exn + unit) \<times> 'b"

record rabbit_handles =
  rh_connection :: "nat option"
  rh_channel :: "nat option"
  rh_exchange :: "nat option"

definition no_handles :: rabbit_handles where
  "no_handles = \<lparr>rh_connection = None, rh_channel = None, rh_exchange = None\<rparr>"

type_synonym ('b, 'a) rabbit_prog = "(('b, rabbit_handles) client, exn, 'a) prog"

definition rabbit_get_exchange :: "'b amqp \<Rightarrow> string \<Rightarrow> string \<Rightarrow> ('b, nat) rabbit_prog" where
  "rabbit_get_exchange lib url exchange_name =
     bindM (gets (\<lambda>s. rh_exchange (cl_held s))) (\<lambda>exchange.
     case exchange of
       Some x \<Rightarrow> ret x
     | None \<Rightarrow>
         bindM (call (am_connect lib url)) (\<lambda>connection.
         bindM (hold (rh_connection_update (\<lambda>_. Some connection))) (\<lambda>_.
         bindM (call (am_channel lib connection)) (\<lambda>channel.
         bindM (hold (rh_channel_update (\<lambda>_. Some channel))) (\<lambda>_.
         bindM (call (am_declare_exchange lib channel exchange_name)) (\<lambda>x.
         bindM (hold (rh_exchange_update (\<lambda>_. Some x))) (\<lambda>_.
         ret x)))))))"

definition rabbit_publish :: "'b amqp \<Rightarrow> string \<Rightarrow> string \<Rightarrow> string \<Rightarrow> outbox_row \<Rightarrow> ('b, unit) rabbit_prog" where
  "rabbit_publish lib url exchange_name prefix event =
     bindM (rabbit_get_exchange lib url exchange_name) (\<lambda>exchange.
     bindM (call (am_now lib)) (\<lambda>now.
     call (am_publish lib exchange
       \<lparr>mg_body = rabbit_payload event, mg_content_type = ''application/json'',
        mg_message_id = ob_event_id event, mg_timestamp = now\<rparr>
       (rabbit_routing_key prefix (event_type_value (ob_event_type event))))))"

definition close_unless ::
  "(nat \<Rightarrow> 'b \<Rightarrow> bool) \<Rightarrow> (nat \<Rightarrow> 'b \<Rightarrow> (exn + unit) \<times> 'b) \<Rightarrow> nat option \<Rightarrow> (('b, 'h) client, exn, unit) prog" where
  "close_unless closed_in_lib close_handle handle =
     (case handle of
        None \<Rightarrow> ret ()
      | Some h \<Rightarrow> bindM (gets (\<lambda>s. closed_in_lib h (cl_library s))) (\<lambda>is_closed.
          if is_closed then ret () else call (close_handle h)))"

definition rabbit_close :: "'b amqp \<Rightarrow> ('b, unit) rabbit_prog" where
  "rabbit_close lib =
     bindM (gets cl_held) (\<lambda>held.
     bindM (close_unless (am_channel_closed lib) (am_close_channel lib) (rh_channel held)) (\<lambda>_.
     close_unless (am_connection_closed lib) (am_close_connection lib) (rh_connection held)))"

text \<open>The worker publishes one event after the other and goes on when one fails: the outcomes, and the state reached.\<close>

primrec publish_each ::
  "(outbox_row \<Rightarrow> ('s, exn, unit) prog) \<Rightarrow> outbox_row list \<Rightarrow> 's \<Rightarrow> (exn + unit) list \<times> 's" where
  "publish_each send [] s = ([], s)"
| "publish_each send (e # es) s =
     (case send e s of (r, t) \<Rightarrow> case publish_each send es t of (rs, u) \<Rightarrow> (r # rs, u))"

definition failures :: "(exn + 'a) list \<Rightarrow> nat" where
  "failures rs = length (filter (\<lambda>r. case r of Inl _ \<Rightarrow> True | Inr _ \<Rightarrow> False) rs)"

section \<open>Connections\<close>

text \<open>
  The contract of the broker: \<open>live\<close> observes its open connections.  Connecting opens one, closing a connection
  closes it, and a broker may drop connections at any time.
\<close>

locale amqp_broker =
  fixes lib :: "'b amqp" and live :: "'b \<Rightarrow> nat set"
  assumes connect: "am_connect lib url b = (r, b') \<Longrightarrow>
      live b' \<subseteq> (case r of Inl _ \<Rightarrow> live b | Inr c \<Rightarrow> insert c (live b))"
    and channel: "am_channel lib c b = (h', b') \<Longrightarrow> live b' \<subseteq> live b"
    and declare_exchange: "am_declare_exchange lib h name b = (h', b') \<Longrightarrow> live b' \<subseteq> live b"
    and publish: "am_publish lib h message key b = (u, b') \<Longrightarrow> live b' \<subseteq> live b"
    and now: "am_now lib b = (m, b') \<Longrightarrow> live b' \<subseteq> live b"
    and close_channel: "am_close_channel lib h b = (u, b') \<Longrightarrow> live b' \<subseteq> live b"
    and closed: "am_connection_closed lib c b \<longleftrightarrow> c \<notin> live b"
    and close_connection: "am_close_connection lib c b = (u, b') \<Longrightarrow>
      live b' \<subseteq> (case u of Inl _ \<Rightarrow> live b | Inr _ \<Rightarrow> live b - {c})"
begin

text \<open>
  \<open>opened old k s\<close>: of the connections that were not there in the beginning, at most \<open>k\<close> are open besides the
  one the publisher holds with its exchange.
\<close>

definition opened :: "nat set \<Rightarrow> nat \<Rightarrow> ('b, rabbit_handles) client \<Rightarrow> bool" where
  "opened old k s \<longleftrightarrow> (\<exists>extra. finite extra \<and> card extra \<le> k \<and>
     live (cl_library s) \<subseteq> old \<union> extra \<union>
       (case rh_exchange (cl_held s) of None \<Rightarrow> {} | Some x \<Rightarrow> set_option (rh_connection (cl_held s))))"

lemma opened_mono: "opened old k s \<Longrightarrow> cl_held t = cl_held s \<Longrightarrow> live (cl_library t) \<subseteq> live (cl_library s) \<Longrightarrow> opened old k t"
  unfolding opened_def by (metis order_trans)

lemma opened_more: "opened old k s \<Longrightarrow> k \<le> m \<Longrightarrow> opened old m s"
  unfolding opened_def by (metis order_trans)

text \<open>Opening the exchange: without a connection nothing is held anew; with one, it is held, the exchange only at the end.\<close>

lemma exchange_outcomes:
  assumes "rh_exchange (cl_held s) = None" and "rabbit_get_exchange lib url name s = (r, t)"
    and conn: "am_connect lib url (cl_library s) = (a, b)"
  shows "case a of
      Inl x \<Rightarrow> r = Inl x \<and> cl_library t = b \<and> cl_held t = cl_held s
    | Inr c \<Rightarrow> live (cl_library t) \<subseteq> live b \<and>
        (case r of Inl x \<Rightarrow> rh_exchange (cl_held t) = None
         | Inr x \<Rightarrow> rh_exchange (cl_held t) = Some x \<and> rh_connection (cl_held t) = Some c)"
proof (cases a)
  case (Inl x)
  then show ?thesis using assms by (auto simp: rabbit_get_exchange_def bindM_def call_def)
next
  case c: (Inr c)
  obtain h b1 where chan: "am_channel lib c b = (h, b1)" by (metis prod.exhaust)
  show ?thesis
  proof (cases h)
    case (Inl x)
    then show ?thesis using assms c chan channel [OF chan] by (auto simp: rabbit_get_exchange_def bindM_def call_def hold_def)
  next
    case (Inr d)
    obtain e b2 where decl: "am_declare_exchange lib d name b1 = (e, b2)" by (metis prod.exhaust)
    have "live b2 \<subseteq> live b" using channel [OF chan] declare_exchange [OF decl] by blast
    then show ?thesis using assms c chan Inr decl
      by (cases e) (auto simp: rabbit_get_exchange_def bindM_def call_def hold_def)
  qed
qed

lemma get_exchange_opens:
  assumes "opened old k s" and "rabbit_get_exchange lib url name s = (r, t)"
  shows "if isl r then opened old (Suc k) t else opened old k t \<and> rh_exchange (cl_held t) \<noteq> None"
proof (cases "rh_exchange (cl_held s)")
  case (Some x)
  then show ?thesis using assms by (auto simp: rabbit_get_exchange_def bindM_def)
next
  case None
  from assms(1) None obtain extra where extra: "finite extra" "card extra \<le> k" "live (cl_library s) \<subseteq> old \<union> extra"
    by (auto simp: opened_def)
  obtain a b where conn: "am_connect lib url (cl_library s) = (a, b)" by (metis prod.exhaust)
  note outcome = exchange_outcomes [OF None assms(2) conn]
  show ?thesis
  proof (cases a)
    case (Inl x)
    then have "live b \<subseteq> old \<union> extra" using connect [OF conn] extra(3) by auto
    then have "opened old k t" using extra outcome Inl None unfolding opened_def by auto
    then show ?thesis using opened_more [of old k t "Suc k"] outcome Inl by simp
  next
    case (Inr c)
    have t: "live (cl_library t) \<subseteq> old \<union> insert c extra" using connect [OF conn] extra(3) outcome Inr by auto
    show ?thesis
    proof (cases r)
      case (Inl x)
      have "finite (insert c extra)" "card (insert c extra) \<le> Suc k" using extra(1,2) by (simp_all add: card_insert_if)
      then show ?thesis using t outcome Inr Inl unfolding opened_def by auto
    next
      case x: (Inr x)
      have "old \<union> extra \<union> {c} = old \<union> insert c extra" by auto
      then show ?thesis using t extra(1,2) outcome Inr x unfolding opened_def by fastforce
    qed
  qed
qed

lemma publish_opens:
  assumes "opened old k s" and "rabbit_publish lib url name prefix event s = (r, t)"
  shows "opened old (if isl r then Suc k else k) t"
proof -
  obtain g s1 where get: "rabbit_get_exchange lib url name s = (g, s1)" by (metis prod.exhaust)
  note got = get_exchange_opens [OF assms(1) get]
  show ?thesis
  proof (cases g)
    case (Inl x)
    then show ?thesis using assms(2) get got by (auto simp: rabbit_publish_def bindM_def)
  next
    case (Inr x)
    obtain m b where n: "am_now lib (cl_library s1) = (m, b)" by (metis prod.exhaust)
    have s1: "opened old k s1" using got Inr by simp
    have "cl_held t = cl_held s1 \<and> live (cl_library t) \<subseteq> live (cl_library s1)"
    proof (cases m)
      case (Inl y)
      then show ?thesis using assms(2) get Inr n now [OF n] by (auto simp: rabbit_publish_def bindM_def call_def)
    next
      case m: (Inr y)
      then show ?thesis using assms(2) get Inr n now [OF n] publish
        by (fastforce simp: rabbit_publish_def bindM_def call_def split: prod.splits)
    qed
    then have "opened old k t" using opened_mono [OF s1] by blast
    then show ?thesis using opened_more [of old k t "Suc k"] by simp
  qed
qed

lemma publish_each_opens:
  assumes "publish_each (rabbit_publish lib url name prefix) events s = (rs, t)" and "opened old k s"
  shows "opened old (k + failures rs) t"
  using assms
proof (induction events arbitrary: s k rs)
  case (Cons e es)
  obtain r s1 where r: "rabbit_publish lib url name prefix e s = (r, s1)" by (metis prod.exhaust)
  obtain rs' where rs: "publish_each (rabbit_publish lib url name prefix) es s1 = (rs', t)" "rs = r # rs'"
    using Cons.prems(1) r by (auto split: prod.splits)
  from Cons.IH [OF rs(1) publish_opens [OF Cons.prems(2) r]] show ?case
    by (cases r) (simp_all add: rs(2) failures_def)
qed (simp add: failures_def)

lemma close_leaves:
  assumes "opened old k s" and "rabbit_close lib s = (Inr (), t)"
  shows "\<exists>extra. finite extra \<and> card extra \<le> k \<and> live (cl_library t) \<subseteq> old \<union> extra"
proof -
  from assms(1) obtain extra where extra: "finite extra" "card extra \<le> k"
    and l: "live (cl_library s) \<subseteq> old \<union> extra \<union> set_option (rh_connection (cl_held s))"
    by (auto simp: opened_def split: option.splits)
  have t: "live (cl_library t) \<subseteq> live (cl_library s) - set_option (rh_connection (cl_held s))"
  proof -
    obtain r u where chan: "close_unless (am_channel_closed lib) (am_close_channel lib) (rh_channel (cl_held s)) s = (r, u)"
      by (metis prod.exhaust)
    have u: "cl_held u = cl_held s" "live (cl_library u) \<subseteq> live (cl_library s)"
      using chan close_channel by (auto simp: close_unless_def bindM_def call_def split: option.splits if_splits prod.splits) blast+
    have conn: "close_unless (am_connection_closed lib) (am_close_connection lib) (rh_connection (cl_held s)) u = (Inr (), t)"
      using assms(2) chan by (cases r) (auto simp: rabbit_close_def bindM_def)
    show ?thesis
    proof (cases "rh_connection (cl_held s)")
      case None
      then show ?thesis using conn u(2) by (auto simp: close_unless_def)
    next
      case (Some c)
      obtain a b where cc: "am_close_connection lib c (cl_library u) = (a, b)" by (metis prod.exhaust)
      show ?thesis
      proof (cases "c \<in> live (cl_library u)")
        case True
        then have "a = Inr ()" "cl_library t = b" using conn Some cc by (auto simp: close_unless_def bindM_def call_def closed)
        then show ?thesis using close_connection [OF cc] u(2) Some by auto
      next
        case False
        then have "t = u" using conn Some by (simp add: close_unless_def bindM_def closed)
        then show ?thesis using False u(2) Some by auto
      qed
    qed
  qed
  then show ?thesis using extra l by blast
qed

end

section \<open>A broker in memory\<close>

record broker =
  mb_next :: nat
  mb_live :: "nat list"
  mb_refused_channels :: nat
  mb_delivered :: "(string \<times> string) list"

definition amqp_memory :: "broker amqp" where
  "amqp_memory =
     \<lparr>am_connect = (\<lambda>url b. (Inr (mb_next b), b\<lparr>mb_next := mb_next b + 1, mb_live := mb_live b @ [mb_next b]\<rparr>)),
      am_channel = (\<lambda>c b. if 0 < mb_refused_channels b
          then (Inl (PublishError ''ChannelInvalidStateError''), b\<lparr>mb_refused_channels := mb_refused_channels b - 1\<rparr>)
          else (Inr 0, b)),
      am_declare_exchange = (\<lambda>h name b. (Inr 0, b)),
      am_publish = (\<lambda>h message key b. (Inr (), b\<lparr>mb_delivered := mb_delivered b @ [(key, mg_message_id message)]\<rparr>)),
      am_now = (\<lambda>b. (Inr 0, b)),
      am_channel_closed = (\<lambda>h b. False),
      am_connection_closed = (\<lambda>c b. c \<notin> set (mb_live b)),
      am_close_channel = (\<lambda>h b. (Inr (), b)),
      am_close_connection = (\<lambda>c b. (Inr (), b\<lparr>mb_live := removeAll c (mb_live b)\<rparr>))\<rparr>"

interpretation memory_broker: amqp_broker amqp_memory "\<lambda>b. set (mb_live b)"
  by unfold_locales (auto simp: amqp_memory_def split: if_splits)

section \<open>Kafka\<close>

text \<open>\<open>kl_module_found\<close>: whether the package \<open>aiokafka\<close> is installed.\<close>

record 'b kafka_library =
  kl_module_found :: bool
  kl_build :: "string \<Rightarrow> 'b \<Rightarrow> (exn + unit) \<times> 'b"
  kl_start :: "'b \<Rightarrow> (exn + unit) \<times> 'b"
  kl_send_and_wait :: "producer \<Rightarrow> string \<Rightarrow> pyval \<Rightarrow> string \<Rightarrow> 'b \<Rightarrow> (exn + unit) \<times> 'b"
  kl_stop :: "producer \<Rightarrow> 'b \<Rightarrow> (exn + unit) \<times> 'b"
  kl_now_text :: "'b \<Rightarrow> (exn + string) \<times> 'b"

type_synonym ('b, 'a) kafka_prog = "(('b, producer option) client, exn, 'a) prog"

definition kafka_build_producer :: "'b kafka_library \<Rightarrow> string \<Rightarrow> ('b, unit) kafka_prog" where
  "kafka_build_producer lib servers =
     (if kl_module_found lib then call (kl_build lib servers)
      else raise (RuntimeError (''aiokafka is required for EVENT_BUS_BACKEND=kafka. '' @
             ''Install project dependencies with Poetry.'')))"

definition kafka_producer :: "'b kafka_library \<Rightarrow> string \<Rightarrow> ('b, producer) kafka_prog" where
  "kafka_producer lib servers =
     bindM (gets cl_held) (\<lambda>held.
     case held of
       Some p \<Rightarrow> ret p
     | None \<Rightarrow>
         bindM (kafka_build_producer lib servers) (\<lambda>_.
         bindM (hold (\<lambda>_. Some (Producer False))) (\<lambda>_.
         bindM (call (kl_start lib)) (\<lambda>_.
         bindM (hold (\<lambda>_. Some (Producer True))) (\<lambda>_.
         ret (Producer True))))))"

definition kafka_publish :: "'b kafka_library \<Rightarrow> string \<Rightarrow> string \<Rightarrow> outbox_row \<Rightarrow> ('b, unit) kafka_prog" where
  "kafka_publish lib servers topic event =
     bindM (kafka_producer lib servers) (\<lambda>p.
     bindM (call (kl_now_text lib)) (\<lambda>now.
     call (kl_send_and_wait lib p topic (kafka_message event now)
       (kafka_routing_key (event_type_value (ob_event_type event))))))"

definition kafka_shutdown :: "'b kafka_library \<Rightarrow> ('b, unit) kafka_prog" where
  "kafka_shutdown lib =
     bindM (gets cl_held) (\<lambda>held.
     case held of
       None \<Rightarrow> ret ()
     | Some p \<Rightarrow> bindM (call (kl_stop lib p)) (\<lambda>_. hold (\<lambda>_. None)))"

text \<open>The outcomes of building and starting decide what is held, as in \<open>kafka_get_producer\<close>.\<close>

lemma kafka_producer_outcomes:
  "\<exists>build start. fst (kafka_producer lib servers s) = fst (kafka_get_producer build start (cl_held s)) \<and>
     cl_held (snd (kafka_producer lib servers s)) = snd (kafka_get_producer build start (cl_held s))"
proof (cases "cl_held s")
  case None
  obtain build t where build: "kafka_build_producer lib servers s = (build, t)" by (metis prod.exhaust)
  have held: "cl_held t = cl_held s"
    using build by (auto simp: kafka_build_producer_def call_def split: if_splits prod.splits sum.splits)
  obtain start b' where start: "kl_start lib (cl_library t) = (start, b')" by (metis prod.exhaust)
  show ?thesis
    by (rule exI [of _ build], rule exI [of _ start])
       (use None build held start in \<open>auto simp: kafka_producer_def kafka_get_producer_def bindM_def call_def hold_def split: sum.split\<close>)
qed (simp add: kafka_producer_def kafka_get_producer_def bindM_def)

section \<open>No event bus\<close>

definition noop_publish :: "outbox_row \<Rightarrow> ('s, exn, unit) prog" where
  "noop_publish event = ret ()"

definition noop_close :: "('s, exn, unit) prog" where
  "noop_close = ret ()"

end
