(* ===== verification/DeploymentProperties.thy ===== *)
theory DeploymentProperties
  imports Conformance Scenario Applications Tracing Brokers
begin

text \<open>
  The properties of the deployment: the stored rows against the schema, the migration and the ORM, the life of
  the processor's process, the traces that cross the outbox, the connections to the event bus.
\<close>

section \<open>The schema\<close>

text \<open>
  C11: what the services store fits the columns of the migrated schema.  From tables whose rows fit, any runs of the
  system on requests that the request model accepts leave payments, idempotency records, limits and
  customers that fit in every column but the version counter.  An outbox event fits, up to its
  attempts, exactly when it is not a review event: the stored name of that type is wider than the column, so
  on the migrated schema a payment cannot enter review.
\<close>

theorem stored_rows_fit:
  assumes "typed_outside env" and "typed_tables d" and "(served env)\<^sup>*\<^sup>* d d'"
  shows "(\<forall>p\<in>set (db_payments d'). set (misfits payments_table (payment_cells p)) \<subseteq> {''version''}) \<and>
    (\<forall>r\<in>set (db_idempotency d'). misfits idempotency_records_table (idempotency_cells r) = []) \<and>
    (\<forall>l\<in>set (db_limits d'). misfits limits_policies_table (limits_cells l) = []) \<and>
    (\<forall>c\<in>set (db_customers d'). misfits customers_table (customer_cells c) = []) \<and>
    (\<forall>e\<in>set (db_outbox d'). set (misfits outbox_events_table (outbox_cells fst e)) - {''attempts''} =
       (if ob_event_type e = PAYMENT_REVIEW_REQUIRED then {''event_type''} else {}))"
  using served_steps_typed [OF assms(3,1,2)]
  by (auto simp: typed_tables_def list_all_iff outbox_misfits other_misfits dest: payment_misfits subsetD)

definition quiet_provider :: "memory outside" where
  "quiet_provider = memory_outside\<lparr>o_http_post := (\<lambda>url rq e. (Inl (HttpxTimeoutException ''no reply''), e))\<rparr>"

lemma quiet_provider_typed: "typed_outside quiet_provider"
proof -
  have "fits_numeric 18 2 y" if "two_decimals x = Some y" for x y
    using that by (auto simp: two_decimals_def fits_numeric_def Let_def split: if_splits)
  then show ?thesis
    by (simp add: typed_outside_def others_typed_def numeric_column_def http_library_def quiet_provider_def
        memory_outside_def as_processor_error_def)
qed

lemma review_typed: "typed_tables (w_db review_world)"
  by (simp add: typed_tables_def review_world_def review_tables_def typed_payment_def review_payment_def short_def
      fits_numeric_def int32_def typed_snapshot_def review_snapshot_def typed_limits_def seed_limits_policies_def
      seed_policy_def seed_customers_def seed_customer_def)

lemma stored_rows_fit_witness:
  "\<exists>p e. db_payments (w_db (snd (reject_execute quiet_provider ''pay-1'' review_world))) = [p] \<and>
    set (misfits payments_table (payment_cells p)) \<subseteq> {''version''} \<and>
    db_outbox (w_db (snd (reject_execute quiet_provider ''pay-1'' review_world))) = [e] \<and>
    ''event_type'' \<in> set (misfits outbox_events_table (outbox_cells fst e))"
proof -
  let ?d = "w_db (snd (reject_execute quiet_provider ''pay-1'' review_world))"
  have "served quiet_provider (w_db review_world) ?d"
    by (rule served.served_reject) (simp_all add: review_world_def)
  note fit = stored_rows_fit [OF quiet_provider_typed review_typed r_into_rtranclp [of "served quiet_provider", OF this]]
  have "map p_payment_id (db_payments ?d) = [''pay-1'']" "map ob_event_type (db_outbox ?d) = [PAYMENT_REVIEW_REQUIRED]"
    by code_simp+
  then obtain p e where "db_payments ?d = [p]" "db_outbox ?d = [e]" "ob_event_type e = PAYMENT_REVIEW_REQUIRED"
    by (auto simp: map_eq_Cons_conv)
  then show ?thesis using fit by auto
qed

text \<open>
  C29: the migration can be undone.  On any well-formed catalogue without relations of the same names, the upgrade
  succeeds and adds the five tables and their indexes, and the downgrade then gives back the catalogue as it was.
\<close>

theorem migration_undone:
  assumes "catalog_ok c" and "set schema_relations \<inter> set (relations c) = {}"
  shows "\<exists>d. run_ops upgrade c = Some d \<and> ct_tables d = ct_tables c @ schema_tables \<and>
    ct_indexes d = ct_indexes c @ schema_indexes \<and> run_ops downgrade d = Some c"
proof -
  note up = upgrade_runs [OF assms(2)]
  from undo_ops [OF assms(1) upgrade_creates up] up show ?thesis
    unfolding downgrade_is_undo beside_def migrated_catalog_def by auto
qed

definition alembic_catalog :: catalog where
  "alembic_catalog = \<lparr>ct_tables = [\<lparr>tb_name = ''alembic_version'', tb_columns = [required ''version_num'' (Varchar 32)],
     tb_primary_key = [''version_num''], tb_foreign_keys = [], tb_unique = []\<rparr>], ct_indexes = []\<rparr>"

lemma migration_undone_witness:
  "\<exists>d. run_ops upgrade alembic_catalog = Some d \<and> length (ct_tables d) = 6 \<and> run_ops downgrade d = Some alembic_catalog"
proof -
  have ok: "catalog_ok alembic_catalog" by (simp add: catalog_ok_def alembic_catalog_def)
  have "list_all (\<lambda>n. n \<notin> set (relations alembic_catalog)) schema_relations" by code_simp
  then have "set schema_relations \<inter> set (relations alembic_catalog) = {}" by (auto simp: list_all_iff)
  from migration_undone [OF ok this] show ?thesis by (auto simp: alembic_catalog_def schema_tables_def)
qed


section \<open>The processes\<close>

text \<open>
  C33: the life of the processor.  With settings out of their bounds, \<open>main\<close> ends before it does anything.  With an event
  bus it cannot build it ends with that error before any round, and leaves the database engine and the provider's client
  open.  Otherwise the worker runs its rounds, none of which can end it, from the tables as they were, with closed breakers
  for every rail and the bulkhead of the settings; a stop then closes everything, or leaves open, besides the
  resource whose closing raised, those after it.
\<close>

theorem processor_lifecycle:
  fixes w :: "('e, 'm) process_scheme"
  assumes "\<forall>r. lb_build lib r = None" and "pc_open w = []"
  shows "case load_processor_settings s of
      Inl x \<Rightarrow> processor_main env lib vars s n w = (Inl x, w)
    | Inr _ \<Rightarrow> (case build_event_bus_publisher (event_bus_of_settings s) of
        Inl x \<Rightarrow> \<exists>w'. processor_main env lib vars s n w = (Inl x, w') \<and> w_db w' = w_db w \<and>
          pc_open w' = [processor_engine s, processor_client s]
      | Inr p \<Rightarrow> \<exists>(u :: ('e, 'm) process_scheme) v r w'. processor_main env lib vars s n w = (r, w') \<and> w_db u = w_db w \<and>
          (\<forall>rail. \<exists>name. provider_name_for_method rail = Some name \<and>
             pw_breakers u name = Some (new_breaker \<lparr>cc_failure_threshold = 3, cc_recovery_timeout_seconds = 5\<rparr>)) \<and>
          pw_bulkhead u = \<lparr>bh_limit = ps_bulkhead_limit_per_provider s, bh_permits = Map.empty\<rparr> \<and>
          run_rounds n env (worker_of_settings s p) u = (Inr (), v) \<and> w_db w' = w_db v \<and>
          left_open lib [processor_engine s, processor_client s, EventPublisher p] r (pc_open w'))"
proof (cases "load_processor_settings s")
  case (Inl x)
  then show ?thesis by (simp add: processor_main_def processor_run_def bindM_def from_result_def)
next
  case (Inr s')
  then have s: "load_processor_settings s = Inr s"
    by (auto simp: load_processor_settings_def validate_settings_def split: if_splits)
  have b: "lb_build lib r = None" for r using assms(1) by simp
  note run = processor_main_run [OF b assms(2) s, of env vars n]
  show ?thesis
  proof (cases "build_event_bus_publisher (event_bus_of_settings s)")
    case (Inl x)
    then show ?thesis using run s by simp
  next
    case (Inr p)
    with run obtain u :: "('e, 'm) process_scheme" and v r w' where
      "processor_main env lib vars s n w = (r, w')" "w_db u = w_db w" "pw_breakers u = build_provider_breakers"
      "pw_bulkhead u = \<lparr>bh_limit = ps_bulkhead_limit_per_provider s, bh_permits = Map.empty\<rparr>"
      "run_rounds n env (worker_of_settings s p) u = (Inr (), v)" "w_db w' = w_db v"
      "left_open lib [processor_engine s, processor_client s, EventPublisher p] r (pc_open w')" by auto
    moreover from this(3) have "\<exists>name. provider_name_for_method rail = Some name \<and>
        pw_breakers u name = Some (new_breaker \<lparr>cc_failure_threshold = 3, cc_recovery_timeout_seconds = 5\<rparr>)" for rail
      using every_rail_has_breaker [of rail] by simp
    ultimately show ?thesis unfolding s Inr sum.case by (intro exI [of _ u] exI [of _ v] exI [of _ r] exI [of _ w']) simp
  qed
qed

definition stubborn_libraries :: "memory libraries" where
  "stubborn_libraries = \<lparr>lb_build = (\<lambda>r. None),
     lb_close = (\<lambda>r e. (case r of ProviderClient u t \<Rightarrow> Some (RuntimeError ''closed'') | _ \<Rightarrow> None, e))\<rparr>"

definition idle_process :: "memory process" where
  "idle_process = \<lparr>w_out = idle_memory, w_db = w_db review_world, w_pending = [], w_telemetry = [], w_correlation = [],
     pw_breakers = Map.empty, pw_bulkhead = \<lparr>bh_limit = 1, bh_permits = Map.empty\<rparr>,
     pc_logger = \<lparr>lg_handlers = [], lg_level = ''WARNING''\<rparr>,
     pc_otel = \<lparr>ot_initialized_services = {}, ot_tracer_providers = [], ot_meter_providers = []\<rparr>,
     pc_open = [], pc_fault_config = None\<rparr>"

lemma processor_lifecycle_witness:
  "\<exists>r w'. processor_main memory_outside stubborn_libraries Map.empty processor_defaults 0 idle_process = (r, w') \<and>
    (if isl r then pc_open w' \<noteq> [] else pc_open w' = [])"
proof -
  have b: "\<forall>r. lb_build stubborn_libraries r = None" and o: "pc_open idle_process = []"
    by (simp_all add: stubborn_libraries_def idle_process_def)
  have p: "build_event_bus_publisher (event_bus_of_settings processor_defaults) = Inr NoopPublisher" by code_simp
  from processor_lifecycle [OF b o, where s = processor_defaults and env = memory_outside and vars = Map.empty and n = 0] show ?thesis
    unfolding defaults_valid p sum.case left_open_def by (fastforce split: sum.splits)
qed

section \<open>Traces\<close>

text \<open>
  C34: the trace goes on in the worker.  When a creation or an approval enqueues a payment's event, in a valid span,
  the context the worker extracts from the event is that of the span; without a valid span it extracts none.
  The propagator is any that meets its contract.
\<close>

theorem trace_survives_outbox:
  fixes w :: "('e, 'm) world_scheme"
  assumes "propagator inject extr" and "reports_span inject current env"
    and "m = persist_outbox_events env rx response \<and> ac_status response = RECEIVED \<or> m = enqueue_payment_requested env pid merchant"
  shows "\<exists>ev w'. m w = (Inr (), w') \<and> w_pending w' = w_pending w @ [insert_event ev] \<and>
    ob_event_type ev = PAYMENT_REQUESTED \<and>
    extract_context extr ev = (if is_valid (current (w_out w)) then Some (current (w_out w)) else None)"
  using assms(3)
proof
  assume m: "m = persist_outbox_events env rx response \<and> ac_status response = RECEIVED"
  then have "m = enqueue_payment_requested env (ac_payment_id response) (rx_merchant_id rx)"
    using persist_enqueues [of response env rx] by simp
  then show ?thesis using enqueue_context [OF assms(1,2), of "ac_payment_id response" "rx_merchant_id rx" w] by blast
next
  assume "m = enqueue_payment_requested env pid merchant"
  then show ?thesis using enqueue_context [OF assms(1,2), of pid merchant w] by blast
qed

definition example_span :: span_context where
  "example_span = \<lparr>sc_trace_id = 0x0af7651916cd43dd8448eb211c80319c, sc_span_id = 0xb7ad6b7169203331, sc_flags = 1\<rparr>"

definition traced_outside :: "memory outside" where
  "traced_outside = memory_outside\<lparr>o_trace_id := (\<lambda>e. (current_trace_id example_span, e)),
     o_traceparent := (\<lambda>e. (current_traceparent w3c_inject example_span, e))\<rparr>"

lemma trace_survives_outbox_witness:
  "\<exists>ev w'. enqueue_payment_requested traced_outside ''pay-1'' ''m'' review_world = (Inr (), w') \<and>
    w_pending w' = [insert_event ev] \<and> extract_context w3c_extract ev = Some example_span"
proof -
  have p: "propagator w3c_inject w3c_extract" ..
  have r: "reports_span w3c_inject (\<lambda>_. example_span) traced_outside" by (simp add: reports_span_def traced_outside_def)
  have v: "is_valid example_span" by (simp add: is_valid_def example_span_def)
  show ?thesis using trace_survives_outbox [OF p r disjI2 [OF refl], where w = review_world and pid = "''pay-1''" and merchant = "''m''"] v
    by (auto simp: review_world_def)
qed

section \<open>The event bus\<close>

text \<open>
  C35: the connections of the RabbitMQ publisher.  However many events it publishes, each of which may fail anywhere, and
  with a broker that may drop connections, after a close that returns no more connections of its own are open
  than there were failed publications; so none if none failed.  A publication that fails between connecting and
  declaring the exchange does leave one open.
\<close>

theorem rabbit_connections:
  assumes "amqp_broker lib live"
    and "publish_each (rabbit_publish lib address exchange routing_prefix) events \<lparr>cl_library = b, cl_held = no_handles\<rparr> = (rs, t)"
    and "rabbit_close lib t = (Inr (), u)"
  shows "\<exists>extra. finite extra \<and> card extra \<le> failures rs \<and> live (cl_library u) \<subseteq> live b \<union> extra"
proof -
  have "amqp_broker.opened live (live b) 0 \<lparr>cl_library = b, cl_held = no_handles\<rparr>"
    by (simp add: amqp_broker.opened_def [OF assms(1)] no_handles_def exI [of _ "{}"])
  from amqp_broker.close_leaves [OF assms(1) amqp_broker.publish_each_opens [OF assms(1,2) this] assms(3)]
  show ?thesis by simp
qed

definition refusing_broker :: broker where
  "refusing_broker = \<lparr>mb_next = 0, mb_live = [], mb_refused_channels = 1, mb_delivered = []\<rparr>"

definition leaking_run :: "(exn + unit) list \<times> (broker, rabbit_handles) client" where
  "leaking_run = publish_each (rabbit_publish amqp_memory ''amqp://mq'' ''payments.events'' ''payments'')
     [review_event, review_event] \<lparr>cl_library = refusing_broker, cl_held = no_handles\<rparr>"

lemma rabbit_connections_witness:
  "\<exists>u extra. rabbit_close amqp_memory (snd leaking_run) = (Inr (), u) \<and> mb_live (cl_library u) = [0] \<and>
    finite extra \<and> card extra \<le> 1 \<and> set (mb_live (cl_library u)) \<subseteq> extra"
proof -
  have ev: "failures (fst leaking_run) = 1" "fst (rabbit_close amqp_memory (snd leaking_run)) = Inr ()"
    "mb_live (cl_library (snd (rabbit_close amqp_memory (snd leaking_run)))) = [0]" by code_simp+
  have run: "publish_each (rabbit_publish amqp_memory ''amqp://mq'' ''payments.events'' ''payments'') [review_event, review_event]
      \<lparr>cl_library = refusing_broker, cl_held = no_handles\<rparr> = (fst leaking_run, snd leaking_run)"
    by (simp add: leaking_run_def)
  have close: "rabbit_close amqp_memory (snd leaking_run) = (Inr (), snd (rabbit_close amqp_memory (snd leaking_run)))"
    using ev(2) by (simp add: prod_eq_iff)
  have "amqp_broker amqp_memory (\<lambda>b. set (mb_live b))" ..
  from rabbit_connections [OF this run close] obtain extra where
    "finite extra" "card extra \<le> 1" "set (mb_live (cl_library (snd (rabbit_close amqp_memory (snd leaking_run))))) \<subseteq> extra"
    unfolding ev(1) by (auto simp: refusing_broker_def)
  with close ev(3) show ?thesis by blast
qed

end
