(* ===== verification/Metrics.thy ===== *)
theory Metrics
  imports Applications
begin

text \<open>
  The instruments each service creates (\<open>core/metrics.py\<close> of the API and of the processor, the
  three of \<open>provider_mock/main.py\<close>), and what the services record on them.  \<open>logs T m\<close>: whatever
  the outside answers and however the run ends, a run of \<open>m\<close> only adds telemetry, and every entry it adds
  satisfies \<open>T\<close>.  One rule per combinator and per primitive step derives it for the handlers,
  as the rules of a type system for effects would.
\<close>

section \<open>Instruments\<close>

text \<open>\<open>create_counter\<close> and \<open>create_histogram\<close>: a name and a description.\<close>

datatype instrument = Counter string string | Histogram string string

definition api_instruments :: "instrument list" where
  "api_instruments =
     [Counter ''payments_api_request_total'' ''Total requests'',
      Counter ''payments_api_error_total'' ''Total error responses'',
      Histogram ''payments_api_request_latency_ms'' ''Request latency in ms'',
      Histogram ''kyc_check_duration'' ''KYC check duration in ms'',
      Counter ''kyc_denied_total'' ''Rejected by KYC controls'',
      Histogram ''limits_check_duration'' ''Limits check duration in ms'',
      Counter ''limits_exceeded_total'' ''Rejected by limits'',
      Counter ''rate_limited_total'' ''Rate-limited requests'',
      Counter ''risk_decisions_total'' ''Risk decision count'',
      Counter ''aml_decisions_total'' ''AML decision count'',
      Histogram ''review_queue_size'' ''Current review queue size snapshots'',
      Counter ''idempotency_replay_total'' ''Idempotent replay count'']"

definition processor_instruments :: "instrument list" where
  "processor_instruments =
     [Histogram ''payments_processor_outbox_backlog'' ''Outbox backlog size snapshots'',
      Histogram ''payments_processor_outbox_lag_seconds'' ''Outbox processing lag'',
      Histogram ''payments_processor_provider_latency_ms'' ''Provider call latency'',
      Counter ''payments_processor_provider_errors'' ''Provider call errors'',
      Histogram ''payments_processor_fanout_backlog'' ''Fan-out outbox backlog snapshots'',
      Histogram ''payments_processor_fanout_publish_latency_ms'' ''Fan-out publish latency'',
      Counter ''payments_processor_fanout_publish_errors'' ''Fan-out publish errors'']"

definition mock_instruments :: "instrument list" where
  "mock_instruments =
     [Counter ''provider_mock_request_total'' [],
      Histogram ''provider_mock_latency_ms'' [],
      Counter ''provider_mock_error_total'' []]"

fun records_on :: "telemetry \<Rightarrow> instrument \<Rightarrow> bool" where
  "records_on (CounterAdd n ls) (Counter m d) \<longleftrightarrow> n = m"
| "records_on (HistogramRecord n v ls) (Histogram m d) \<longleftrightarrow> n = m"
| "records_on t i \<longleftrightarrow> False"

primrec attributes_of :: "telemetry \<Rightarrow> (string \<times> string) list" where
  "attributes_of (CounterAdd n ls) = ls"
| "attributes_of (HistogramRecord n v ls) = ls"
| "attributes_of (LogLine event fs) = []"

primrec metric_name :: "telemetry \<Rightarrow> string option" where
  "metric_name (CounterAdd n ls) = Some n"
| "metric_name (HistogramRecord n v ls) = Some n"
| "metric_name (LogLine event fs) = None"

text \<open>
  The labels of the measurements whose values come from an enumeration of the contracts; the others (path
  and method of the request, status code, name of an exception) are free.
\<close>

definition closed_labels :: "string \<rightharpoonup> string list" where
  "closed_labels = map_of
     [(''rail'', map method_value [PIX, BOLETO, TED, CARD]),
      (''dimension'', map dimension_value [MERCHANT, CUSTOMER, ACCOUNT, UNKNOWN_DIMENSION]),
      (''decision'', map risk_value [RISK_ALLOW, RISK_REVIEW, RISK_BLOCK]),
      (''event_type'', map event_type_value
         [PAYMENT_REQUESTED, PAYMENT_CONFIRMED, PAYMENT_FAILED, PAYMENT_REVIEW_REQUIRED]),
      (''provider'', supported_provider_names)]"

definition open_labels :: "string list" where
  "open_labels = [''path'', ''method'', ''status_code'', ''error'']"

definition label_ok :: "string \<times> string \<Rightarrow> bool" where
  "label_ok = (\<lambda>(key, v). case closed_labels key of
       Some vs \<Rightarrow> v \<in> set vs
     | None \<Rightarrow> key \<in> set open_labels)"

text \<open>A measurement on an instrument of the list, of its kind, with known labels; a log line is no measurement.\<close>

definition declared :: "instrument list \<Rightarrow> telemetry \<Rightarrow> bool" where
  "declared instruments t \<longleftrightarrow> metric_name t = None \<or>
     list_ex (records_on t) instruments \<and> list_all label_ok (attributes_of t)"

definition occurrences :: "string \<Rightarrow> telemetry list \<Rightarrow> nat" where
  "occurrences name ts = length (filter (\<lambda>t. metric_name t = Some name) ts)"

lemma occurrences_simps [simp]:
  "occurrences name [] = 0" "occurrences name (ts @ us) = occurrences name ts + occurrences name us"
  "occurrences name (t # ts) = (if metric_name t = Some name then 1 else 0) + occurrences name ts"
  by (simp_all add: occurrences_def)

text \<open>An instrument that is not in the list is not measured.\<close>

lemma occurrences_none:
  assumes "list_all (declared instruments) ts"
    and "name \<notin> set (map (\<lambda>i. case i of Counter m d \<Rightarrow> m | Histogram m d \<Rightarrow> m) instruments)"
  shows "occurrences name ts = 0"
proof -
  have "metric_name t \<noteq> Some name" if "t \<in> set ts" for t
  proof
    assume n: "metric_name t = Some name"
    have "declared instruments t" using that assms(1) by (simp add: list_all_iff)
    then obtain i where "i \<in> set instruments" "records_on t i"
      using n by (auto simp: list_ex_iff declared_def)
    then show False using n assms(2) by (cases "(t, i)" rule: records_on.cases) (auto simp: image_iff split: instrument.splits)
  qed
  then show ?thesis by (simp add: occurrences_def filter_empty_conv)
qed

lemma declared_mono: "declared is t \<Longrightarrow> set is \<subseteq> set js \<Longrightarrow> declared js t"
  by (auto simp: declared_def list_ex_iff)

lemma declared_log [simp]: "declared is (LogLine event fs)"
  by (simp add: declared_def)

lemma label_values [simp]:
  "label_ok (''rail'', method_value m)" "label_ok (''dimension'', dimension_value d)"
  "label_ok (''decision'', risk_value r)" "label_ok (''decision'', aml_value a)"
  "label_ok (''event_type'', event_type_value e)"
  "label_ok (''path'', x)" "label_ok (''method'', x)" "label_ok (''status_code'', x)" "label_ok (''error'', x)"
proof -
  show "label_ok (''rail'', method_value m)" by (cases m) (simp_all add: label_ok_def closed_labels_def)
  show "label_ok (''dimension'', dimension_value d)" by (cases d) (simp_all add: label_ok_def closed_labels_def)
  show "label_ok (''decision'', risk_value r)" by (cases r) (simp_all add: label_ok_def closed_labels_def)
  show "label_ok (''decision'', aml_value a)" by (cases a) (simp_all add: label_ok_def closed_labels_def)
  show "label_ok (''event_type'', event_type_value e)" by (cases e) (simp_all add: label_ok_def closed_labels_def)
qed (simp_all add: label_ok_def closed_labels_def open_labels_def)

lemma label_provider [simp]: "label_ok (''provider'', p) \<longleftrightarrow> p \<in> set supported_provider_names"
  by (simp add: label_ok_def closed_labels_def)

section \<open>What a run logs\<close>

definition logged :: "(telemetry \<Rightarrow> bool) \<Rightarrow> telemetry list \<Rightarrow> ('e, 'm) world_scheme \<Rightarrow> bool" where
  "logged T ts w \<longleftrightarrow> (\<exists>new. w_telemetry w = ts @ new \<and> list_all T new)"

definition logs :: "(telemetry \<Rightarrow> bool) \<Rightarrow> ('e, 'm, 'a) act \<Rightarrow> bool" where
  "logs T m \<longleftrightarrow> (\<forall>ts. keeps (logged T ts) m)"

named_theorems logs_intros "what programs add to the telemetry"

lemma logsD:
  assumes "logs T m" and "m w = (r, v)"
  obtains new where "w_telemetry v = w_telemetry w @ new" and "list_all T new"
proof -
  have "logged T (w_telemetry w) w" by (simp add: logged_def)
  then have "logged T (w_telemetry w) (snd (m w))" using assms(1) by (simp add: logs_def keeps_def)
  then show thesis using that assms(2) by (auto simp: logged_def)
qed

lemma logs_combinators [logs_intros]:
  "logs T (ret a)" "logs T (raise x)" "logs T (gets g)"
  "logs T m \<Longrightarrow> (\<And>a. logs T (f a)) \<Longrightarrow> logs T (bindM m f)"
  "logs T n \<Longrightarrow> (\<And>x. logs T (h x)) \<Longrightarrow> logs T (catch n h)"
  "logs T n \<Longrightarrow> (\<And>x. logs T (h x)) \<Longrightarrow> logs T (catch_if c n h)"
  "logs T m \<Longrightarrow> (\<And>x. logs T (k x)) \<Longrightarrow> (\<And>a. logs T (f a)) \<Longrightarrow> logs T (try_else m k f)"
  "logs T n \<Longrightarrow> logs T n' \<Longrightarrow> logs T (if b then n else n')"
  "(\<And>a. logs T (g' a)) \<Longrightarrow> logs T (forM xs g')"
  "logs T (the_key y)" "logs T (from_result z)" "logs T (scalar_one_or_none rows)"
  unfolding logs_def by (intro allI keeps_intros; simp)+

lemma logs_cases [logs_intros]:
  "logs T n \<Longrightarrow> (\<And>a. logs T (f a)) \<Longrightarrow> logs T (case y of None \<Rightarrow> n | Some a \<Rightarrow> f a)"
  "(\<And>a. logs T (g a)) \<Longrightarrow> (\<And>b. logs T (h b)) \<Longrightarrow> logs T (case z of Inl a \<Rightarrow> g a | Inr b \<Rightarrow> h b)"
  "(\<And>a b. logs T (k a b)) \<Longrightarrow> logs T (case p of (a, b) \<Rightarrow> k a b)"
  "(\<And>a. logs T (l a)) \<Longrightarrow> logs T (let a = q in l a)"
  by (simp_all add: logs_def split: option.split sum.split prod.split)

text \<open>Every primitive step but \<open>emit\<close> leaves the telemetry as it is.\<close>

lemma logs_silent:
  assumes "\<And>w. w_telemetry (snd (m w)) = w_telemetry w"
  shows "logs T m"
  using assms by (auto simp: logs_def keeps_def logged_def)

lemma logs_emit [logs_intros]: "T t \<Longrightarrow> logs T (emit t)"
  by (auto simp: logs_def keeps_def logged_def)

lemma logs_primitives [logs_intros]:
  "logs T (outside f)" "logs T (redis g)" "logs T (interfere env)" "logs T (db_write u)" "logs T db_rollback"
  "logs T (update_correlation_context vs)" "logs T (set_correlation_context vs)" "logs T clear_correlation_context"
  by (rule logs_silent;
    simp add: outside_def redis_def interfere_def db_write_def db_rollback_def update_correlation_context_def
      set_correlation_context_def clear_correlation_context_def split: prod.split sum.split)+

lemma logs_session [logs_intros]:
  fixes m :: "('e, 'm, 'a) act"
  assumes "logs T m"
  shows "logs T (in_session m)"
  unfolding logs_def keeps_def
proof (intro allI impI)
  fix ts and w :: "('e, 'm) world_scheme"
  assume "logged T ts w"
  then have "logged T ts (w\<lparr>w_pending := []\<rparr>)" by (simp add: logged_def)
  then have "logged T ts (snd (m (w\<lparr>w_pending := []\<rparr>)))" using assms by (simp add: logs_def keeps_def)
  then show "logged T ts (snd (in_session m w))" by (auto simp: in_session_def logged_def split: prod.split)
qed

lemma logs_database [logs_intros]:
  "logs T (db_select env q)" "logs T (db_update_payments env p f)" "logs T (db_update_outbox env p' f')"
  "logs T (db_commit env)"
proof -
  show s: "logs T (db_select env q)" for q unfolding db_select_def by (intro logs_intros)
  show "logs T (db_update_payments env p f)" unfolding db_update_payments_def by (intro logs_intros s)
  show "logs T (db_update_outbox env p' f')" unfolding db_update_outbox_def by (intro logs_intros)
  have "logs T (\<lambda>w. if constraints_ok (db_view w) then (Inr (), w\<lparr>w_db := db_view w, w_pending := []\<rparr>)
     else (Inl IntegrityError, w))" by (rule logs_silent) simp
  then show "logs T (db_commit env)" unfolding db_commit_def by (intro logs_intros)
qed

section \<open>The API\<close>

text \<open>What the use cases record on; the first three instruments are those of the middleware.\<close>

abbreviation use_case_instruments :: "instrument list" where
  "use_case_instruments \<equiv> drop 3 api_instruments"

abbreviation recorded :: "telemetry \<Rightarrow> bool" where
  "recorded \<equiv> declared use_case_instruments"

lemma recorded_measurements [simp]:
  "recorded (CounterAdd ''idempotency_replay_total'' [])"
  "recorded (HistogramRecord ''review_queue_size'' v [])"
  "recorded (HistogramRecord ''kyc_check_duration'' v (rail_attributes rail))"
  "recorded (HistogramRecord ''limits_check_duration'' v (rail_attributes rail))"
  "recorded (CounterAdd ''kyc_denied_total'' (rail_attributes rail))"
  "recorded (CounterAdd ''limits_exceeded_total'' (rail_attributes rail))"
  "recorded (CounterAdd ''rate_limited_total'' [(''dimension'', dimension_value d)])"
  "recorded (CounterAdd ''risk_decisions_total'' [(''decision'', risk_value r)])"
  "recorded (CounterAdd ''aml_decisions_total'' [(''decision'', aml_value a)])"
  by (simp_all add: declared_def api_instruments_def rail_attributes_def)

lemma logs_timed [logs_intros]:
  "(\<And>v. T (HistogramRecord metric v attrs)) \<Longrightarrow> logs T m \<Longrightarrow> logs T (timed_span env metric attrs m)"
  unfolding timed_span_def Let_def by (intro logs_intros)

lemma logs_repositories [logs_intros]:
  "logs T (get_customer_by_id env c)" "logs T (get_by_rail env rail)" "logs T (get_snapshot env m k)"
  "logs T (create_snapshot env m k pid st pl)" "logs T (add_event env pid ty pl)"
  "logs T (get_by_payment_id env pid)" "logs T (get_by_merchant_and_idempotency env m k)"
  "logs T (create_payment_row env dt)" "logs T (update_status env pid s err)"
  "logs T (count_in_review env)"
  unfolding api_repository_defs by (intro logs_intros)+

lemma logs_services [logs_intros]:
  "logs T (limits_enforce env ttl cid rail amount)" "logs T (rate_enforce env rl m c a)"
  "logs T (risk_evaluate env svc customer amount policy n dest)"
  "logs T (aml_evaluate env ae cid rail amount dest policy)"
  "logs T (record_outgoing env ae cid rail amount)"
  unfolding limits_defs rate_enforce_def rate_allow_def risk_evaluate_def aml_evaluate_def
    total_outgoing_recent_def near_threshold_count_def read_history_entries_def record_outgoing_def
    api_repository_defs
  by (intro logs_intros)+

lemma logs_acquire [logs_intros]: "logs recorded (acquire env is m k)"
  unfolding acquire_def by (intro logs_intros) simp_all

lemma logs_replays [logs_intros]:
  "logs recorded (try_return_replayed_response env rx)" "logs T (build_payment_response env pid st rd ad)"
  "logs recorded (resolve_replayed_after_conflict env rx)" "logs recorded (poll_pending env rx n)"
proof -
  show r: "logs recorded (try_return_replayed_response env rx)" for env :: "'x outside" and rx
    unfolding try_return_replayed_response_def by (intro logs_intros) simp_all
  show b: "logs T (build_payment_response env pid st rd ad)" for T and env :: "'x outside" and pid st rd ad
    unfolding build_payment_response_def by (intro logs_intros)
  show "logs recorded (resolve_replayed_after_conflict env rx)"
    unfolding resolve_replayed_after_conflict_def build_response_from_existing_payment_def by (intro logs_intros r b)
  show "logs recorded (poll_pending env rx n)"
    by (induction n; unfold poll_pending.simps build_response_from_existing_payment_def) (intro logs_intros r b; assumption)+
qed

lemma logs_use_case [logs_intros]:
  "logs recorded (create_execute env uc request headers)" "logs recorded (approve_execute env pid)"
  "logs recorded (reject_execute env pid)" "logs recorded (get_execute env pid)"
proof -
  have pre: "logs recorded (run_pre_checks env uc rx request customer)" for rx request customer
    unfolding run_pre_checks_def enforce_kyc_def enforce_limits_def enforce_rate_limit_def
    by (intro logs_intros) simp_all
  have controls: "logs recorded (evaluate_controls env uc customer request ev cid)" for customer request ev cid
    unfolding evaluate_controls_def evaluate_risk_def evaluate_aml_def by (intro logs_intros) simp_all
  have transaction: "logs recorded (persist_payment_transaction env rx request dec response)" for rx request dec response
    unfolding persist_payment_transaction_def persist_payment_and_outbox_def persist_outbox_events_def
    by (intro logs_intros)
  have observe: "logs recorded (after_commit_observability env uc rx request response dec)" for rx request response dec
    unfolding after_commit_observability_def by (intro logs_intros) simp_all
  have "logs recorded (create_payment_with_controls env uc rx request)" for rx request
    unfolding create_payment_with_controls_def load_customer_or_raise_def build_response_payload_def
      update_decision_correlation_fields_def
    by (intro logs_intros pre controls transaction observe)
  then show "logs recorded (create_execute env uc request headers)"
    unfolding create_execute_def acquire_idempotency_lock_def resolve_pending_idempotent_request_def build_request_context_def
    by (intro logs_intros)
  have queue: "logs recorded (record_review_queue_size env)"
    unfolding record_review_queue_size_def by (intro logs_intros) simp
  show "logs recorded (approve_execute env pid)" "logs recorded (reject_execute env pid)" "logs recorded (get_execute env pid)"
    unfolding approve_execute_def reject_execute_def get_execute_def load_review_payment_or_raise_def
      enqueue_payment_requested_def build_review_response_def
    by (intro logs_intros queue)+
qed

text \<open>The routes of the API.\<close>

inductive api_route ::
  "'e outside \<Rightarrow> create_payment_use_case \<Rightarrow> auth_settings option \<Rightarrow> ('e, 'm, http_response) act \<Rightarrow> bool"
  for env uc auth where
  create: "api_route env uc auth (route_create_payment env uc auth authorization payload key merchant customer account)"
| approve: "api_route env uc auth (route_approve_review env auth authorization payment_id)"
| reject: "api_route env uc auth (route_reject_review env auth authorization payment_id)"
| read: "api_route env uc auth (route_get_payment env auth authorization payment_id)"

lemma logs_route: "api_route env uc auth route \<Longrightarrow> logs recorded route"
  by (induction rule: api_route.induct;
    unfold route_create_payment_def route_approve_review_def route_reject_review_def route_get_payment_def)
    (intro logs_intros)+

text \<open>
  Whether the handlers of application errors and HTTP exceptions answer; otherwise the exception passes the
  middleware.
\<close>

definition answered_inside :: "exn + 'a \<Rightarrow> bool" where
  "answered_inside r = (case r of Inr _ \<Rightarrow> True
     | Inl x \<Rightarrow> as_app_error x \<noteq> None \<or> (case x of HTTPException _ _ _ \<Rightarrow> True | _ \<Rightarrow> False))"

lemma answered_run:
  assumes "route v = (r, v1)"
  shows "\<exists>q v2. answer_app_errors route v = (q, v2) \<and> (isl q \<longleftrightarrow> \<not> answered_inside r)"
  using assms
  by (auto simp: answer_app_errors_def catch_def answered_inside_def handle_app_error_def bindM_def
      split: sum.splits option.splits prod.splits exn.splits)

lemma logs_answers [logs_intros]: "logs recorded route \<Longrightarrow> logs recorded (answer_app_errors route)"
  unfolding answer_app_errors_def handle_app_error_def
  by (intro logs_intros; (simp split: exn.split)?; intro conjI allI impI logs_intros)

lemma logs_correlated [logs_intros]: "logs T m \<Longrightarrow> logs T (correlation_middleware env headers m)"
  unfolding correlation_middleware_def by (intro logs_intros)

lemma correlated_run:
  fixes w :: "('e, 'm) world_scheme"
  shows "\<exists>v r v2 w2. m v = (r, v2) \<and> correlation_middleware env headers m w = (r, w2)"
  by (auto simp: correlation_middleware_def set_correlation_context_def clear_correlation_context_def
      bindM_def try_else_def outside_def split: prod.splits sum.splits)

lemma declared_recorded: "recorded t \<Longrightarrow> declared api_instruments t"
  by (erule declared_mono) (rule set_drop_subset)

lemma declared_requests [simp]:
  "declared api_instruments (CounterAdd ''payments_api_request_total'' [(''path'', x), (''method'', y)])"
  "declared api_instruments (HistogramRecord ''payments_api_request_latency_ms'' v [(''path'', x), (''method'', y)])"
  "declared api_instruments (CounterAdd ''payments_api_error_total''
     [(''path'', x), (''method'', y), (''status_code'', z)])"
  by (simp_all add: declared_def api_instruments_def)

lemma recorded_not_requests:
  assumes "list_all recorded ts"
  shows "occurrences ''payments_api_request_total'' ts = 0" "occurrences ''payments_api_request_latency_ms'' ts = 0"
    "occurrences ''payments_api_error_total'' ts = 0"
  using occurrences_none [OF assms] by (simp_all add: api_instruments_def)

text \<open>
  What the middleware adds around a route: one count of the request, and, when the response comes back through
  it, one duration and one count of the error.
\<close>

lemma served_measured:
  fixes w :: "('e, 'm) world_scheme"
  assumes "logs recorded route"
  shows "\<exists>resp w' v r v1 new. serve env path http_method headers route w = (Inr resp, w') \<and> route v = (r, v1) \<and>
    w_telemetry w' = w_telemetry w @ new \<and> list_all (declared api_instruments) new \<and>
    occurrences ''payments_api_request_total'' new = 1 \<and>
    occurrences ''payments_api_request_latency_ms'' new = (if answered_inside r then 1 else 0) \<and>
    occurrences ''payments_api_error_total'' new = (if answered_inside r \<and> 400 \<le> hr_status_code resp then 1 else 0)"
proof -
  let ?m = "correlation_middleware env headers (answer_app_errors route)"
  obtain start e where start: "o_perf_counter env (w_out w) = (start, e)" by (metis prod.exhaust)
  let ?w = "w\<lparr>w_out := e, w_telemetry := w_telemetry w @
    [CounterAdd ''payments_api_request_total'' [(''path'', path), (''method'', http_method)]]\<rparr>"
  obtain q w2 where run: "?m ?w = (q, w2)" by (metis prod.exhaust)
  have "logs recorded ?m" by (intro logs_intros assms)
  from logsD [OF this run] obtain new where new: "w_telemetry w2 = w_telemetry ?w @ new" "list_all recorded new" .
  then have all: "list_all (declared api_instruments) new" using declared_recorded by (auto simp: list_all_iff)
  obtain v v2 where "answer_app_errors route v = (q, v2)"
    using correlated_run [of "answer_app_errors route" env headers ?w] run by auto
  then obtain r v1 where route: "route v = (r, v1)" and q: "isl q \<longleftrightarrow> \<not> answered_inside r"
    using answered_run [of route v] by (metis Pair_inject prod.exhaust)
  show ?thesis
  proof (cases q)
    case (Inl x)
    then have "\<exists>resp w'. serve env path http_method headers route w = (Inr resp, w') \<and>
        w_telemetry w' = w_telemetry w2 @ [LogLine ''unexpected_error'' [(''error_category'', PStr ''unexpected'')]]"
      by (simp add: serve_def catch_def telemetry_middleware_def bindM_def outside_def start run handle_unexpected_def)
    then show ?thesis using route q Inl new all recorded_not_requests [OF new(2)] by fastforce
  next
    case (Inr a)
    let ?latency = "\<lambda>d. HistogramRecord ''payments_api_request_latency_ms'' d [(''path'', path), (''method'', http_method)]"
    let ?failure = "if 400 \<le> hr_status_code a then [CounterAdd ''payments_api_error_total'' [(''path'', path),
        (''method'', http_method), (''status_code'', show_int (hr_status_code a))]] else []"
    have "\<exists>resp w' d. serve env path http_method headers route w = (Inr resp, w') \<and> hr_status_code resp = hr_status_code a \<and>
        w_telemetry w' = w_telemetry w2 @ ?latency d # ?failure"
      by (auto simp: serve_def catch_def telemetry_middleware_def bindM_def outside_def start run Inr split: prod.split)
    then show ?thesis using route q Inr new all recorded_not_requests [OF new(2)] by fastforce
  qed
qed

section \<open>The processor\<close>

abbreviation processed :: "telemetry \<Rightarrow> bool" where
  "processed \<equiv> declared (drop 2 processor_instruments)"

lemma processed_measurements [simp]:
  "processed (HistogramRecord ''payments_processor_provider_latency_ms'' v [(''provider'', p)]) \<longleftrightarrow>
     p \<in> set supported_provider_names"
  "processed (CounterAdd ''payments_processor_provider_errors'' [(''provider'', p), (''error'', x)]) \<longleftrightarrow>
     p \<in> set supported_provider_names"
  "processed (HistogramRecord ''payments_processor_fanout_backlog'' v [])"
  "processed (HistogramRecord ''payments_processor_fanout_publish_latency_ms'' v [(''event_type'', event_type_value t)])"
  "processed (CounterAdd ''payments_processor_fanout_publish_errors'' [(''event_type'', event_type_value t)])"
  by (simp_all add: declared_def processor_instruments_def)

lemma logs_modify [logs_intros]:
  "logs T (modify (\<lambda>w. w\<lparr>pw_breakers := f w\<rparr>))" "logs T (modify (\<lambda>w. w\<lparr>pw_bulkhead := g w\<rparr>))"
  by (rule logs_silent; simp)+

lemma logs_retry [logs_intros]: "logs T op \<Longrightarrow> logs T (retry_loop env op sr n b attempts le)"
proof (induction attempts arbitrary: le)
  case Nil
  show ?case by (simp, intro logs_intros)
next
  case (Cons a as)
  show ?case unfolding retry_loop.simps exponential_backoff_def by (intro logs_intros Cons.IH Cons.prems)
qed

text \<open>Every rail has a strategy, and its provider is one of the supported ones.\<close>

lemma strategy_found: "\<exists>strategy. for_method m = ret strategy \<and> ps_provider_name strategy \<in> set supported_provider_names"
  by (cases m) (auto simp: for_method_def provider_confirm_path_for_method_def supported_provider_names_def rail_profiles_def fun_eq_iff)

lemma logs_provider [logs_intros]:
  fixes env :: "'e outside"
  shows "logs processed (provider_execute env payment :: ('e, 'm, provider_response) pact)"
proof -
  obtain strategy where s: "for_method (p_method payment) = (ret strategy :: ('e, 'm, provider_strategy) pact)"
    and p [simp]: "ps_provider_name strategy \<in> set supported_provider_names"
    using strategy_found by blast
  show ?thesis unfolding provider_execute_def s bindM_ret
    retry_async_def call_once_def adapter_confirm_def allow_call_def
      on_success_def on_failure_def get_breaker_def clock_if_def with_bulkhead_def set_breaker_def Let_def
    by (intro logs_intros) simp_all
qed

lemma logs_processor_repositories [logs_intros]:
  "logs T (emit_event env pid t pl)" "logs T (get_by_id env pid)" "logs T (mark_processing env p)"
  "logs T (mark_confirmed env p)" "logs T (mark_payment_failed env p reason)"
  "logs T (fetch_pending_requested env n)" "logs T (fetch_pending_fanout_events env n)"
  "logs T (mark_sent env eid)" "logs T (mark_event_failed env eid k)" "logs T (reschedule env eid k delay)"
  unfolding processor_repository_defs by (intro logs_intros)+

lemma logs_events:
  "logs processed (process_event env ws event)" "logs processed (publish_fanout_events env ws)"
proof -
  show "logs processed (process_event env ws event)"
    unfolding process_event_def process_payment_event_def mark_processing_execute_def handle_processor_error_def
      finalize_confirm_def finalize_fail_def for_method_def exponential_backoff_def Let_def
    by (intro logs_intros) simp_all
  show "logs processed (publish_fanout_events env ws)"
    unfolding publish_fanout_events_def publish_fanout_event_def publish_def handle_fanout_failure_def
      exponential_backoff_def Let_def
    by (intro logs_intros) simp_all
qed

lemma declared_backlog [simp]:
  "declared processor_instruments (HistogramRecord ''payments_processor_outbox_backlog'' v [])"
  "declared processor_instruments (HistogramRecord ''payments_processor_outbox_lag_seconds'' v [])"
  by (simp_all add: declared_def processor_instruments_def)

text \<open>One round snapshots the backlog and the lag once, whatever becomes of its events.\<close>

definition snapshots :: "nat \<Rightarrow> telemetry list \<Rightarrow> bool" where
  "snapshots n ts \<longleftrightarrow> list_all (declared processor_instruments) ts \<and>
     occurrences ''payments_processor_outbox_backlog'' ts = n \<and>
     occurrences ''payments_processor_outbox_lag_seconds'' ts = n"

lemma snapshots_append: "snapshots m ts \<Longrightarrow> snapshots n us \<Longrightarrow> snapshots (m + n) (ts @ us)"
  by (simp add: snapshots_def)

lemma snapshots_processed:
  assumes "list_all processed ts"
  shows "snapshots 0 ts"
proof -
  have "list_all (declared processor_instruments) ts"
    using assms declared_mono [OF _ set_drop_subset] by (auto simp: list_all_iff)
  then show ?thesis using occurrences_none [OF assms] by (simp add: snapshots_def processor_instruments_def)
qed

lemma backlog_reads:
  fixes w :: "('e, 'm) world_scheme"
  shows "\<exists>n v. backlog_size env w = (Inr n, v) \<and> w_telemetry v = w_telemetry w"
    and "\<exists>l v. oldest_pending_lag env w = (Inr l, v) \<and> w_telemetry v = w_telemetry w"
  by (auto simp: backlog_size_def oldest_pending_lag_def db_select_def interfere_def outside_def bindM_def
      split: prod.split option.split)

lemma iteration_snapshots:
  fixes w :: "('e, 'm) proc_world_scheme"
  shows "\<exists>w' new. worker_iteration env ws w = (Inr (), w') \<and> w_telemetry w' = w_telemetry w @ new \<and> snapshots 1 new"
proof -
  let ?rest = "bindM (fetch_pending_requested env (ws_batch_size ws)) (\<lambda>events.
      bindM (forM events (process_event env ws)) (\<lambda>_. publish_fanout_events env ws)) :: ('e, 'm, unit) pact"
  have rest: "logs processed ?rest" by (intro logs_intros logs_events)
  obtain n v where n: "backlog_size env (w\<lparr>w_pending := []\<rparr>) = (Inr n, v)" "w_telemetry v = w_telemetry w"
    using backlog_reads(1) [of env "w\<lparr>w_pending := []\<rparr>"] by auto
  let ?b = "HistogramRecord ''payments_processor_outbox_backlog'' n []"
  obtain l u where l: "oldest_pending_lag env (v\<lparr>w_telemetry := w_telemetry w @ [?b]\<rparr>) = (Inr l, u)"
      "w_telemetry u = w_telemetry w @ [?b]"
    using backlog_reads(2) [of env "v\<lparr>w_telemetry := w_telemetry w @ [?b]\<rparr>"] by auto
  let ?u = "u\<lparr>w_telemetry := w_telemetry w @ [?b, HistogramRecord ''payments_processor_outbox_lag_seconds'' l []]\<rparr>"
  obtain r x where x: "?rest ?u = (r, x)" by (metis prod.exhaust)
  obtain new where new: "w_telemetry x = w_telemetry ?u @ new" "list_all processed new" by (rule logsD [OF rest x])
  have run: "run_once env ws w = (r, x\<lparr>w_pending := []\<rparr>)"
    using n l x by (simp add: run_once_def in_session_def bindM_def)
  let ?tail = "case r of Inl y \<Rightarrow> [LogLine ''worker_iteration_failed'' [(''error_type'', PStr (exception_name y))]] | Inr _ \<Rightarrow> []"
  have "\<exists>w'. worker_iteration env ws w = (Inr (), w') \<and> w_telemetry w' = w_telemetry x @ ?tail"
    by (cases r) (simp_all add: worker_iteration_def catch_def bindM_def outside_def run)
  moreover have "snapshots 1 ([?b, HistogramRecord ''payments_processor_outbox_lag_seconds'' l []] @ new @ ?tail)"
    using snapshots_processed [OF new(2)] by (cases r) (simp_all add: snapshots_def)
  ultimately show ?thesis using new(1) by auto
qed

lemma rounds_snapshots:
  "\<exists>w' new. run_rounds n env ws w = (Inr (), w') \<and> w_telemetry w' = w_telemetry w @ new \<and> snapshots n new"
proof (induction n arbitrary: w)
  case 0
  show ?case by (auto simp: snapshots_def)
next
  case (Suc n)
  obtain u new where "worker_iteration env ws w = (Inr (), u)" "w_telemetry u = w_telemetry w @ new" "snapshots 1 new"
    using iteration_snapshots by blast
  then show ?case using Suc.IH [of u] snapshots_append [of 1 new n] by (auto simp: bindM_def)
qed

section \<open>The provider mock\<close>

text \<open>The middleware of the mock, around a route that records nothing itself.\<close>

lemma mock_measured:
  fixes w :: "('e, 'm) world_scheme"
  assumes "logs (\<lambda>_. False) route"
  shows "\<exists>r w' new. mock_telemetry_middleware env path http_method route w = (r, w') \<and>
    w_telemetry w' = w_telemetry w @ new \<and> list_all (declared mock_instruments) new \<and>
    occurrences ''provider_mock_request_total'' new = 1 \<and>
    occurrences ''provider_mock_error_total'' new =
      (case r of Inl _ \<Rightarrow> 0 | Inr resp \<Rightarrow> if 400 \<le> hr_status_code resp then 1 else 0)"
proof -
  obtain start e where start: "o_perf_counter env (w_out w) = (start, e)" by (metis prod.exhaust)
  let ?w = "w\<lparr>w_out := e, w_telemetry := w_telemetry w @
    [CounterAdd ''provider_mock_request_total'' [(''path'', path), (''method'', http_method)]]\<rparr>"
  obtain q v where run: "route ?w = (q, v)" by (metis prod.exhaust)
  have quiet: "w_telemetry v = w_telemetry ?w" using logsD [OF assms run] by (auto simp: list_all_iff)
  show ?thesis
  proof (cases q)
    case (Inl x)
    then show ?thesis using start run quiet
      by (simp add: mock_telemetry_middleware_def bindM_def outside_def declared_def mock_instruments_def)
  next
    case (Inr a)
    let ?latency = "\<lambda>d. HistogramRecord ''provider_mock_latency_ms'' d [(''path'', path)]"
    let ?failure = "if 400 \<le> hr_status_code a
      then [CounterAdd ''provider_mock_error_total'' [(''status_code'', show_int (hr_status_code a))]] else []"
    have "\<exists>resp w' d. mock_telemetry_middleware env path http_method route w = (Inr resp, w') \<and>
        hr_status_code resp = hr_status_code a \<and> w_telemetry w' = w_telemetry v @ ?latency d # ?failure"
      by (auto simp: mock_telemetry_middleware_def bindM_def outside_def start run Inr split: prod.split)
    then obtain resp w' d where served: "mock_telemetry_middleware env path http_method route w = (Inr resp, w')"
      "hr_status_code resp = hr_status_code a" "w_telemetry w' = w_telemetry v @ ?latency d # ?failure" by blast
    then show ?thesis using quiet by (auto simp: declared_def mock_instruments_def)
  qed
qed

end
