(* ===== verification/TelemetryProperties.thy ===== *)
theory TelemetryProperties
  imports Metrics Scenario
begin

text \<open>
  The properties of what the services report about themselves: every request and every round of the worker is
  measured, on the instruments the services create.
\<close>




end
