(* ===== verification/Wiring.thy ===== *)
theory Wiring
  imports Applications Schema
begin

text \<open>
  How the processes are put together: the engines and session factories (\<open>db/session.py\<close> of both services),
  the state of the application and the dependencies read from it (\<open>api/dependencies.py\<close>), the cached settings
  (\<open>core/config.py\<close>), the middleware stack (\<open>main.py\<close>), the names of the span attributes
  (\<open>shared/observability/attributes.py\<close>) and the two ways of running the migrations
  (\<open>alembic/env.py\<close>).  Starlette, SQLAlchemy and Alembic are not part of the repository: what they do with
  the values built here is a parameter.
\<close>

section \<open>Settings\<close>

text \<open>
  \<open>lru_cache\<close> around a constructor: the first success is kept; a failure is not, and the next call tries
  again with the environment it finds.
\<close>

definition cached :: "exn + 'a \<Rightarrow> 'a option \<Rightarrow> (exn + 'a) \<times> 'a option" where
  "cached load cache = (case cache of
       Some s \<Rightarrow> (Inr s, cache)
     | None \<Rightarrow> (case load of Inl x \<Rightarrow> (Inl x, None) | Inr s \<Rightarrow> (Inr s, Some s)))"

definition api_get_settings :: "api_settings \<Rightarrow> api_settings option \<Rightarrow> (exn + api_settings) \<times> api_settings option" where
  "api_get_settings given = cached (load_api_settings given)"

definition processor_get_settings ::
  "processor_settings \<Rightarrow> processor_settings option \<Rightarrow> (exn + processor_settings) \<times> processor_settings option" where
  "processor_get_settings given = cached (load_processor_settings given)"

definition mock_get_settings :: "mock_settings \<Rightarrow> mock_settings option \<Rightarrow> (exn + mock_settings) \<times> mock_settings option" where
  "mock_get_settings given = cached (load_mock_settings given)"

lemma cached_stable: "cached load cache = (Inr s, cache') \<Longrightarrow> cached load' cache' = (Inr s, cache')"
  by (auto simp: cached_def split: option.splits sum.splits)

section \<open>Sessions\<close>

record db_engine =
  en_url :: string
  en_echo :: bool
  en_pool_pre_ping :: bool

record session_factory =
  sf_engine :: db_engine
  sf_expire_on_commit :: bool

definition build_engine :: "string \<Rightarrow> db_engine" where
  "build_engine postgres_dsn = \<lparr>en_url = postgres_dsn, en_echo = False, en_pool_pre_ping = True\<rparr>"

definition build_session_factory :: "db_engine \<Rightarrow> session_factory" where
  "build_session_factory engine = \<lparr>sf_engine = engine, sf_expire_on_commit = False\<rparr>"

definition processor_build_engine :: "string \<Rightarrow> db_engine" where
  "processor_build_engine postgres_dsn = \<lparr>en_url = postgres_dsn, en_echo = False, en_pool_pre_ping = True\<rparr>"

definition processor_build_session_factory :: "db_engine \<Rightarrow> session_factory" where
  "processor_build_session_factory engine = \<lparr>sf_engine = engine, sf_expire_on_commit = False\<rparr>"

text \<open>The generator \<open>get_session\<close> yields a session and closes it when its user is done, however that ends.\<close>

definition get_session :: "('e, 'm, 'a) act \<Rightarrow> ('e, 'm, 'a) act" where
  "get_session user = in_session user"

lemma get_session_closed: "w_pending (snd (get_session user w)) = []"
  by (simp add: get_session_def in_session_def split: prod.split)

section \<open>Dependencies\<close>

record redis_handle =
  rc_url :: string
  rc_decode_responses :: bool

record app_state =
  st_settings :: api_settings
  st_engine :: db_engine
  st_session_factory :: session_factory
  st_redis_client :: redis_handle

definition api_state :: "api_settings \<Rightarrow> app_state" where
  "api_state s = (let engine = build_engine (as_postgres_dsn s) in
     \<lparr>st_settings = s, st_engine = engine, st_session_factory = build_session_factory engine,
      st_redis_client = \<lparr>rc_url = as_redis_url s, rc_decode_responses = True\<rparr>\<rparr>)"

definition get_session_factory :: "app_state \<Rightarrow> session_factory" where
  "get_session_factory state = st_session_factory state"

definition get_redis_client :: "app_state \<Rightarrow> redis_handle" where
  "get_redis_client state = st_redis_client state"

datatype session_use_case =
    GetPaymentUseCase session_factory
  | ApproveReviewPaymentUseCase session_factory
  | RejectReviewPaymentUseCase session_factory

definition get_get_payment_use_case :: "app_state \<Rightarrow> session_use_case" where
  "get_get_payment_use_case state = GetPaymentUseCase (get_session_factory state)"

definition get_approve_review_use_case :: "app_state \<Rightarrow> session_use_case" where
  "get_approve_review_use_case state = ApproveReviewPaymentUseCase (get_session_factory state)"

definition get_reject_review_use_case :: "app_state \<Rightarrow> session_use_case" where
  "get_reject_review_use_case state = RejectReviewPaymentUseCase (get_session_factory state)"

primrec use_case_sessions :: "session_use_case \<Rightarrow> session_factory" where
  "use_case_sessions (GetPaymentUseCase f) = f"
| "use_case_sessions (ApproveReviewPaymentUseCase f) = f"
| "use_case_sessions (RejectReviewPaymentUseCase f) = f"

text \<open>
  Whatever use case a request asks for, its sessions use the engine that start-up opened and shutdown will
  close, and they keep loaded objects readable after a commit, as \<open>approve_execute\<close> needs to answer.
\<close>

lemma use_case_engine:
  assumes "u \<in> {get_get_payment_use_case (api_state s), get_approve_review_use_case (api_state s),
     get_reject_review_use_case (api_state s)}"
  shows "use_case_sessions u = st_session_factory (api_state s)"
    and "sf_engine (use_case_sessions u) = st_engine (api_state s)"
    and "\<not> sf_expire_on_commit (use_case_sessions u)"
  using assms
  by (auto simp: get_get_payment_use_case_def get_approve_review_use_case_def get_reject_review_use_case_def
      get_session_factory_def api_state_def Let_def build_session_factory_def)

lemma startup_engine:
  fixes w :: "('e, 'm) process_scheme"
  assumes "\<And>r. lb_build lib r = None" and "as_app_env s \<noteq> ''local''" and "pc_open w = []"
  shows "\<exists>w'. api_startup env lib vars s w = (Inr (), w') \<and>
    pc_open w' = [DatabaseEngine (en_url (st_engine (api_state s))), RedisClient (rc_url (get_redis_client (api_state s)))]"
  using assms
  by (simp add: api_startup_def set_up_observability_def build_def bindM_def api_state_def Let_def build_engine_def
      get_redis_client_def)

section \<open>The provider client\<close>

record provider_client_factory =
  pf_base_url :: string
  pf_timeout_seconds :: rat

definition create_provider_client :: "provider_client_factory \<Rightarrow> resource" where
  "create_provider_client f = ProviderClient (pf_base_url f) (pf_timeout_seconds f)"

section \<open>The middleware stack\<close>

record cors_settings =
  co_allow_origins :: "string list"
  co_allow_credentials :: bool
  co_allow_methods :: "string list"
  co_allow_headers :: "string list"

datatype layer = Cors cors_settings | Correlation | Telemetry

text \<open>\<open>add_middleware\<close> puts a layer around those added before it.\<close>

definition add_middleware :: "layer \<Rightarrow> layer list \<Rightarrow> layer list" where
  "add_middleware l ls = l # ls"

definition api_layers :: "api_settings \<Rightarrow> layer list" where
  "api_layers s =
     add_middleware Telemetry
       (add_middleware Correlation
         (add_middleware (Cors \<lparr>co_allow_origins = cors_allowed_origins s, co_allow_credentials = False,
              co_allow_methods = [''GET'', ''POST'', ''OPTIONS''],
              co_allow_headers = [''Authorization'', ''Content-Type'', ''Idempotency-Key'', ''X-Merchant-Id'',
                ''X-Customer-Id'', ''X-Account-Id'']\<rparr>)
           []))"

definition mock_layers :: "mock_settings \<Rightarrow> layer list" where
  "mock_layers s =
     add_middleware Telemetry
       (add_middleware Correlation
         (add_middleware (Cors \<lparr>co_allow_origins = mock_cors_allowed_origins s, co_allow_credentials = False,
              co_allow_methods = [''GET'', ''POST'', ''OPTIONS''],
              co_allow_headers = [''Authorization'', ''Content-Type'']\<rparr>)
           []))"

text \<open>
  Running a stack of the API: \<open>cors\<close> is what Starlette's CORS layer does for its settings.  The handlers of
  application errors are inside all layers, the handler of other exceptions is outside.
\<close>

primrec run_layer ::
  "'e outside \<Rightarrow> (cors_settings \<Rightarrow> ('e, 'm, http_response) act \<Rightarrow> ('e, 'm, http_response) act) \<Rightarrow> string \<Rightarrow> string \<Rightarrow>
   (string \<rightharpoonup> string) \<Rightarrow> layer \<Rightarrow> ('e, 'm, http_response) act \<Rightarrow> ('e, 'm, http_response) act" where
  "run_layer env cors path http_method headers (Cors c) inner = cors c inner"
| "run_layer env cors path http_method headers Correlation inner = correlation_middleware env headers inner"
| "run_layer env cors path http_method headers Telemetry inner = telemetry_middleware env path http_method inner"

definition run_stack ::
  "'e outside \<Rightarrow> (cors_settings \<Rightarrow> ('e, 'm, http_response) act \<Rightarrow> ('e, 'm, http_response) act) \<Rightarrow> string \<Rightarrow> string \<Rightarrow>
   (string \<rightharpoonup> string) \<Rightarrow> layer list \<Rightarrow> ('e, 'm, http_response) act \<Rightarrow> ('e, 'm, http_response) act" where
  "run_stack env cors path http_method headers layers route =
     catch (foldr (run_layer env cors path http_method headers) layers (answer_app_errors route)) (\<lambda>_. handle_unexpected)"

text \<open>
  A request without an \<open>Origin\<close> header passes the CORS layer as it is: the stack that start-up builds is \<open>serve\<close>.
\<close>

lemma run_stack_serve:
  assumes "\<And>c m. cors c m = m"
  shows "run_stack env cors path http_method headers (api_layers s) route = serve env path http_method headers route"
  by (simp add: run_stack_def api_layers_def add_middleware_def serve_def assms)

text \<open>
  The headers the create route requires may be sent by a page of an allowed origin; \<open>X-Rail\<close>, which the
  correlation layer reads, may not.
\<close>

lemma cors_headers:
  assumes "Cors c \<in> set (api_layers s)"
  shows "{''Idempotency-Key'', ''X-Merchant-Id'', ''X-Customer-Id'', ''X-Account-Id'', ''Authorization''}
      \<subseteq> set (co_allow_headers c)"
    and "''X-Rail'' \<notin> set (co_allow_headers c)" and "\<not> co_allow_credentials c"
  using assms by (auto simp: api_layers_def add_middleware_def)

section \<open>Span attributes\<close>

definition span_attributes :: "string list" where
  "span_attributes = [''trace_id'', ''payment_id'', ''idempotency_key'', ''merchant_id'', ''provider'', ''status'']"

section \<open>Running the migrations\<close>

text \<open>
  What \<open>env.py\<close> configures: the offline mode renders a script for an address, with literal values; the
  online mode uses a connection it opens, without a pool.
\<close>

record migration_context =
  mc_url :: string
  mc_connected :: bool
  mc_target_metadata :: catalog
  mc_literal_binds :: bool
  mc_compare_type :: bool

record 'd alembic =
  al_connect :: "string \<Rightarrow> exn option"
  al_run_migrations :: "migration_context \<Rightarrow> 'd \<Rightarrow> (exn + unit) \<times> 'd"

text \<open>On a connection the transaction is rolled back when its body raises; a script is written as it goes.\<close>

definition begin_transaction :: "migration_context \<Rightarrow> ('d \<Rightarrow> (exn + unit) \<times> 'd) \<Rightarrow> 'd \<Rightarrow> (exn + unit) \<times> 'd" where
  "begin_transaction ctx body d = (case body d of
       (Inl x, d') \<Rightarrow> (Inl x, if mc_connected ctx then d else d')
     | (Inr u, d') \<Rightarrow> (Inr u, d'))"

definition run_migrations_offline ::
  "'d alembic \<Rightarrow> catalog \<Rightarrow> string option \<Rightarrow> string \<Rightarrow> 'd \<Rightarrow> (exn + unit) \<times> 'd" where
  "run_migrations_offline lib target_metadata env_url main_option =
     (let ctx = \<lparr>mc_url = resolve_database_url env_url main_option, mc_connected = False,
        mc_target_metadata = target_metadata, mc_literal_binds = True, mc_compare_type = True\<rparr>
      in begin_transaction ctx (al_run_migrations lib ctx))"

definition run_migrations_online ::
  "'d alembic \<Rightarrow> catalog \<Rightarrow> string option \<Rightarrow> string \<Rightarrow> 'd \<Rightarrow> (exn + unit) \<times> 'd" where
  "run_migrations_online lib target_metadata env_url main_option d =
     (let url = resolve_database_url env_url main_option in
      case al_connect lib url of
        Some x \<Rightarrow> (Inl x, d)
      | None \<Rightarrow>
          (let ctx = \<lparr>mc_url = url, mc_connected = True, mc_target_metadata = target_metadata,
             mc_literal_binds = False, mc_compare_type = True\<rparr>
           in begin_transaction ctx (al_run_migrations lib ctx) d))"

definition run_migrations ::
  "'d alembic \<Rightarrow> catalog \<Rightarrow> bool \<Rightarrow> string option \<Rightarrow> string \<Rightarrow> 'd \<Rightarrow> (exn + unit) \<times> 'd" where
  "run_migrations lib target_metadata offline_mode env_url main_option =
     (if offline_mode then run_migrations_offline lib target_metadata env_url main_option
      else run_migrations_online lib target_metadata env_url main_option)"

text \<open>A run on a connection that fails changes nothing.\<close>

lemma migrations_all_or_nothing:
  "run_migrations lib target False env_url main_option d = (Inl x, d') \<Longrightarrow> d' = d"
  by (auto simp: run_migrations_def run_migrations_online_def begin_transaction_def Let_def
      split: sum.splits option.splits prod.splits)

text \<open>
  With a library that applies the operations of the revision to the catalogue, an empty database gets the
  tables of the schema, and a second run on a connection is refused and changes nothing.
\<close>

definition revision_runner :: "catalog alembic" where
  "revision_runner = \<lparr>al_connect = (\<lambda>url. None),
     al_run_migrations = (\<lambda>ctx c. case run_ops upgrade c of
         None \<Rightarrow> (Inl (DatabaseError ''already exists''), c)
       | Some d \<Rightarrow> (Inr (), d))\<rparr>"

lemmas migration_defs = run_migrations_def run_migrations_offline_def run_migrations_online_def begin_transaction_def
  revision_runner_def Let_def

lemma revision_runs:
  "run_migrations revision_runner target mode env_url main_option no_catalog = (Inr (), migrated_catalog)"
  "run_migrations revision_runner target False env_url main_option migrated_catalog =
     (Inl (DatabaseError ''already exists''), migrated_catalog)"
proof -
  have "run_ops upgrade migrated_catalog = None" by code_simp
  then show "run_migrations revision_runner target False env_url main_option migrated_catalog =
     (Inl (DatabaseError ''already exists''), migrated_catalog)" by (simp add: migration_defs)
qed (simp add: migration_defs upgrade_from_nothing)

end
