(* ===== verification/Spec2Isabelle.thy ===== *)
theory Spec2Isabelle
  imports System LifecycleSystem Retries Fanout ServiceProperties PlatformProperties BoundaryProperties DeploymentProperties
    TelemetryProperties Wiring
begin

text \<open>
  A verification library of the payments system: an API that accepts payments under KYC, limits, rate, risk and AML
  controls (\<open>services/payments-api\<close>), a processor that takes accepted payments to the provider and publishes the
  outcomes (\<open>services/payments-processor\<close>), a provider mock (\<open>services/provider-mock\<close>), and what they share
  (\<open>shared/\<close>, \<open>alembic/\<close>).  API and processor meet only in the PostgreSQL tables: the API commits a payment, its
  idempotency record and an outbox event in one transaction; the worker polls the outbox, calls the provider and commits
  the outcome.  Redis holds locks, counters, the policy cache and the AML history.

  Model.  A handler is a state-passing program with exceptions (\<open>Prelude\<close>) over a \<open>world\<close> (\<open>World\<close>): the committed
  tables, the writes pending in the session, the emitted telemetry, the correlation context, and an abstract outside.  The
  record \<open>outside\<close> holds one function per library call the source makes: clocks, \<open>uuid4\<close>, \<open>random\<close>, each Redis
  command (with failure), the provider's HTTP endpoint, the event bus, the codec of the policy cache, the trace context,
  the type of the amount column.  Nothing is assumed of them except where a theorem says so.  \<open>o_interfere\<close> is what
  other sessions commit between two statements, so one run stands for all its interleavings; \<open>well_behaved\<close> says
  that they behave as this system's own runs do (\<open>grows\<close>), \<open>alone\<close> that there are none.

  Theories and the code they model.
  \<^item> Python: \<open>PyText\<close>, \<open>PyDecimal\<close>, \<open>DecimalText\<close>, \<open>PyTime\<close> (text, \<open>decimal\<close>, calendar).
  \<^item> \<open>shared/\<close>: \<open>Contracts\<close> (enumerations, DTOs, payloads, rows), \<open>PaymentRails\<close> (rails, Redis keys, scoped key),
    \<open>Validation\<close>, \<open>Errors\<close> (the exceptions of all services), \<open>Logging\<close> and \<open>Redaction\<close> (correlation, sanitizer),
    \<open>Resilience\<close> (breaker, backoff, retry, bulkhead), \<open>Tracing\<close> (propagation).
  \<^item> Tables: \<open>Database\<close> (constraints and statements), \<open>Repositories\<close> (both services), \<open>Schema\<close> (the migration and the
    ORM as catalogues), \<open>Conformance\<close> (rows against columns).
  \<^item> API: \<open>Kyc\<close>, \<open>LimitsService\<close>, \<open>RateLimiter\<close>, \<open>Risk\<close>, \<open>Aml\<close>, \<open>Idempotency\<close>, \<open>CreatePayment\<close> (every method of
    the use case), \<open>ReviewPayment\<close> (approve, reject, get), \<open>Api\<close> (authentication, routes, error handlers, middleware, seeds).
  \<^item> Processor: \<open>Processor\<close> (strategies, adapter, commands, worker), \<open>EventBus\<close> and \<open>Brokers\<close> (publishers).
  \<^item> Mock: \<open>ProviderMock\<close>.  Processes: \<open>Settings\<close> (of the three services and what is built from them), \<open>Applications\<close>
    (start-up, shutdown, set-up of logging and telemetry), \<open>Wiring\<close> (sessions, dependencies, cached settings, middleware
    stack, runs of the migration), \<open>Metrics\<close> (the instruments of \<open>core/metrics.py\<close> and what is recorded on them).
  A definition has the name of the Python function or class; record fields carry a short prefix.

  What the lemmas show.  \<open>Growth\<close>, \<open>Guarantee\<close>, \<open>CreateSafety\<close>, \<open>TransactionSafety\<close>, \<open>System\<close>: against other sessions, each
  handler keeps the tables \<open>consistent\<close> and only \<open>extends\<close> them, and the provider is sent no blocked payment; idempotency
  follows.  \<open>Alone\<close>, \<open>Settlement\<close>, \<open>Fanout\<close>, \<open>Retries\<close>: one review, one event, one fan-out batch and the attempts of an event,
  exactly.  \<open>Lifecycle\<close>, \<open>LifecycleSystem\<close>: the system refines the state machine of payments.  \<open>Offline\<close>: without Redis the
  controls are a pure function of the tables.  \<open>QuietRuns\<close>: frame rules.
  \<open>Metrics\<close>: every handler and every round only adds telemetry, on declared instruments.  \<open>MemoryOutside\<close>, \<open>Scenario\<close>: a concrete outside that
  meets each contract, for the witnesses.  Properties that span components are here; the others in \<open>ServiceProperties\<close>,
  \<open>PlatformProperties\<close>, \<open>BoundaryProperties\<close>, \<open>DeploymentProperties\<close> and \<open>TelemetryProperties\<close>.

  Interfaces are locales: \<open>risk_rule\<close>, the Redis contracts of the services, \<open>preorder_guarantee\<close>, \<open>propagator\<close>,
  \<open>amqp_broker\<close>; each is interpreted on the model's definitions or on the concrete outside.

  Bounds and recursion.  The polling of a pending idempotent request makes its five rounds and the retry its given number
  of attempts, by recursion on them; redaction recurses on the text with a proved measure.  \<open>run_forever\<close> is \<open>run_rounds n\<close>
  for every \<open>n\<close>; no round raises, so no bound on \<open>n\<close> loses behaviour but the interruption inside a round.  Integers are unbounded as in
  Python; column widths are checked in \<open>Conformance\<close>.  Text is Latin-1.  Floats are rationals.

  Not modelled: the HTTP parsing, the routing and the CORS layer of FastAPI and Starlette beyond the request model, the
  handlers, the middleware and its stack; SQLAlchemy, asyncpg, redis, httpx, aio_pika, aiokafka, Alembic and OpenTelemetry
  themselves; the spans, which have no effect on the data; the installation of handlers on Python's loggers beyond the root's;
  tests, infrastructure and documents.  Imports, protocol classes and package exports have no behaviour.
\<close>

section \<open>The life of a payment\<close>

text \<open>
  C1: idempotency of \<open>POST /payments\<close>.  Once a request has been answered, every later request with
  the same merchant and idempotency key that succeeds is answered with the same payment,
  whatever runs of the use cases and of the worker happened in between, whatever the body, the
  settings and the state of Redis are, and whatever the concurrent sessions do.
\<close>

theorem create_idempotent:
  fixes w :: "('e, 'm) world_scheme" and v :: "('e, 'n) world_scheme"
  assumes env: "well_behaved env" and c: "consistent (w_db w)"
    and first: "create_execute env uc request headers w = (Inr a, w')"
    and between: "(system_step env)\<^sup>*\<^sup>* (w_db w') (w_db v)"
    and again: "create_execute env uc' request' headers' v = (Inr b, v')"
    and merchant: "headers' ''X-Merchant-Id'' = headers ''X-Merchant-Id''"
    and key: "headers' ''Idempotency-Key'' = headers ''Idempotency-Key''"
  shows "ac_payment_id b = ac_payment_id a"
proof -
  have same: "require_header headers' k = require_header headers k"
    if "k = ''X-Merchant-Id'' \<or> k = ''Idempotency-Key''" for k
    using that merchant key by (auto simp: require_header_def)
  from create_execute_safe [OF env c first] obtain m k where
    d: "consistent (w_db w')" and m: "require_header headers ''X-Merchant-Id'' = Inr m"
    and k: "require_header headers ''Idempotency-Key'' = Inr k"
    and a: "scope_owned (m, k) (ac_payment_id a) (w_db w')" by blast
  have v: "consistent (w_db v) \<and> extends (w_db w') (w_db v)"
    by (rule steps_grow [OF between env d])
  then have "scope_owned (m, k) (ac_payment_id a) (w_db v)" using a scope_owned_extends by blast
  moreover from create_execute_safe [OF env _ again] v same m k
  have v': "consistent (w_db v') \<and> extends (w_db v) (w_db v')"
    and "scope_owned (m, k) (ac_payment_id b) (w_db v')" by auto
  ultimately show ?thesis using scope_owned_extends scope_owned_unique by metis
qed

lemma create_idempotent_witness:
  "\<exists>a b w' v'. create_execute memory_outside example_use_case example_request example_headers
      review_world = (Inr a, w') \<and>
    create_execute memory_outside example_use_case example_request example_headers w' = (Inr b, v') \<and>
    ac_payment_id b = ac_payment_id a"
proof -
  let ?run = "create_execute memory_outside example_use_case example_request example_headers"
  obtain a w' where first: "?run review_world = (Inr a, w')"
    using example_replay by (metis prod.collapse)
  have "fst (?run (snd (?run review_world))) = Inr review_response" by code_simp
  then obtain b v' where again: "?run w' = (Inr b, v')" using first by (metis prod.collapse snd_conv)
  show ?thesis
    using create_idempotent [OF memory_well_behaved review_consistent first rtranclp.rtrancl_refl again]
      first again by blast
qed

text \<open>
  C2: an answer is backed by the tables.  When the create use case succeeds, the tables it leaves
  are consistent, extend those it started from, and hold exactly one payment for the merchant and the
  idempotency key of the headers: the one the answer names.  When it fails, the tables are
  still consistent and still extend the old ones.
\<close>

theorem create_answer_committed:
  fixes w :: "('e, 'm) world_scheme"
  assumes env: "well_behaved env" and c: "consistent (w_db w)"
    and run: "create_execute env uc request headers w = (r, w')"
  shows "consistent (w_db w') \<and> extends (w_db w) (w_db w') \<and>
    (case r of Inl x \<Rightarrow> True | Inr a \<Rightarrow>
       (\<exists>m k p. require_header headers ''X-Merchant-Id'' = Inr m \<and>
          require_header headers ''Idempotency-Key'' = Inr k \<and>
          payments_by_scope m k (w_db w') = [p] \<and> p_payment_id p = ac_payment_id a))"
proof -
  note safe = create_execute_safe [OF env c run]
  show ?thesis
  proof (cases r)
    case (Inr a)
    with safe obtain m k where m: "require_header headers ''X-Merchant-Id'' = Inr m"
      and k: "require_header headers ''Idempotency-Key'' = Inr k"
      and o: "scope_owned (m, k) (ac_payment_id a) (w_db w')" by blast
    from scope_owned_row [OF _ o] safe obtain p where "payments_by_scope m k (w_db w') = [p]"
      and "p_payment_id p = ac_payment_id a" by blast
    then show ?thesis using safe m k Inr by auto
  qed (use safe in simp)
qed

lemma create_answer_committed_witness:
  "\<exists>w' p. create_execute memory_outside example_use_case example_request example_headers review_world
      = (Inr review_response, w') \<and>
    payments_by_scope ''m1'' ''k1'' (w_db w') = [p] \<and> p_payment_id p = ''pay-1''"
proof -
  obtain w' where run: "create_execute memory_outside example_use_case example_request example_headers
      review_world = (Inr review_response, w')"
    using example_replay by (metis prod.collapse)
  from create_answer_committed [OF memory_well_behaved review_consistent run] example_scope
  show ?thesis using run by (auto simp: review_response_def)
qed

text \<open>
  C3: a created payment can be read back.  After a creation has been answered, and whatever the system has done since,
  reading the payment the answer names succeeds, against other sessions that behave, and shows the merchant and the
  idempotency key of the request; a payment that risk or AML blocked is shown as blocked.
\<close>

theorem created_payment_readable:
  fixes w :: "('e, 'm) world_scheme" and v :: "('e, 'n) world_scheme"
  assumes env: "well_behaved env" and c: "consistent (w_db w)"
    and create: "create_execute env uc request headers w = (Inr a, w')"
    and between: "(system_step env)\<^sup>*\<^sup>* (w_db w') (w_db v)"
    and read: "get_execute env (ac_payment_id a) v = (r, v')"
  shows "\<exists>view. r = Inr view \<and> sr_payment_id view = ac_payment_id a \<and>
    require_header headers ''X-Merchant-Id'' = Inr (sr_merchant_id view) \<and>
    require_header headers ''Idempotency-Key'' = Inr (sr_idempotency_key view) \<and>
    (if sr_risk_decision view = Some RISK_BLOCK \<or> sr_aml_decision view = Some AML_BLOCK
     then sr_status view = BLOCKED else True)"
proof -
  from create_execute_safe [OF env c create] obtain m k where
    d: "consistent (w_db w')" and m: "require_header headers ''X-Merchant-Id'' = Inr m"
    and k: "require_header headers ''Idempotency-Key'' = Inr k"
    and a: "scope_owned (m, k) (ac_payment_id a) (w_db w')" by blast
  have v: "consistent (w_db v)" "extends (w_db w') (w_db v)" using steps_grow [OF between env d] by auto
  obtain d' e where seen: "o_interfere env (w_db v) (w_out v) = (d', e)" by (metis prod.exhaust)
  then have d': "consistent d'" "extends (w_db v) d'" using well_behavedD [OF env seen] v(1) by (auto simp: grows_def)
  then have "scope_owned (m, k) (ac_payment_id a) d'" using a v(2) scope_owned_extends by blast
  then obtain p where p: "p \<in> set (db_payments d')" "payment_scope p = (m, k)" "p_payment_id p = ac_payment_id a"
    by (auto simp: scope_owned_def)
  have "distinct (map p_payment_id (db_payments d'))" using consistentD(1) [OF d'(1)] by (simp add: constraints_ok_def)
  from filter_key_unique [OF this p(1)] have "payments_by_id (ac_payment_id a) d' = [p]"
    by (simp add: payments_by_id_def p(3))
  then have "r = Inr (payment_status_view p)"
    using read seen by (auto simp: get_execute_def in_session_def get_by_payment_id_def db_select_def interfere_def bindM_def db_view_def)
  moreover have "blocked_by_controls p \<Longrightarrow> p_status p = BLOCKED"
    using d'(1) p(1) by (auto simp: consistent_def coherent_def)
  ultimately show ?thesis using m k p(2,3) by (auto simp: payment_status_view_def payment_scope_def blocked_by_controls_def)
qed

lemma created_payment_readable_witness:
  "\<exists>view. fst (get_execute memory_outside ''pay-1'' (snd (create_execute memory_outside example_use_case example_request example_headers
      review_world))) = Inr view \<and> sr_merchant_id view = ''m1'' \<and> sr_idempotency_key view = ''k1''"
proof -
  obtain w' where run: "create_execute memory_outside example_use_case example_request example_headers
      review_world = (Inr review_response, w')"
    using example_replay by (metis prod.collapse)
  obtain r v' where read: "get_execute memory_outside (ac_payment_id review_response) w' = (r, v')" by (metis prod.exhaust)
  from created_payment_readable [OF memory_well_behaved review_consistent run rtranclp.rtrancl_refl read] example_scope run read
  show ?thesis by (auto simp: review_response_def)
qed

text \<open>
  C4: the tables of the running system.  Whatever sequence of creations, reviews, reads, seedings and
  worker rounds has run, each against other sessions that behave, the constraints hold; a
  payment that risk or AML blocked has status \<open>BLOCKED\<close>; every other payment has the outbox event it was
  accepted with; a \<open>PaymentRequested\<close> event always belongs to a payment that was not blocked; and
  payments and idempotency records pair up.
\<close>

theorem reachable_tables:
  assumes "reachable env d" and "well_behaved env"
  shows "constraints_ok d \<and>
    (\<forall>p\<in>set (db_payments d).
       (if p_risk_decision p = Some RISK_BLOCK \<or> p_aml_decision p = Some AML_BLOCK
        then p_status p = BLOCKED
        else \<exists>e\<in>set (db_outbox d). ob_aggregate_id e = p_payment_id p \<and> ob_event_type e = accepted_event p) \<and>
       (\<exists>r\<in>set (db_idempotency d). idempotency_scope r = payment_scope p \<and> ir_payment_id r = p_payment_id p)) \<and>
    (\<forall>e\<in>set (db_outbox d). ob_event_type e = PAYMENT_REQUESTED \<longrightarrow>
       (\<exists>p\<in>set (db_payments d). p_payment_id p = ob_aggregate_id e \<and>
          p_risk_decision p \<noteq> Some RISK_BLOCK \<and> p_aml_decision p \<noteq> Some AML_BLOCK))"
  using reachable_consistent [OF assms]
  by (auto simp: consistent_def coherent_def blocked_by_controls_def has_event_def)

lemma reachable_tables_witness:
  "\<exists>d. reachable memory_outside d \<and> db_customers d = seed_customers 5000000 \<and> constraints_ok d"
proof -
  let ?w = "\<lparr>w_out = idle_memory, w_db = empty_tables, w_pending = [], w_telemetry = [],
     w_correlation = []\<rparr> :: memory world"
  let ?d = "w_db (snd (init_db memory_outside ?w))"
  have "reachable memory_outside (w_db ?w)" by (simp add: reachable.start)
  then have r: "reachable memory_outside ?d" using system_step.seed by (blast intro: reachable.step)
  moreover have "db_customers ?d = seed_customers 5000000" by code_simp
  ultimately show ?thesis using reachable_tables [OF r memory_well_behaved] by blast
qed

section \<open>The provider\<close>

text \<open>
  C5: the provider is never asked to confirm a blocked payment.  \<open>g\<close> reads off the outside the set of requests the
  provider has received, which only the HTTP call extends.  After any number of worker rounds, from
  consistent tables and against other sessions that behave, every request received in
  them is for a payment of the tables that risk and AML did not block.
\<close>

theorem blocked_never_sent:
  fixes w :: "('e, 'm) proc_world_scheme"
  assumes "calls_logged g env" and "consistent (w_db w)" and "w_pending w = []"
    and "run_rounds n env ws w = (r, w')"
    and "rq \<in> g (w_out w')" and "rq \<notin> g (w_out w)"
  shows "\<exists>p\<in>set (db_payments (w_db w')). p_payment_id p = pr_payment_id rq \<and>
    p_risk_decision p \<noteq> Some RISK_BLOCK \<and> p_aml_decision p \<noteq> Some AML_BLOCK"
  using worker_never_posts_blocked [OF assms(1-3), of n ws] assms(4-6)
  by (auto simp: payable_def blocked_by_controls_def)

definition due_payment :: payment_row where
  "due_payment = review_payment\<lparr>p_payment_id := ''p'', p_merchant_id := ''m'', p_customer_id := ''c'',
     p_account_id := ''a'', p_currency := ''X'', p_destination := None, p_idempotency_key := ''k'', p_status := RECEIVED,
     p_risk_decision := Some RISK_ALLOW\<rparr>"

definition due_event :: outbox_row where
  "due_event = \<lparr>ob_event_id = ''e'', ob_aggregate_id = ''p'', ob_event_type = PAYMENT_REQUESTED,
     ob_payload = PNone, ob_status = OB_PENDING, ob_created_at = 0, ob_attempts = 0, ob_next_attempt_at = 0\<rparr>"

definition processor_world :: "memory proc_world" where
  "processor_world =
     \<lparr>w_out = idle_memory\<lparr>mm_replies := [Inr (HttpReply 200 (Some
         \<lparr>rs_provider_reference = ''r'', rs_confirmed = True, rs_provider = ''v'',
          rs_duplicate = False, rs_partial_failure = False\<rparr>))]\<rparr>,
      w_db = \<lparr>db_customers = [seed_customer 0 ''c'' KYC_FULL ACTIVE], db_limits = [],
        db_payments = [due_payment], db_outbox = [due_event],
        db_idempotency = [\<lparr>ir_merchant_id = ''m'', ir_idempotency_key = ''k'', ir_payment_id = ''p'',
          ir_status_code = 202, ir_response_payload = dump_accepted (review_response\<lparr>ac_payment_id := ''p''\<rparr>),
          ir_created_at = 0\<rparr>]\<rparr>,
      w_pending = [], w_telemetry = [], w_correlation = [],
      pw_breakers = [''pix-provider'' \<mapsto> new_breaker \<lparr>cc_failure_threshold = 3, cc_recovery_timeout_seconds = 5\<rparr>],
      pw_bulkhead = \<lparr>bh_limit = 25, bh_permits = Map.empty\<rparr>\<rparr>"

definition example_worker :: worker_settings where
  "example_worker = \<lparr>ws_batch_size = 50, ws_max_event_attempts = 5, ws_poll_interval_seconds = 1,
     ws_publisher_enabled = False\<rparr>"
lemma processor_consistent: "consistent (w_db processor_world)"
  by (simp add: processor_world_def due_payment_def due_event_def consistent_def constraints_ok_def coherent_def
      seed_customer_def review_payment_def has_event_def accepted_event_def review_response_def
      payment_scope_def idempotency_scope_def blocked_by_controls_def del: validate_dump_accepted)
     (simp add: validate_dump_accepted)

lemma blocked_never_sent_witness:
  "\<exists>r w'. run_rounds 1 memory_outside example_worker processor_world = (r, w') \<and>
    (\<exists>p\<in>set (db_payments (w_db w')). p_payment_id p = ''p'' \<and> p_risk_decision p \<noteq> Some RISK_BLOCK)"
proof -
  let ?run = "run_rounds 1 memory_outside example_worker processor_world"
  obtain r w' where run: "?run = (r, w')" by (metis prod.exhaust)
  have "provider_request_of due_payment \<in> set (mm_calls (w_out (snd ?run)))" by code_simp
  then have sent: "provider_request_of due_payment \<in> set (mm_calls (w_out w'))" using run by simp
  have idle: "w_pending processor_world = []" "provider_request_of due_payment \<notin> set (mm_calls (w_out processor_world))"
    by (simp_all add: processor_world_def idle_memory_def)
  show ?thesis
    using blocked_never_sent [OF memory_calls_logged processor_consistent idle(1) run sent idle(2)] run
    by (auto simp: provider_request_of_def due_payment_def review_payment_def)
qed



text \<open>
  C7: an event is settled in time.  Let \<open>m\<close> attempts be allowed, and the pending event of a payment have used
  some of them up.  With no other session in the middle of a processing, the worker can process the event
  successfully at most \<open>max 1 (m - used)\<close> times, whatever the provider answers, and when it has done so that
  often the event is closed and its payment is confirmed or failed.
\<close>

theorem event_closed_in_time:
  assumes "alone env" and "constraints_ok d" and "event \<in> set (db_outbox d)" and "ob_status event = OB_PENDING"
    and "payments_by_id (ob_aggregate_id event) d = [p]"
    and "attempted env ws (ob_event_id event) d n d'"
  shows "int n \<le> max 1 (ws_max_event_attempts ws - ob_attempts event) \<and>
    (if int n = max 1 (ws_max_event_attempts ws - ob_attempts event)
     then \<exists>e q. events_by_id (ob_event_id event) d' = [e] \<and> ob_status e \<noteq> OB_PENDING \<and>
       payments_by_id (ob_aggregate_id event) d' = [q] \<and> p_status q \<in> {CONFIRMED, FAILED}
     else True)"
proof -
  have "standing (ws_max_event_attempts ws) (ob_attempts event) (ob_event_id event) (ob_aggregate_id event) 0 d"
    using assms(2-5) events_by_id_row by (simp add: standing_def)
  from attempted_standing [OF assms(6,1) this] show ?thesis
    unfolding standing_def by (elim conjE exE) (auto split: if_splits)
qed

lemma event_closed_in_time_witness:
  "\<exists>d e q. attempted memory_outside (example_worker\<lparr>ws_max_event_attempts := 1\<rparr>) ''e'' (w_db processor_world) 1 d \<and>
    events_by_id ''e'' d = [e] \<and> ob_status e \<noteq> OB_PENDING \<and> payments_by_id ''p'' d = [q] \<and> p_status q \<in> {CONFIRMED, FAILED}"
proof -
  let ?ws = "example_worker\<lparr>ws_max_event_attempts := 1\<rparr>"
  let ?run = "process_event memory_outside ?ws due_event processor_world"
  let ?d = "w_db (snd ?run)"
  have c: "constraints_ok (w_db processor_world)" using processor_consistent consistentD(1) by blast
  have w: "due_event \<in> set (db_outbox (w_db processor_world))" "ob_status due_event = OB_PENDING"
    "payments_by_id (ob_aggregate_id due_event) (w_db processor_world) = [due_payment]" "w_pending processor_world = []"
    by (simp_all add: processor_world_def due_event_def due_payment_def payments_by_id_def)
  have "fst ?run = Inr ()" by code_simp
  then have "?run = (Inr (), snd ?run)" by (simp add: prod_eq_iff)
  then have "handled memory_outside ?ws ''e'' (w_db processor_world) ?d"
    unfolding handled_def using w by (intro exI [of _ processor_world] exI [of _ due_event] exI [of _ "snd ?run"])
      (simp add: due_event_def)
  from attempted.attempt [OF attempted.none this]
  have a: "attempted memory_outside ?ws (ob_event_id due_event) (w_db processor_world) 1 ?d" by (simp add: due_event_def)
  from event_closed_in_time [OF alone_memory c w(1-3) a] a show ?thesis
    by (auto simp: due_event_def)
qed




section \<open>The lifecycle\<close>

text \<open>
  C9: the system without concurrent sessions refines the lifecycle of a payment.  From tables in which the payments
  that wait and their requests match, any sequence of creations, reviews, reads, seedings and worker rounds
  takes every payment only along the intended moves -- out of review to \<open>RECEIVED\<close> or \<open>BLOCKED\<close>, from
  \<open>RECEIVED\<close> to \<open>PROCESSING\<close>, from there to \<open>CONFIRMED\<close> or \<open>FAILED\<close> -- changes nothing else of it, and never
  moves it once it is confirmed, failed or blocked.
\<close>

theorem payment_lifecycle:
  assumes "alone env" and "lifecycle_ok d" and "(system_step env)\<^sup>*\<^sup>* d d'" and "p \<in> set (db_payments d)"
  shows "\<exists>q\<in>set (db_payments d'). p_core q = p_core p \<and> moves\<^sup>*\<^sup>* (p_status p) (p_status q) \<and>
    (if p_status p \<in> {CONFIRMED, FAILED, BLOCKED} then p_status q = p_status p else True)"
proof -
  from steps_live [OF assms(3,1,2)] assms(4) obtain q where q: "q \<in> set (db_payments d')"
    "p_core q = p_core p" "moves\<^sup>*\<^sup>* (p_status p) (p_status q)" unfolding advances_def by blast
  then show ?thesis using final_stays [OF q(3)] by (auto simp: final_def)
qed

lemma payment_lifecycle_witness:
  "\<exists>q\<in>set (db_payments (w_db (snd (reject_execute memory_outside ''pay-1'' review_world)))).
     p_core q = p_core review_payment \<and> moves\<^sup>*\<^sup>* IN_REVIEW (p_status q)"
proof -
  have ok: "lifecycle_ok (w_db review_world)"
    using review_consistent
    by (auto simp: lifecycle_ok_def consistent_def review_world_def review_tables_def review_event_def review_payment_def
        awaits_def in_processing_def)
  have "system_step memory_outside (w_db review_world) (w_db (snd (reject_execute memory_outside ''pay-1'' review_world)))"
    by (rule system_step.reject) (rule refl)
  from payment_lifecycle [OF alone_memory ok r_into_rtranclp [of "system_step memory_outside", OF this], of review_payment]
  show ?thesis by (auto simp: review_world_def review_tables_def review_payment_def)
qed

text \<open>
  C10: requests and payments match.  In every state the system reaches without concurrent sessions, a payment that is
  \<open>RECEIVED\<close> or \<open>PROCESSING\<close> has exactly one pending \<open>PaymentRequested\<close> event, every other payment
  has none, and no such event is without its payment.
\<close>

theorem one_request_per_payment:
  assumes "alone env" and "reachable env d"
  shows "map (\<lambda>p. length (filter (awaits (p_payment_id p)) (db_outbox d))) (db_payments d) =
      map (\<lambda>p. if p_status p \<in> {RECEIVED, PROCESSING} then 1 else 0) (db_payments d) \<and>
    filter (\<lambda>e. ob_event_type e = PAYMENT_REQUESTED \<and> ob_status e = OB_PENDING \<and>
      ob_aggregate_id e \<notin> p_payment_id ` set (db_payments d)) (db_outbox d) = []"
  using reachable_lifecycle [OF assms(2,1)]
  by (auto simp: lifecycle_ok_def in_processing_def filter_empty_conv awaits_def)

lemma one_request_per_payment_witness:
  "\<exists>d. reachable memory_outside d \<and> db_customers d = seed_customers 5000000 \<and>
    filter (\<lambda>e. ob_event_type e = PAYMENT_REQUESTED \<and> ob_status e = OB_PENDING \<and>
      ob_aggregate_id e \<notin> p_payment_id ` set (db_payments d)) (db_outbox d) = []"
proof -
  let ?w = "\<lparr>w_out = idle_memory, w_db = empty_tables, w_pending = [], w_telemetry = [],
     w_correlation = []\<rparr> :: memory world"
  let ?d = "w_db (snd (init_db memory_outside ?w))"
  have "reachable memory_outside (w_db ?w)" by (simp add: reachable.start)
  then have r: "reachable memory_outside ?d" using system_step.seed by (blast intro: reachable.step)
  moreover have "db_customers ?d = seed_customers 5000000" by code_simp
  ultimately show ?thesis using one_request_per_payment [OF alone_memory r] by blast
qed

section \<open>Reviews\<close>

text \<open>
  C13: approving a payment, with no other session.  A payment in review becomes \<open>RECEIVED\<close> and a pending
  \<open>PaymentRequested\<close> event for it is added, both or neither: when the identifier of the
  event is taken, the commit fails and the tables are as before.  Any other payment identifier is
  refused and nothing changes.
\<close>

theorem approve_review:
  fixes w :: "('e, 'm) world_scheme"
  assumes "alone env" and "constraints_ok (w_db w)"
  shows "if can_review pid (w_db w)
    then \<exists>r w' now ev. approve_execute env pid w = (r, w') \<and>
      ob_aggregate_id ev = pid \<and> ob_event_type ev = PAYMENT_REQUESTED \<and> ob_status ev = OB_PENDING \<and>
      ob_attempts ev = 0 \<and>
      (if ob_event_id ev \<in> ob_event_id ` set (db_outbox (w_db w))
       then r = Inl IntegrityError \<and> w_db w' = w_db w
       else (\<exists>a. r = Inr a \<and> ac_payment_id a = pid \<and> ac_status a = RECEIVED) \<and>
         w_db w' = insert_event ev (update_payments (\<lambda>p. p_payment_id p = pid)
           (\<lambda>p. p\<lparr>p_status := RECEIVED, p_last_error := None, p_updated_at := now\<rparr>) (w_db w)))
    else \<exists>m w'. approve_execute env pid w = (Inl (ValidationAppError m), w') \<and> w_db w' = w_db w"
  using approve_alone [OF assms, of pid] unfolding reviewed_def [abs_def] .

lemma approve_review_witness:
  "\<exists>r w' now ev. approve_execute memory_outside ''pay-1'' review_world = (r, w') \<and>
    ob_event_type ev = PAYMENT_REQUESTED \<and>
    (if ob_event_id ev = ''ev-1'' then r = Inl IntegrityError
     else w_db w' = insert_event ev (update_payments (\<lambda>p. p_payment_id p = ''pay-1'')
       (\<lambda>p. p\<lparr>p_status := RECEIVED, p_last_error := None, p_updated_at := now\<rparr>) review_tables))"
proof -
  have c: "constraints_ok (w_db review_world)" using review_consistent consistentD(1) by blast
  have can: "can_review ''pay-1'' (w_db review_world)" by code_simp
  have t: "w_db review_world = review_tables" "ob_event_id ` set (db_outbox review_tables) = {''ev-1''}"
    by (simp_all add: review_world_def review_tables_def review_event_def)
  show ?thesis
    using approve_review [OF alone_memory c, of "''pay-1''", unfolded if_P [OF can], unfolded t singleton_iff]
    by (metis (no_types, lifting))
qed

text \<open>
  C14: rejecting a payment, with no other session.  A payment in review becomes \<open>BLOCKED\<close> with the reason
  \<open>manual_review_rejected\<close> and no event is added, so it is never processed; any other identifier
  is refused and nothing changes.
\<close>

theorem reject_review:
  fixes w :: "('e, 'm) world_scheme"
  assumes "alone env" and "constraints_ok (w_db w)"
  shows "if can_review pid (w_db w)
    then \<exists>a w' now. reject_execute env pid w = (Inr a, w') \<and> ac_payment_id a = pid \<and> ac_status a = BLOCKED \<and>
      w_db w' = update_payments (\<lambda>p. p_payment_id p = pid)
        (\<lambda>p. p\<lparr>p_status := BLOCKED, p_last_error := Some ''manual_review_rejected'', p_updated_at := now\<rparr>) (w_db w)
    else \<exists>m w'. reject_execute env pid w = (Inl (ValidationAppError m), w') \<and> w_db w' = w_db w"
  using reject_alone [OF assms, of pid] unfolding reviewed_def [abs_def] .

lemma reject_review_witness:
  "\<exists>m w'. reject_execute memory_outside ''pay-2'' review_world = (Inl (ValidationAppError m), w') \<and>
    w_db w' = review_tables"
proof -
  have c: "constraints_ok (w_db review_world)" using review_consistent consistentD(1) by blast
  have can: "\<not> can_review ''pay-2'' (w_db review_world)" by code_simp
  have "w_db review_world = review_tables" by (simp add: review_world_def)
  with reject_review [OF alone_memory c, of "''pay-2''"] can show ?thesis by simp
qed

end
